(* ===== verification/Prelude.thy ===== *)
theory Prelude
  imports Main "HOL-Library.Word" "HOL-Library.Sublist" "HOL-Library.Monad_Syntax"
begin

text \<open>
  Shared vocabulary of the development: the C integer types as words, the kernel error codes and
  the result type of fallible calls, the fact collections the component proofs use, and the
  generic lemmas on words, lists and reference stores.
\<close>

unbundle bit_operations_syntax

section \<open>Machine integers and results\<close>

type_synonym u8 = "8 word"
type_synonym u16 = "16 word"
type_synonym u32 = "32 word"
type_synonym u64 = "64 word"

text \<open>
  The errno values the driver returns.  A C function returning \<open>-EXXX\<close> or a non-negative value
  becomes a function into \<open>errno + 'a\<close>; a literal \<open>-1\<close> is \<open>-EPERM\<close>.
\<close>

datatype errno = EPERM | EIO | ENOMEM | EFAULT | EBUSY | ENODEV | EINVAL | ENOTTY | EPROTO
  | ETIMEDOUT | EAGAIN | ERESTARTSYS | ENOIOCTLCMD | EIOCBQUEUED | EOTHER nat

type_synonym 'a res = "errno + 'a"

text \<open>The numbers behind the codes, for results that are reported as a single integer.\<close>

fun errno_code :: "errno \<Rightarrow> int" where
  "errno_code EPERM = 1" | "errno_code EIO = 5" | "errno_code EAGAIN = 11" | "errno_code ENOMEM = 12"
| "errno_code EFAULT = 14" | "errno_code EBUSY = 16" | "errno_code ENODEV = 19" | "errno_code EINVAL = 22"
| "errno_code ENOTTY = 25" | "errno_code EPROTO = 71" | "errno_code ETIMEDOUT = 110"
| "errno_code ERESTARTSYS = 512" | "errno_code ENOIOCTLCMD = 515" | "errno_code EIOCBQUEUED = 529"
| "errno_code (EOTHER n) = int n"

text \<open>
  Fact collections: \<open>frame\<close> holds the equations saying which parts of the state an operation
  leaves alone, \<open>bitfield\<close> the equations that evaluate masks and shifts.
\<close>

named_theorems frame
named_theorems bitfield

text \<open>Sequencing of fallible steps: the continuation of a step whose outcome is known.\<close>

lemma case_res_Inr:
  "fst r = Inr u \<Longrightarrow> (case r of (Inl rv, s) \<Rightarrow> f rv s | (Inr v, s) \<Rightarrow> g v s) = g u (snd r)"
  by (cases r) auto

lemma case_res_Inl:
  "fst r = Inl u \<Longrightarrow> (case r of (Inl rv, s) \<Rightarrow> f rv s | (Inr v, s) \<Rightarrow> g v s) = f u (snd r)"
  by (cases r) auto

text \<open>References are pairs of numbers; quantifiers over them stay whole.\<close>

declare split_paired_All [simp del] split_paired_Ex [simp del]

section \<open>Words\<close>

lemma mask8_num: "(0xFF :: u32) = mask 8"
  by (simp add: mask_eq_exp_minus_1)

text \<open>A 64-bit value below \<open>2^63\<close> is the same with and without sign.\<close>

lemma sint_unat:
  assumes "unat (w :: u64) < 2 ^ 63"
  shows "sint w = int (unat w)"
proof -
  have "int (unat w) < 2 ^ 63" using assms by (metis of_nat_less_iff of_nat_numeral of_nat_power)
  moreover have "- (2 ^ 63) \<le> uint w" by (rule order_trans [OF _ uint_ge_0]) simp
  ultimately show ?thesis by (simp add: sint_uint signed_take_bit_int_eq_self_iff)
qed

lemma drop_bit_masked:
  assumes "f AND NOT (mask n) = (0 :: 'a::len word)" and "n \<le> m"
  shows "drop_bit m f = 0"
proof (rule bit_word_eqI)
  fix k
  have "\<not> bit (f AND NOT (mask n)) (m + k)" using assms(1) by simp
  then show "bit (drop_bit m f) k \<longleftrightarrow> bit (0 :: 'a word) k"
    using assms(2) by (auto simp: bit_simps dest: bit_imp_le_length)
qed

section \<open>Reference stores\<close>

text \<open>
  Engines and transfers are C objects reached through pointers.  The model keeps them in a store
  indexed by references; \<open>ref_store\<close> is the contract of such a store: an update through one
  reference is seen through the same reference and through no other.
\<close>

locale ref_store =
  fixes get :: "'s \<Rightarrow> 'r \<Rightarrow> 'o"
    and upd :: "'r \<Rightarrow> ('o \<Rightarrow> 'o) \<Rightarrow> 's \<Rightarrow> 's"
  assumes get_upd: "get (upd r f s) r' = (if r' = r then f (get s r) else get s r')"
    and upd_upd: "upd r g (upd r f s) = upd r (g \<circ> f) s"
    and upd_comm: "r \<noteq> r' \<Longrightarrow> upd r f (upd r' g s) = upd r' g (upd r f s)"
begin

lemma get_upd_same: "get (upd r f s) r = f (get s r)"
  by (simp add: get_upd)

lemma get_upd_other: "r' \<noteq> r \<Longrightarrow> get (upd r f s) r' = get s r'"
  by (simp add: get_upd)

text \<open>A loop over distinct references applies the update once to each of them.\<close>

lemma get_fold_upd:
  "distinct rs \<Longrightarrow>
   get (fold (\<lambda>r. upd r (f r)) rs s) r' = (if r' \<in> set rs then f r' (get s r') else get s r')"
  by (induction rs arbitrary: s) (auto simp: get_upd)

lemma get_fold_upd_out: "r' \<notin> set rs \<Longrightarrow> get (fold (\<lambda>r. upd r (f r)) rs s) r' = get s r'"
  by (induction rs arbitrary: s) (auto simp: get_upd)

end

section \<open>Bytes in memory\<close>

text \<open>A memory after some bytes have been stored from an address on.\<close>

definition put_bytes :: "nat \<Rightarrow> u8 list \<Rightarrow> (nat \<Rightarrow> u8) \<Rightarrow> nat \<Rightarrow> u8" where
  "put_bytes p bs m = (\<lambda>a. if p \<le> a \<and> a < p + length bs then bs ! (a - p) else m a)"

lemma put_bytes_read: "map (put_bytes p bs m) [p..<p + length bs] = bs"
  by (rule nth_equalityI) (simp_all add: put_bytes_def)

lemma put_bytes_nil: "put_bytes p [] m = m"
  by (auto simp: put_bytes_def fun_eq_iff)

lemma put_bytes_append: "put_bytes (p + length a) b (put_bytes p a m) = put_bytes p (a @ b) m"
proof
  fix x
  consider "x < p" | k where "x = p + k" using le_Suc_ex not_less by blast
  then show "put_bytes (p + length a) b (put_bytes p a m) x = put_bytes p (a @ b) m x"
    by cases (simp_all add: put_bytes_def nth_append)
qed

end
