(* ===== verification/Xdma_Regs.thy ===== *)
theory Xdma_Regs
  imports Prelude
begin

text \<open>
  The preprocessor constants and the memory-mapped register blocks of \<open>libxdma.h\<close>.  A register
  block is a packed C struct of 32-bit words; its layout is kept as the list of its members with
  their word counts, and the byte offset the compiler gives a member is computed from it.
\<close>

section \<open>Register blocks\<close>

type_synonym layout = "(string \<times> nat) list"

fun field_off :: "layout \<Rightarrow> string \<Rightarrow> nat" where
  "field_off [] f = 0"
| "field_off ((g, n) # fs) f = (if f = g then 0 else 4 * n + field_off fs f)"

definition engine_regs :: layout where
  "engine_regs =
    [(''identifier'', 1), (''control'', 1), (''control_w1s'', 1), (''control_w1c'', 1),
     (''reserved_1'', 12),
     (''status'', 1), (''status_rc'', 1), (''completed_desc_count'', 1), (''alignments'', 1),
     (''reserved_2'', 14),
     (''poll_mode_wb_lo'', 1), (''poll_mode_wb_hi'', 1), (''interrupt_enable_mask'', 1),
     (''interrupt_enable_mask_w1s'', 1), (''interrupt_enable_mask_w1c'', 1),
     (''reserved_3'', 9),
     (''perf_ctrl'', 1), (''perf_cyc_lo'', 1), (''perf_cyc_hi'', 1), (''perf_dat_lo'', 1),
     (''perf_dat_hi'', 1), (''perf_pnd_lo'', 1), (''perf_pnd_hi'', 1)]"

definition engine_sgdma_regs :: layout where
  "engine_sgdma_regs =
    [(''identifier'', 1), (''reserved_1'', 31), (''first_desc_lo'', 1), (''first_desc_hi'', 1),
     (''first_desc_adjacent'', 1), (''credits'', 1)]"

definition interrupt_regs :: layout where
  "interrupt_regs =
    [(''identifier'', 1), (''user_int_enable'', 1), (''user_int_enable_w1s'', 1),
     (''user_int_enable_w1c'', 1), (''channel_int_enable'', 1), (''channel_int_enable_w1s'', 1),
     (''channel_int_enable_w1c'', 1), (''reserved_1'', 9),
     (''user_int_request'', 1), (''channel_int_request'', 1), (''user_int_pending'', 1),
     (''channel_int_pending'', 1), (''reserved_2'', 12),
     (''user_msi_vector'', 8), (''channel_msi_vector'', 8)]"

definition config_regs :: layout where
  "config_regs = [(''identifier'', 1), (''reserved_1'', 4), (''msi_enable'', 1)]"

definition sgdma_common_regs :: layout where
  "sgdma_common_regs =
    [(''padding'', 8), (''credit_mode_enable'', 1), (''credit_mode_enable_w1s'', 1),
     (''credit_mode_enable_w1c'', 1)]"

text \<open>Offsets of the members the driver touches, as pointer offsets.\<close>

definition ereg :: "string \<Rightarrow> u64" where
  "ereg f = of_nat (field_off engine_regs f)"

definition sgreg :: "string \<Rightarrow> u64" where
  "sgreg f = of_nat (field_off engine_sgdma_regs f)"

definition ireg :: "string \<Rightarrow> u64" where
  "ireg f = of_nat (field_off interrupt_regs f)"

definition creg :: "string \<Rightarrow> u64" where
  "creg f = of_nat (field_off config_regs f)"

definition screg :: "string \<Rightarrow> u64" where
  "screg f = of_nat (field_off sgdma_common_regs f)"

lemma ereg_offsets:
  "ereg ''identifier'' = 0x00" "ereg ''control'' = 0x04" "ereg ''control_w1s'' = 0x08"
  "ereg ''control_w1c'' = 0x0C" "ereg ''status'' = 0x40" "ereg ''status_rc'' = 0x44"
  "ereg ''completed_desc_count'' = 0x48" "ereg ''alignments'' = 0x4C"
  "ereg ''poll_mode_wb_lo'' = 0x88" "ereg ''poll_mode_wb_hi'' = 0x8C"
  "ereg ''interrupt_enable_mask'' = 0x90" "ereg ''interrupt_enable_mask_w1s'' = 0x94"
  "ereg ''interrupt_enable_mask_w1c'' = 0x98" "ereg ''perf_ctrl'' = 0xC0"
  "ereg ''perf_pnd_hi'' = 0xD8"
  by (simp_all add: ereg_def engine_regs_def)

lemma sgreg_offsets:
  "sgreg ''first_desc_lo'' = 0x80" "sgreg ''first_desc_hi'' = 0x84"
  "sgreg ''first_desc_adjacent'' = 0x88" "sgreg ''credits'' = 0x8C"
  by (simp_all add: sgreg_def engine_sgdma_regs_def)

lemma ireg_offsets:
  "ireg ''identifier'' = 0x00" "ireg ''user_int_enable_w1s'' = 0x08"
  "ireg ''user_int_enable_w1c'' = 0x0C" "ireg ''channel_int_enable_w1s'' = 0x14"
  "ireg ''channel_int_enable_w1c'' = 0x18" "ireg ''user_int_request'' = 0x40"
  "ireg ''channel_int_request'' = 0x44" "ireg ''channel_int_pending'' = 0x4C"
  "ireg ''user_msi_vector'' = 0x80" "ireg ''channel_msi_vector'' = 0xA0"
  by (simp_all add: ireg_def interrupt_regs_def)

section \<open>Constants\<close>

definition XDMA_OFS_INT_CTRL :: u64 where "XDMA_OFS_INT_CTRL = 0x2000"
definition XDMA_OFS_CONFIG :: u64 where "XDMA_OFS_CONFIG = 0x3000"
definition XDMA_ENGINE_XFER_MAX_DESC :: u32 where "XDMA_ENGINE_XFER_MAX_DESC = 0x800"
definition XDMA_ENGINE_CREDIT_XFER_MAX_DESC :: u32 where "XDMA_ENGINE_CREDIT_XFER_MAX_DESC = 0x3FF"
definition XDMA_DESC_BLEN_MAX :: u32 where "XDMA_DESC_BLEN_MAX = push_bit 28 1 - 1"
definition XDMA_BAR_NUM :: nat where "XDMA_BAR_NUM = 6"
definition XDMA_BAR_SIZE :: int where "XDMA_BAR_SIZE = 0x8000"
definition XDMA_CHANNEL_NUM_MAX :: nat where "XDMA_CHANNEL_NUM_MAX = 4"
definition MAX_USER_IRQ :: nat where "MAX_USER_IRQ = 16"
definition XDMA_MAX_ADJ_BLOCK_SIZE :: u32 where "XDMA_MAX_ADJ_BLOCK_SIZE = 0x40"
definition XDMA_PAGE_SIZE :: u32 where "XDMA_PAGE_SIZE = 0x1000"

text \<open>Bits of the SG DMA control register.\<close>

definition XDMA_CTRL_RUN_STOP :: u32 where "XDMA_CTRL_RUN_STOP = push_bit 0 1"
definition XDMA_CTRL_IE_DESC_STOPPED :: u32 where "XDMA_CTRL_IE_DESC_STOPPED = push_bit 1 1"
definition XDMA_CTRL_IE_DESC_COMPLETED :: u32 where "XDMA_CTRL_IE_DESC_COMPLETED = push_bit 2 1"
definition XDMA_CTRL_IE_DESC_ALIGN_MISMATCH :: u32
  where "XDMA_CTRL_IE_DESC_ALIGN_MISMATCH = push_bit 3 1"
definition XDMA_CTRL_IE_MAGIC_STOPPED :: u32 where "XDMA_CTRL_IE_MAGIC_STOPPED = push_bit 4 1"
definition XDMA_CTRL_IE_IDLE_STOPPED :: u32 where "XDMA_CTRL_IE_IDLE_STOPPED = push_bit 6 1"
definition XDMA_CTRL_IE_READ_ERROR :: u32 where "XDMA_CTRL_IE_READ_ERROR = push_bit 9 0x1F"
definition XDMA_CTRL_IE_DESC_ERROR :: u32 where "XDMA_CTRL_IE_DESC_ERROR = push_bit 19 0x1F"
definition XDMA_CTRL_NON_INCR_ADDR :: u32 where "XDMA_CTRL_NON_INCR_ADDR = push_bit 25 1"
definition XDMA_CTRL_POLL_MODE_WB :: u32 where "XDMA_CTRL_POLL_MODE_WB = push_bit 26 1"

lemmas xdma_ctrl_defs =
  XDMA_CTRL_RUN_STOP_def XDMA_CTRL_IE_DESC_STOPPED_def XDMA_CTRL_IE_DESC_COMPLETED_def
  XDMA_CTRL_IE_DESC_ALIGN_MISMATCH_def XDMA_CTRL_IE_MAGIC_STOPPED_def
  XDMA_CTRL_IE_IDLE_STOPPED_def XDMA_CTRL_IE_READ_ERROR_def XDMA_CTRL_IE_DESC_ERROR_def
  XDMA_CTRL_NON_INCR_ADDR_def XDMA_CTRL_POLL_MODE_WB_def

text \<open>Bits of the SG DMA status register and the error masks built from them.\<close>

definition XDMA_STAT_BUSY :: u32 where "XDMA_STAT_BUSY = push_bit 0 1"
definition XDMA_STAT_DESC_STOPPED :: u32 where "XDMA_STAT_DESC_STOPPED = push_bit 1 1"
definition XDMA_STAT_DESC_COMPLETED :: u32 where "XDMA_STAT_DESC_COMPLETED = push_bit 2 1"
definition XDMA_STAT_ALIGN_MISMATCH :: u32 where "XDMA_STAT_ALIGN_MISMATCH = push_bit 3 1"
definition XDMA_STAT_MAGIC_STOPPED :: u32 where "XDMA_STAT_MAGIC_STOPPED = push_bit 4 1"
definition XDMA_STAT_INVALID_LEN :: u32 where "XDMA_STAT_INVALID_LEN = push_bit 5 1"
definition XDMA_STAT_COMMON_ERR_MASK :: u32 where
  "XDMA_STAT_COMMON_ERR_MASK =
     XDMA_STAT_ALIGN_MISMATCH OR XDMA_STAT_MAGIC_STOPPED OR XDMA_STAT_INVALID_LEN"
definition XDMA_STAT_DESC_ERR_MASK :: u32 where
  "XDMA_STAT_DESC_ERR_MASK =
     push_bit 19 1 OR push_bit 20 1 OR push_bit 21 1 OR push_bit 22 1 OR push_bit 23 1"
definition XDMA_STAT_H2C_R_ERR_MASK :: u32 where
  "XDMA_STAT_H2C_R_ERR_MASK =
     push_bit 9 1 OR push_bit 10 1 OR push_bit 11 1 OR push_bit 12 1 OR push_bit 13 1"
definition XDMA_STAT_H2C_W_ERR_MASK :: u32 where
  "XDMA_STAT_H2C_W_ERR_MASK = push_bit 14 1 OR push_bit 15 1"
definition XDMA_STAT_C2H_R_ERR_MASK :: u32 where
  "XDMA_STAT_C2H_R_ERR_MASK = push_bit 9 1 OR push_bit 10 1"
definition XDMA_STAT_H2C_ERR_MASK :: u32 where
  "XDMA_STAT_H2C_ERR_MASK =
     XDMA_STAT_COMMON_ERR_MASK OR XDMA_STAT_DESC_ERR_MASK OR
     XDMA_STAT_H2C_R_ERR_MASK OR XDMA_STAT_H2C_W_ERR_MASK"
definition XDMA_STAT_C2H_ERR_MASK :: u32 where
  "XDMA_STAT_C2H_ERR_MASK =
     XDMA_STAT_COMMON_ERR_MASK OR XDMA_STAT_DESC_ERR_MASK OR XDMA_STAT_C2H_R_ERR_MASK"

lemmas xdma_stat_defs =
  XDMA_STAT_BUSY_def XDMA_STAT_DESC_STOPPED_def XDMA_STAT_DESC_COMPLETED_def
  XDMA_STAT_ALIGN_MISMATCH_def XDMA_STAT_MAGIC_STOPPED_def XDMA_STAT_INVALID_LEN_def
  XDMA_STAT_COMMON_ERR_MASK_def XDMA_STAT_DESC_ERR_MASK_def XDMA_STAT_H2C_R_ERR_MASK_def
  XDMA_STAT_H2C_W_ERR_MASK_def XDMA_STAT_C2H_R_ERR_MASK_def XDMA_STAT_H2C_ERR_MASK_def
  XDMA_STAT_C2H_ERR_MASK_def

text \<open>Descriptor control bits, identifiers, magic numbers and spacings.\<close>

definition XDMA_DESC_STOPPED :: u32 where "XDMA_DESC_STOPPED = push_bit 0 1"
definition XDMA_DESC_COMPLETED :: u32 where "XDMA_DESC_COMPLETED = push_bit 1 1"
definition XDMA_DESC_EOP :: u32 where "XDMA_DESC_EOP = push_bit 4 1"
definition XDMA_PERF_RUN :: u32 where "XDMA_PERF_RUN = push_bit 0 1"
definition XDMA_PERF_CLEAR :: u32 where "XDMA_PERF_CLEAR = push_bit 1 1"
definition XDMA_PERF_AUTO :: u32 where "XDMA_PERF_AUTO = push_bit 2 1"
definition MAGIC_ENGINE :: u64 where "MAGIC_ENGINE = 0xEEEEEEEE"
definition MAGIC_DEVICE :: u64 where "MAGIC_DEVICE = 0xDDDDDDDD"
definition MAGIC_CHAR :: u64 where "MAGIC_CHAR = 0xCCCCCCCC"
definition XDMA_ID_H2C :: u32 where "XDMA_ID_H2C = 0x1fc0"
definition XDMA_ID_C2H :: u32 where "XDMA_ID_C2H = 0x1fc1"
definition LS_BYTE_MASK :: u32 where "LS_BYTE_MASK = 0xFF"
definition BLOCK_ID_MASK :: u32 where "BLOCK_ID_MASK = 0xFFF00000"
definition BLOCK_ID_HEAD :: u32 where "BLOCK_ID_HEAD = 0x1FC00000"
definition IRQ_BLOCK_ID :: u32 where "IRQ_BLOCK_ID = 0x1fc20000"
definition CONFIG_BLOCK_ID :: u32 where "CONFIG_BLOCK_ID = 0x1fc30000"
definition WB_COUNT_MASK :: u32 where "WB_COUNT_MASK = 0x00ffffff"
definition WB_ERR_MASK :: u32 where "WB_ERR_MASK = push_bit 31 1"
definition DESC_MAGIC :: u32 where "DESC_MAGIC = 0xAD4B0000"
definition RX_STATUS_EOP :: u32 where "RX_STATUS_EOP = 1"
definition H2C_CHANNEL_OFFSET :: u64 where "H2C_CHANNEL_OFFSET = 0x1000"
definition SGDMA_OFFSET_FROM_CHANNEL :: u64 where "SGDMA_OFFSET_FROM_CHANNEL = 0x4000"
definition CHANNEL_SPACING :: u64 where "CHANNEL_SPACING = 0x100"
definition TARGET_SPACING :: u64 where "TARGET_SPACING = 0x1000"
definition BYPASS_MODE_SPACING :: u32 where "BYPASS_MODE_SPACING = 0x0100"
definition XFER_FLAG_NEED_UNMAP :: u32 where "XFER_FLAG_NEED_UNMAP = 0x1"
definition XFER_FLAG_ST_C2H_EOP_RCVED :: u32 where "XFER_FLAG_ST_C2H_EOP_RCVED = 0x2"
definition XDEV_FLAG_OFFLINE :: u32 where "XDEV_FLAG_OFFLINE = 0x1"
definition ENGINE_SHUTDOWN_NONE :: u32 where "ENGINE_SHUTDOWN_NONE = 0"
definition ENGINE_SHUTDOWN_REQUEST :: u32 where "ENGINE_SHUTDOWN_REQUEST = 1"
definition ENGINE_SHUTDOWN_IDLE :: u32 where "ENGINE_SHUTDOWN_IDLE = 2"

text \<open>
  The 32 most and least significant bits of a bus address.  On the little-endian hosts the driver
  runs on \<open>cpu_to_le32\<close> and \<open>le32_to_cpu\<close> are the identity.
\<close>

definition PCI_DMA_H :: "u64 \<Rightarrow> u32" where
  "PCI_DMA_H addr = ucast (drop_bit 16 (drop_bit 16 addr))"

definition PCI_DMA_L :: "u64 \<Rightarrow> u32" where
  "PCI_DMA_L addr = ucast (addr AND 0xffffffff)"

text \<open>The address a device reassembles from the two halves.\<close>

definition dma_addr :: "u32 \<Rightarrow> u32 \<Rightarrow> u64" where
  "dma_addr hi lo = push_bit 32 (ucast hi) OR ucast lo"

lemma mask32_num: "(0xffffffff :: u64) = mask 32"
  by (simp add: mask_eq_exp_minus_1)

lemma PCI_DMA_L_ucast: "PCI_DMA_L a = ucast a"
  by (rule bit_word_eqI) (simp add: PCI_DMA_L_def mask32_num bit_simps)

lemma dma_addr_split [simp]: "dma_addr (PCI_DMA_H a) (PCI_DMA_L a) = a"
  by (rule bit_word_eqI) (auto simp: dma_addr_def PCI_DMA_H_def PCI_DMA_L_ucast bit_simps
      dest: bit_imp_le_length)

lemma dma_addr_zero [simp]: "dma_addr 0 0 = 0"
  by (simp add: dma_addr_def)

end
