(* ===== verification/Xdma_State.thy ===== *)
theory Xdma_State
  imports Xdma_Regs
begin

text \<open>
  The driver's data structures (\<open>libxdma.h\<close>, \<open>xdma_thread.h\<close>) as records, the world state they
  live in, the environment (hardware and kernel services) as a parameter, and the accessors
  through which every component reads and writes them.

  Everything the driver does to the outside world (MMIO, DMA memory, wake-ups, interrupt and
  memory management calls) is appended to a trace.  Everything the outside world answers is a
  function of that trace, so the environment may answer differently at every call.
\<close>

section \<open>Enumerations\<close>

datatype transfer_state = TRANSFER_STATE_NEW | TRANSFER_STATE_SUBMITTED
  | TRANSFER_STATE_COMPLETED | TRANSFER_STATE_FAILED | TRANSFER_STATE_ABORTED

datatype dma_data_direction = DMA_BIDIRECTIONAL | DMA_TO_DEVICE | DMA_FROM_DEVICE | DMA_NONE

text \<open>The numeric order of the C enumerators.\<close>

fun transfer_state_code :: "transfer_state \<Rightarrow> nat" where
  "transfer_state_code TRANSFER_STATE_NEW = 0"
| "transfer_state_code TRANSFER_STATE_SUBMITTED = 1"
| "transfer_state_code TRANSFER_STATE_COMPLETED = 2"
| "transfer_state_code TRANSFER_STATE_FAILED = 3"
| "transfer_state_code TRANSFER_STATE_ABORTED = 4"

lemma transfer_state_code_inj: "transfer_state_code a = transfer_state_code b \<Longrightarrow> a = b"
  by (cases a; cases b) auto

instantiation transfer_state :: linorder
begin

definition less_eq_transfer_state :: "transfer_state \<Rightarrow> transfer_state \<Rightarrow> bool" where
  "less_eq_transfer_state a b \<longleftrightarrow> transfer_state_code a \<le> transfer_state_code b"

definition less_transfer_state :: "transfer_state \<Rightarrow> transfer_state \<Rightarrow> bool" where
  "less_transfer_state a b \<longleftrightarrow> transfer_state_code a < transfer_state_code b"

instance
  by standard (auto simp: less_eq_transfer_state_def less_transfer_state_def
      dest: transfer_state_code_inj)

end

section \<open>Structures\<close>

record xdma_desc =
  control :: u32
  bytes :: u32
  src_addr_lo :: u32
  src_addr_hi :: u32
  dst_addr_lo :: u32
  dst_addr_hi :: u32
  next_lo :: u32
  next_hi :: u32

definition desc_zero :: xdma_desc where
  "desc_zero = \<lparr>control = 0, bytes = 0, src_addr_lo = 0, src_addr_hi = 0, dst_addr_lo = 0,
     dst_addr_hi = 0, next_lo = 0, next_hi = 0\<rparr>"

record sw_desc =
  sd_addr :: u64
  sd_len :: u32

text \<open>
  References stand for the C pointers: an engine is a slot of one of the two arrays of its device,
  a transfer is a member of \<open>req->tfer[]\<close> of a request (or a transfer allocated on its own,
  index 0), an I/O control block is named by a number.
\<close>

datatype eref = H2C nat | C2H nat
type_synonym xref = "nat \<times> nat"
type_synonym cbref = nat

text \<open>
  \<open>desc_virt\<close> points into the descriptor pool of the engine, so it is kept as the index of the
  descriptor; \<open>res_virt\<close> is an address of DMA memory.
\<close>

record xdma_transfer =
  desc_virt :: nat
  res_virt :: u64
  res_bus :: u64
  xdesc_bus :: u64
  desc_adjacent :: int
  desc_num :: int
  desc_index :: int
  desc_cmpl :: int
  desc_cmpl_th :: int
  xdir :: dma_data_direction
  xstate :: transfer_state
  xflags :: u32
  cyclic :: bool
  last_in_request :: bool
  xlen :: u32
  xcb :: "cbref option"

definition transfer_zero :: xdma_transfer where
  "transfer_zero = \<lparr>desc_virt = 0, res_virt = 0, res_bus = 0, xdesc_bus = 0, desc_adjacent = 0,
     desc_num = 0, desc_index = 0, desc_cmpl = 0, desc_cmpl_th = 0, xdir = DMA_BIDIRECTIONAL,
     xstate = TRANSFER_STATE_NEW, xflags = 0, cyclic = False, last_in_request = False,
     xlen = 0, xcb = None\<rparr>"

record xdma_performance_ioctl =
  perf_version :: u32
  transfer_size :: u32
  perf_stopped :: u32
  iterations :: u32
  clock_cycle_count :: u64
  data_cycle_count :: u64
  pending_count :: u64

text \<open>
  An engine.  A pointer to coherent memory is its address, \<open>0\<close> for NULL; the descriptors
  themselves, which only the driver writes, are in \<open>desc_mem\<close>.  Bit fields of width one are
  booleans.  Locks and wait-queue heads carry no data and have no field.
\<close>

record xdma_engine =
  emagic :: u64
  ename :: string
  regs :: u64
  sgdma_regs :: u64
  bypass_offset :: u32
  shutdown :: u32
  edir :: dma_data_direction
  addr_align :: u8
  len_granularity :: u8
  addr_bits :: u8
  channel :: nat
  streaming :: bool
  device_open :: bool
  running :: bool
  non_incr_addr :: bool
  eop_flush :: bool
  desc_dequeued :: int
  desc_max :: u32
  status :: u32
  interrupt_enable_mask_value :: u32
  transfer_list :: "xref list"
  cyclic_result :: u64
  cyclic_result_bus :: u64
  perf_buf_virt :: u64
  perf_buf_bus :: u64
  poll_mode_addr_virt :: u64
  poll_mode_bus :: u64
  msix_irq_line :: int
  irq_bitmask :: u32
  desc :: u64
  desc_bus :: u64
  desc_mem :: "nat \<Rightarrow> xdma_desc"
  desc_idx :: int
  desc_used :: int
  xdma_perf :: "xdma_performance_ioctl option"
  cmplthp :: "nat option"
  intr_work_cpu :: nat

definition engine_zero :: xdma_engine where
  "engine_zero = \<lparr>emagic = 0, ename = [], regs = 0, sgdma_regs = 0, bypass_offset = 0, shutdown = 0,
     edir = DMA_BIDIRECTIONAL, addr_align = 0, len_granularity = 0, addr_bits = 0, channel = 0,
     streaming = False, device_open = False, running = False, non_incr_addr = False,
     eop_flush = False, desc_dequeued = 0, desc_max = 0, status = 0,
     interrupt_enable_mask_value = 0, transfer_list = [], cyclic_result = 0,
     cyclic_result_bus = 0, perf_buf_virt = 0, perf_buf_bus = 0, poll_mode_addr_virt = 0,
     poll_mode_bus = 0, msix_irq_line = 0, irq_bitmask = 0, desc = 0, desc_bus = 0,
     desc_mem = (\<lambda>_. desc_zero), desc_idx = 0, desc_used = 0, xdma_perf = None,
     cmplthp = None, intr_work_cpu = 0\<rparr>"

text \<open>The test \<open>engine->streaming && engine->dir == DMA_FROM_DEVICE\<close> the code repeats.\<close>

definition c2h_st :: "xdma_engine \<Rightarrow> bool" where
  "c2h_st g \<longleftrightarrow> streaming g \<and> edir g = DMA_FROM_DEVICE"

lemma c2h_st_update [simp]:
  "c2h_st (g\<lparr>desc_mem := m\<rparr>) = c2h_st g" "c2h_st (g\<lparr>transfer_list := l\<rparr>) = c2h_st g"
  "c2h_st (g\<lparr>running := b\<rparr>) = c2h_st g" "c2h_st (g\<lparr>status := v\<rparr>) = c2h_st g"
  "c2h_st (g\<lparr>desc_dequeued := i\<rparr>) = c2h_st g" "c2h_st (g\<lparr>shutdown := v\<rparr>) = c2h_st g"
  "c2h_st (g\<lparr>desc_idx := i\<rparr>) = c2h_st g" "c2h_st (g\<lparr>desc_used := i\<rparr>) = c2h_st g"
  by (simp_all add: c2h_st_def)

record xdma_user_irq =
  user_idx :: nat
  events_irq :: u8
  handler :: "nat option"
  irq_dev :: nat

record xdma_dev =
  self :: nat
  xmagic :: u64
  pdev :: nat
  idx :: int
  dflags :: u32
  bar :: "nat \<Rightarrow> u64"
  user_bar_idx :: int
  config_bar_idx :: int
  bypass_bar_idx :: int
  regions_in_use :: bool
  got_regions :: bool
  user_max :: nat
  c2h_channel_max :: nat
  h2c_channel_max :: nat
  irq_count :: int
  irq_line :: int
  msi_enabled :: bool
  msix_enabled :: bool
  user_irq :: "nat \<Rightarrow> xdma_user_irq"
  mask_irq_user :: u32
  engines_num :: nat
  mask_irq_h2c :: u32
  mask_irq_c2h :: u32
  engine_h2c :: "nat \<Rightarrow> xdma_engine"
  engine_c2h :: "nat \<Rightarrow> xdma_engine"

record xdma_kthread =
  tcpu :: int
  tid :: nat
  work_cnt :: nat
  work_list :: "eref list"
  sched_flag :: bool
  task_up :: bool

section \<open>The world\<close>

datatype event =
    IoRead u64 u32 | IoWrite u64 u32
  | MemRead u64 u32 | MemWrite u64 u32 | MemZero u64 nat
  | WakeXfer xref | WakeShutdown eref | WakePerf eref | WakeEvents nat | WakeThread nat
  | UserHandler nat nat | ScheduleWork eref
  | KAlloc nat | KFree nat
  | Kernel string "int list" int

record world =
  xdev :: xdma_dev
  xfers :: "xref \<Rightarrow> xdma_transfer"
  threads :: "xdma_kthread list"
  xdev_list :: "(nat \<times> nat \<times> int) list"
  trace :: "event list"

text \<open>
  \<open>xdev\<close> is the device the operation is about; \<open>xdev_list\<close> is the driver's global list, with the PCI
  function, the address (\<open>self\<close>) and the index of every registered device.
\<close>

text \<open>
  The environment: the module parameters, the hardware registers and the DMA memory the device
  writes, each a function of everything that happened before the read, the kernel services the
  driver calls (by name and arguments, with the integer they return), the clock test of the polling
  loop, the number of interrupt services that run while a task sleeps, and the completion callback
  \<open>cb->io_done\<close> of asynchronous transfers.
\<close>

record env =
  poll_mode :: u32
  interrupt_mode :: u32
  enable_st_c2h_credit :: u32
  desc_blen_max :: u32
  ioread32 :: "event list \<Rightarrow> u64 \<Rightarrow> u32"
  dma_mem :: "event list \<Rightarrow> u64 \<Rightarrow> u32"
  kzalloc :: "event list \<Rightarrow> bool"
  vmalloc :: "event list \<Rightarrow> bool"
  kernel :: "event list \<Rightarrow> string \<Rightarrow> int list \<Rightarrow> int"
  time_after :: "event list \<Rightarrow> bool"
  services :: "event list \<Rightarrow> nat"
  io_done :: "cbref \<Rightarrow> errno option \<Rightarrow> world \<Rightarrow> world"

text \<open>A concrete quiet environment and a zeroed world, the base of the witnesses.\<close>

definition env0 :: env where
  "env0 = \<lparr>poll_mode = 0, interrupt_mode = 0, enable_st_c2h_credit = 0,
     desc_blen_max = 0x0FFFFFFF, ioread32 = (\<lambda>_ _. 0), dma_mem = (\<lambda>_ _. 0),
     kzalloc = (\<lambda>_. True), vmalloc = (\<lambda>_. True), kernel = (\<lambda>_ _ _. 0),
     time_after = (\<lambda>_. True), services = (\<lambda>_. 1), io_done = (\<lambda>_ _ s. s)\<rparr>"

definition xdev0 :: xdma_dev where
  "xdev0 = \<lparr>self = 1, xmagic = MAGIC_DEVICE, pdev = 1, idx = 0, dflags = 0, bar = (\<lambda>_. 0), user_bar_idx = -1,
     config_bar_idx = -1, bypass_bar_idx = -1, regions_in_use = False, got_regions = False,
     user_max = 16, c2h_channel_max = 4, h2c_channel_max = 4, irq_count = 0, irq_line = -1,
     msi_enabled = False, msix_enabled = False,
     user_irq = (\<lambda>i. \<lparr>user_idx = i, events_irq = 0, handler = None, irq_dev = 0\<rparr>),
     mask_irq_user = 0, engines_num = 0, mask_irq_h2c = 0, mask_irq_c2h = 0,
     engine_h2c = (\<lambda>_. engine_zero), engine_c2h = (\<lambda>_. engine_zero)\<rparr>"

definition world0 :: world where
  "world0 = \<lparr>xdev = xdev0, xfers = (\<lambda>_. transfer_zero), threads = [], xdev_list = [], trace = []\<rparr>"

section \<open>Accessors\<close>

definition emit :: "event \<Rightarrow> world \<Rightarrow> world" where
  "emit ev s = s\<lparr>trace := trace s @ [ev]\<rparr>"

definition read_register :: "env \<Rightarrow> u64 \<Rightarrow> world \<Rightarrow> u32 \<times> world" where
  "read_register E iomem s = (let v = ioread32 E (trace s) iomem in (v, emit (IoRead iomem v) s))"

definition write_register :: "u32 \<Rightarrow> u64 \<Rightarrow> world \<Rightarrow> world" where
  "write_register v iomem s = emit (IoWrite iomem v) s"

definition mem_read :: "env \<Rightarrow> u64 \<Rightarrow> world \<Rightarrow> u32 \<times> world" where
  "mem_read E p s = (let v = dma_mem E (trace s) p in (v, emit (MemRead p v) s))"

definition mem_write :: "u32 \<Rightarrow> u64 \<Rightarrow> world \<Rightarrow> world" where
  "mem_write v p s = emit (MemWrite p v) s"

definition kcall :: "env \<Rightarrow> string \<Rightarrow> int list \<Rightarrow> world \<Rightarrow> int \<times> world" where
  "kcall E f args s = (let r = kernel E (trace s) f args in (r, emit (Kernel f args r) s))"

fun get_eng :: "world \<Rightarrow> eref \<Rightarrow> xdma_engine" where
  "get_eng s (H2C i) = engine_h2c (xdev s) i"
| "get_eng s (C2H i) = engine_c2h (xdev s) i"

fun upd_eng :: "eref \<Rightarrow> (xdma_engine \<Rightarrow> xdma_engine) \<Rightarrow> world \<Rightarrow> world" where
  "upd_eng (H2C i) f s =
     s\<lparr>xdev := xdev s\<lparr>engine_h2c := (engine_h2c (xdev s))(i := f (engine_h2c (xdev s) i))\<rparr>\<rparr>"
| "upd_eng (C2H i) f s =
     s\<lparr>xdev := xdev s\<lparr>engine_c2h := (engine_c2h (xdev s))(i := f (engine_c2h (xdev s) i))\<rparr>\<rparr>"

definition get_xfer :: "world \<Rightarrow> xref \<Rightarrow> xdma_transfer" where
  "get_xfer s x = xfers s x"

definition upd_xfer :: "xref \<Rightarrow> (xdma_transfer \<Rightarrow> xdma_transfer) \<Rightarrow> world \<Rightarrow> world" where
  "upd_xfer x f s = s\<lparr>xfers := (xfers s)(x := f (xfers s x))\<rparr>"

lemma get_world_upd [simp]:
  "get_eng (s\<lparr>threads := l\<rparr>) e = get_eng s e" "get_eng (s\<lparr>xdev_list := d\<rparr>) e = get_eng s e"
  "get_xfer (s\<lparr>threads := l\<rparr>) x = get_xfer s x" "get_xfer (s\<lparr>xdev_list := d\<rparr>) x = get_xfer s x"
  by (cases e; simp add: get_xfer_def)+

text \<open>Both stores keep the reference-store contract.\<close>

interpretation eng: ref_store get_eng upd_eng
proof unfold_locales
  show "get_eng (upd_eng r f s) r' = (if r' = r then f (get_eng s r) else get_eng s r')"
    for r r' f s by (cases r; cases r') auto
  show "upd_eng r g (upd_eng r f s) = upd_eng r (g \<circ> f) s" for r f g s
    by (cases r) auto
  show "r \<noteq> r' \<Longrightarrow> upd_eng r f (upd_eng r' g s) = upd_eng r' g (upd_eng r f s)" for r r' f g s
    by (cases r; cases r') (auto simp: fun_upd_twist)
qed

interpretation xfer: ref_store get_xfer upd_xfer
  by unfold_locales (auto simp: get_xfer_def upd_xfer_def fun_upd_twist)

lemmas eng_store [simp] = eng.get_upd
lemmas xfer_store [simp] = xfer.get_upd

text \<open>What an accessor leaves alone.\<close>

lemma emit_frame [simp]:
  "xdev (emit ev s) = xdev s" "xfers (emit ev s) = xfers s" "threads (emit ev s) = threads s"
  "xdev_list (emit ev s) = xdev_list s"
  "trace (emit ev s) = trace s @ [ev]"
  "get_eng (emit ev s) e = get_eng s e" "get_xfer (emit ev s) x = get_xfer s x"
  by (cases e; simp add: emit_def get_xfer_def)+

lemma write_register_frame [simp]:
  "xdev (write_register v a s) = xdev s" "xfers (write_register v a s) = xfers s"
  "threads (write_register v a s) = threads s"
  "trace (write_register v a s) = trace s @ [IoWrite a v]"
  "get_eng (write_register v a s) e = get_eng s e"
  "get_xfer (write_register v a s) x = get_xfer s x"
  by (simp_all add: write_register_def)

lemma mem_write_frame [simp]:
  "xdev (mem_write v a s) = xdev s" "xfers (mem_write v a s) = xfers s"
  "threads (mem_write v a s) = threads s"
  "trace (mem_write v a s) = trace s @ [MemWrite a v]"
  "get_eng (mem_write v a s) e = get_eng s e" "get_xfer (mem_write v a s) x = get_xfer s x"
  by (simp_all add: mem_write_def)

lemma read_register_frame [simp]:
  "fst (read_register E a s) = ioread32 E (trace s) a"
  "snd (read_register E a s) = emit (IoRead a (ioread32 E (trace s) a)) s"
  by (simp_all add: read_register_def Let_def)

lemma mem_read_frame [simp]:
  "fst (mem_read E a s) = dma_mem E (trace s) a"
  "snd (mem_read E a s) = emit (MemRead a (dma_mem E (trace s) a)) s"
  by (simp_all add: mem_read_def Let_def)

lemma kcall_frame [simp]:
  "fst (kcall E f as s) = kernel E (trace s) f as"
  "snd (kcall E f as s) = emit (Kernel f as (kernel E (trace s) f as)) s"
  by (simp_all add: kcall_def Let_def)

lemma upd_eng_frame [simp]:
  "xfers (upd_eng e f s) = xfers s" "threads (upd_eng e f s) = threads s"
  "trace (upd_eng e f s) = trace s" "get_xfer (upd_eng e f s) x = get_xfer s x"
  "xdev_list (upd_eng e f s) = xdev_list s"
  by (cases e; simp add: get_xfer_def)+

lemma upd_xfer_frame [simp]:
  "xdev (upd_xfer x f s) = xdev s" "threads (upd_xfer x f s) = threads s"
  "trace (upd_xfer x f s) = trace s" "get_eng (upd_xfer x f s) e = get_eng s e"
  "xdev_list (upd_xfer x f s) = xdev_list s"
  by (cases e; simp add: upd_xfer_def)+

lemma xfers_upd_xfer [simp]: "xfers (upd_xfer x f s) = (xfers s)(x := f (xfers s x))"
  by (simp add: upd_xfer_def)

lemma xdev_upd_eng [simp]:
  "dflags (xdev (upd_eng e f s)) = dflags (xdev s)"
  "pdev (xdev (upd_eng e f s)) = pdev (xdev s)" "self (xdev (upd_eng e f s)) = self (xdev s)"
  "xmagic (xdev (upd_eng e f s)) = xmagic (xdev s)"
  "bar (xdev (upd_eng e f s)) = bar (xdev s)"
  "config_bar_idx (xdev (upd_eng e f s)) = config_bar_idx (xdev s)"
  "msix_enabled (xdev (upd_eng e f s)) = msix_enabled (xdev s)"
  "msi_enabled (xdev (upd_eng e f s)) = msi_enabled (xdev s)"
  "user_max (xdev (upd_eng e f s)) = user_max (xdev s)"
  "user_irq (xdev (upd_eng e f s)) = user_irq (xdev s)"
  "h2c_channel_max (xdev (upd_eng e f s)) = h2c_channel_max (xdev s)"
  "c2h_channel_max (xdev (upd_eng e f s)) = c2h_channel_max (xdev s)"
  "engines_num (xdev (upd_eng e f s)) = engines_num (xdev s)"
  "mask_irq_h2c (xdev (upd_eng e f s)) = mask_irq_h2c (xdev s)"
  "mask_irq_c2h (xdev (upd_eng e f s)) = mask_irq_c2h (xdev s)"
  "mask_irq_user (xdev (upd_eng e f s)) = mask_irq_user (xdev s)"
  by (cases e; simp)+

lemma world0_simps [simp]:
  "get_eng world0 e = engine_zero" "get_xfer world0 x = transfer_zero" "trace world0 = []"
  "threads world0 = []" "xdev world0 = xdev0" "xfers world0 = (\<lambda>_. transfer_zero)"
  by (cases e; simp add: world0_def xdev0_def get_xfer_def)+

declare get_eng.simps [simp del] upd_eng.simps [simp del]

section \<open>Device flags\<close>

definition upd_xdev :: "(xdma_dev \<Rightarrow> xdma_dev) \<Rightarrow> world \<Rightarrow> world" where
  "upd_xdev f s = s\<lparr>xdev := f (xdev s)\<rparr>"

definition xdma_device_flag_check :: "world \<Rightarrow> u32 \<Rightarrow> bool" where
  "xdma_device_flag_check s f \<longleftrightarrow> dflags (xdev s) AND f \<noteq> 0"

definition xdma_device_flag_set :: "u32 \<Rightarrow> world \<Rightarrow> world" where
  "xdma_device_flag_set f s = upd_xdev (\<lambda>d. d\<lparr>dflags := dflags d OR f\<rparr>) s"

definition xdma_device_flag_clear :: "u32 \<Rightarrow> world \<Rightarrow> world" where
  "xdma_device_flag_clear f s = upd_xdev (\<lambda>d. d\<lparr>dflags := dflags d AND NOT f\<rparr>) s"

lemma upd_xdev_frame [simp]:
  "xdev (upd_xdev f s) = f (xdev s)" "xfers (upd_xdev f s) = xfers s"
  "xdev_list (upd_xdev f s) = xdev_list s"
  "trace (upd_xdev f s) = trace s" "threads (upd_xdev f s) = threads s"
  "get_xfer (upd_xdev f s) x = get_xfer s x"
  by (simp_all add: upd_xdev_def get_xfer_def)

lemma flag_check_set: "f \<noteq> 0 \<Longrightarrow> xdma_device_flag_check (xdma_device_flag_set f s) f"
  by (simp add: xdma_device_flag_check_def xdma_device_flag_set_def word_bw_lcs word_ao_dist)

lemma flag_check_clear: "\<not> xdma_device_flag_check (xdma_device_flag_clear f s) f"
  by (simp add: xdma_device_flag_check_def xdma_device_flag_clear_def and.assoc)


section \<open>Accounts\<close>

text \<open>
  What is held of a resource after a run, by what each event adds to the account: the specification
  side of requesting and releasing, used for interrupt lines and coherent memory.
\<close>

definition balance :: "(event \<Rightarrow> int) \<Rightarrow> world \<Rightarrow> int" where
  "balance d s = sum_list (map d (trace s))"

lemma balance_frame [simp]:
  "balance d (emit ev s) = balance d s + d ev" "balance d (upd_eng e f s) = balance d s"
  "balance d (upd_xfer x h s) = balance d s" "balance d (upd_xdev g s) = balance d s"
  by (simp_all add: balance_def)

end
