(* ===== verification/Descriptors.thy ===== *)
theory Descriptors
  imports Xdma_State
begin

text \<open>
  The SG DMA descriptors of \<open>libxdma.c\<close>: chaining (\<open>transfer_desc_init\<close>, \<open>xdma_desc_link\<close>), the
  packed control word (\<open>xdma_desc_adjacent\<close>, \<open>xdma_desc_control_set\<close>), the address fields
  (\<open>xdma_desc_set\<close>) and the prefetch count (\<open>xdma_get_next_adj\<close>).  The descriptor pool of an
  engine is a map from indices to descriptors; a C pointer \<open>desc_virt + i\<close> is the index
  \<open>dv + i\<close>, so a write outside the pool would show as a change of that map.
\<close>

type_synonym desc_pool = "nat \<Rightarrow> xdma_desc"

section \<open>Operations\<close>

definition xdma_get_next_adj :: "u32 \<Rightarrow> u32 \<Rightarrow> u32" where
  "xdma_get_next_adj remaining nlo =
     (if remaining \<le> 1 then 0
      else let next_index = drop_bit 5 (nlo AND (XDMA_PAGE_SIZE - 1)) mod XDMA_MAX_ADJ_BLOCK_SIZE
           in min (XDMA_MAX_ADJ_BLOCK_SIZE - next_index - 1) (remaining - 1))"

definition desc_init_step :: "nat \<Rightarrow> nat \<Rightarrow> u64 \<times> desc_pool \<Rightarrow> u64 \<times> desc_pool" where
  "desc_init_step dv i = (\<lambda>(bus, m).
     let bus = bus + 32
     in (bus, m(dv + i := (m (dv + i))\<lparr>next_lo := PCI_DMA_L bus, next_hi := PCI_DMA_H bus,
                                      bytes := 0, control := DESC_MAGIC\<rparr>)))"

definition transfer_desc_init :: "nat \<Rightarrow> u64 \<Rightarrow> nat \<Rightarrow> desc_pool \<Rightarrow> desc_pool" where
  "transfer_desc_init dv dbus count m =
     (let m = snd (fold (desc_init_step dv) [0..<count - 1] (dbus, m)); i = count - 1
      in m(dv + i := (m (dv + i))\<lparr>next_lo := 0, next_hi := 0, bytes := 0, control := DESC_MAGIC\<rparr>))"

definition xdma_desc_link :: "xdma_desc \<Rightarrow> u64 option \<Rightarrow> xdma_desc" where
  "xdma_desc_link first second =
     (let ctl = control first AND 0x00FFC0ff;
          first = (case second of
                     Some second_bus \<Rightarrow> first\<lparr>next_lo := PCI_DMA_L second_bus,
                                             next_hi := PCI_DMA_H second_bus\<rparr>
                   | None \<Rightarrow> first\<lparr>next_lo := 0, next_hi := 0\<rparr>)
      in first\<lparr>control := ctl OR DESC_MAGIC\<rparr>)"

definition xdma_desc_adjacent :: "xdma_desc \<Rightarrow> u32 \<Rightarrow> xdma_desc" where
  "xdma_desc_adjacent d next_adjacent =
     (let ctl = control d AND 0x0000f0ff
      in d\<lparr>control := ctl OR (0xAD4B0000 OR push_bit 8 next_adjacent)\<rparr>)"

definition xdma_desc_control_set :: "xdma_desc \<Rightarrow> u32 \<Rightarrow> unit res \<times> xdma_desc" where
  "xdma_desc_control_set first control_field =
     (let ctl = control first AND NOT LS_BYTE_MASK
      in if control_field AND NOT LS_BYTE_MASK \<noteq> 0 then (Inl EINVAL, first)
         else (Inr (), first\<lparr>control := ctl OR control_field\<rparr>))"

definition xdma_desc_done :: "nat \<Rightarrow> nat \<Rightarrow> desc_pool \<Rightarrow> desc_pool" where
  "xdma_desc_done dv count m = (\<lambda>i. if dv \<le> i \<and> i < dv + count then desc_zero else m i)"

definition xdma_desc_set ::
  "xdma_desc \<Rightarrow> u64 \<Rightarrow> u64 \<Rightarrow> u32 \<Rightarrow> dma_data_direction \<Rightarrow> xdma_desc" where
  "xdma_desc_set d rc_bus_addr ep_addr len dir =
     (let d = d\<lparr>bytes := len\<rparr>
      in if dir = DMA_TO_DEVICE
         then d\<lparr>src_addr_lo := PCI_DMA_L rc_bus_addr, src_addr_hi := PCI_DMA_H rc_bus_addr,
                dst_addr_lo := PCI_DMA_L ep_addr, dst_addr_hi := PCI_DMA_H ep_addr\<rparr>
         else d\<lparr>src_addr_lo := PCI_DMA_L ep_addr, src_addr_hi := PCI_DMA_H ep_addr,
                dst_addr_lo := PCI_DMA_L rc_bus_addr, dst_addr_hi := PCI_DMA_H rc_bus_addr\<rparr>)"

section \<open>What the device reads from a descriptor\<close>

definition desc_src :: "xdma_desc \<Rightarrow> u64" where
  "desc_src d = dma_addr (src_addr_hi d) (src_addr_lo d)"

definition desc_dst :: "xdma_desc \<Rightarrow> u64" where
  "desc_dst d = dma_addr (dst_addr_hi d) (dst_addr_lo d)"

definition desc_next :: "xdma_desc \<Rightarrow> u64" where
  "desc_next d = dma_addr (next_hi d) (next_lo d)"

definition ctl_magic :: "xdma_desc \<Rightarrow> u32" where
  "ctl_magic d = drop_bit 16 (control d)"

definition ctl_adjacent :: "xdma_desc \<Rightarrow> u32" where
  "ctl_adjacent d = drop_bit 8 (control d) AND 0x3F"

definition ctl_bits :: "xdma_desc \<Rightarrow> u32" where
  "ctl_bits d = control d AND 0xFF"

lemmas desc_views = desc_src_def desc_dst_def desc_next_def ctl_magic_def ctl_adjacent_def
  ctl_bits_def

section \<open>Chaining\<close>

lemma fold_desc_init_step:
  "fold (desc_init_step dv) [0..<n] (b, m) =
     (b + 32 * of_nat n,
      \<lambda>k. if dv \<le> k \<and> k < dv + n
          then (m k)\<lparr>next_lo := PCI_DMA_L (b + 32 * of_nat (k - dv + 1)),
                     next_hi := PCI_DMA_H (b + 32 * of_nat (k - dv + 1)),
                     bytes := 0, control := DESC_MAGIC\<rparr>
          else m k)"
proof (induction n)
  case 0
  then show ?case by (auto simp: fun_eq_iff)
next
  case (Suc n)
  then show ?case
    by (auto simp: desc_init_step_def Let_def fun_eq_iff algebra_simps)
qed

lemma transfer_desc_init_outside:
  "k < dv \<or> dv + max 1 count \<le> k \<Longrightarrow> transfer_desc_init dv b count m k = m k"
  by (cases count) (auto simp: transfer_desc_init_def Let_def fold_desc_init_step)

lemma transfer_desc_init_inside:
  assumes "i < count"
  shows "transfer_desc_init dv b count m (dv + i) =
    (m (dv + i))\<lparr>next_lo := PCI_DMA_L (if Suc i < count then b + 32 * of_nat (Suc i) else 0),
                 next_hi := PCI_DMA_H (if Suc i < count then b + 32 * of_nat (Suc i) else 0),
                 bytes := 0, control := DESC_MAGIC\<rparr>"
  using assms
  by (auto simp: transfer_desc_init_def Let_def fold_desc_init_step PCI_DMA_L_def PCI_DMA_H_def
      not_less_eq less_Suc_eq_le Suc_lessI)

text \<open>After \<open>transfer_desc_init\<close> the \<open>count\<close> descriptors form a singly linked list in bus
  address order: descriptor \<open>i\<close> points to the bus address of descriptor \<open>i+1\<close>, the last one has a
  null next pointer, every control word is the bare magic, every length is zero, and no descriptor
  outside the array is touched.\<close>

theorem transfer_desc_init_chain:
  assumes "0 < count"
  shows "(\<forall>i<count. desc_next (transfer_desc_init dv b count m (dv + i)) =
              (if Suc i < count then b + 32 * of_nat (Suc i) else 0)
            \<and> control (transfer_desc_init dv b count m (dv + i)) = DESC_MAGIC
            \<and> bytes (transfer_desc_init dv b count m (dv + i)) = 0)
       \<and> (\<forall>k. k < dv \<or> dv + count \<le> k \<longrightarrow> transfer_desc_init dv b count m k = m k)"
  using assms by (simp add: transfer_desc_init_inside transfer_desc_init_outside desc_next_def)

theorem transfer_desc_init_chain_witness:
  "desc_next (transfer_desc_init 4 0x1000 3 (\<lambda>_. desc_zero) 4) = 0x1020
   \<and> desc_next (transfer_desc_init 4 0x1000 3 (\<lambda>_. desc_zero) 6) = 0"
  using transfer_desc_init_chain [where count = 3 and dv = 4 and b = "0x1000" and m = "\<lambda>_. desc_zero"]
  by (auto dest: spec [of _ 0] spec [of _ 2])

section \<open>Prefetch count\<close>

lemma next_index_unat:
  "unat (drop_bit 5 (nlo AND (XDMA_PAGE_SIZE - 1)) mod XDMA_MAX_ADJ_BLOCK_SIZE :: u32) =
     unat nlo div 32 mod 64"
proof -
  have m: "(0xFFF :: u32) = mask 12" by (simp add: mask_eq_exp_minus_1)
  have "unat (drop_bit 5 (nlo AND 0xFFF) mod 0x40 :: u32) =
      (unat nlo mod 4096 div 32) mod 64"
    by (simp add: m unat_drop_bit_eq drop_bit_eq_div take_bit_eq_mod
        unsigned_take_bit_eq unat_div unat_mod_distrib flip: take_bit_eq_mask)
  also have "\<dots> = unat nlo div 32 mod 64"
    by (simp add: mod_mult2_eq [of _ 32 128, simplified] mod_mod_cancel)
  finally show ?thesis by (simp add: XDMA_PAGE_SIZE_def XDMA_MAX_ADJ_BLOCK_SIZE_def)
qed

lemma xdma_get_next_adj_unat:
  "unat (xdma_get_next_adj remaining nlo) =
     (if unat remaining \<le> 1 then 0
      else min (63 - unat nlo div 32 mod 64) (unat remaining - 1))"
proof (cases "unat remaining \<le> 1")
  case True
  then show ?thesis by (simp add: xdma_get_next_adj_def word_le_nat_alt)
next
  case False
  define k :: u32 where
    "k = drop_bit 5 (nlo AND (XDMA_PAGE_SIZE - 1)) mod XDMA_MAX_ADJ_BLOCK_SIZE"
  have k: "unat k = unat nlo div 32 mod 64"
    unfolding k_def by (rule next_index_unat)
  then have k64: "unat k < 64" by simp
  then have "unat (XDMA_MAX_ADJ_BLOCK_SIZE - k - 1) = 63 - unat k"
    by (simp add: XDMA_MAX_ADJ_BLOCK_SIZE_def unat_sub_if' word_le_nat_alt)
  moreover have "unat (remaining - 1) = unat remaining - 1"
    using False by (simp add: unat_sub_if')
  ultimately show ?thesis
    using False k unfolding xdma_get_next_adj_def Let_def k_def [symmetric]
    by (simp add: min_def word_le_nat_alt)
qed

text \<open>The adjacent count given to a descriptor never promises more descriptors than remain, is
  at most 63, and never lets the device prefetch across the end of the 64-descriptor block, hence
  never across the 4 KiB page, that the next descriptor lies in.\<close>

theorem xdma_get_next_adj_within_page:
  assumes "32 dvd unat nlo"
  shows "unat (xdma_get_next_adj remaining nlo) \<le> unat remaining - 1
       \<and> unat nlo div 32 mod 64 + unat (xdma_get_next_adj remaining nlo) < 64
       \<and> unat nlo mod 4096 + 32 * unat (xdma_get_next_adj remaining nlo) + 32 \<le> 4096"
proof -
  let ?a = "unat (xdma_get_next_adj remaining nlo)"
  let ?i = "unat nlo div 32 mod 64"
  have a: "?a \<le> unat remaining - 1" and "?a \<le> 63 - ?i"
    by (simp_all add: xdma_get_next_adj_unat)
  moreover have "?i < 64" by simp
  ultimately have ia: "?i + ?a < 64" by linarith
  obtain q where q: "unat nlo = 32 * q" using assms by (auto elim: dvdE)
  have "unat nlo mod 4096 = 32 * (q mod 128)"
    using q by (simp add: mod_mult_mult1 [of 32 q 128, simplified])
  moreover have "q mod 128 \<le> q mod 64 + 64"
    using mod_mult2_eq [of q 64 2] by simp
  moreover have "?i = q mod 64" using q by simp
  ultimately have "unat nlo mod 4096 + 32 * ?a + 32 \<le> 4096" using ia by linarith
  with a ia show ?thesis by blast
qed

theorem xdma_get_next_adj_within_page_witness:
  "unat (xdma_get_next_adj 100 0x7C0) \<le> 99 \<and> 62 + unat (xdma_get_next_adj 100 0x7C0) < 64
   \<and> xdma_get_next_adj 100 0x7C0 = 1"
proof -
  have "xdma_get_next_adj 100 0x7C0 = 1" by code_simp
  with xdma_get_next_adj_within_page [where nlo = "0x7C0" and remaining = 100] show ?thesis
    by simp
qed

section \<open>The packed control word\<close>

lemma low6_num: "(0x3F :: u32) = mask 6"
  by (simp add: mask_eq_exp_minus_1)

lemma and_low6: "a < 64 \<Longrightarrow> (a :: u32) AND 0x3F = a"
  by (simp add: low6_num less_mask_eq)

lemma drop_push_low6: "(drop_bit 8 (push_bit 8 (a :: u32))) AND 0x3F = a AND 0x3F"
  by (rule bit_word_eqI) (auto simp: low6_num bit_simps)

lemma ctl_adjacent_xdma_desc_adjacent:
  "ctl_adjacent (xdma_desc_adjacent d a) = (ctl_adjacent d AND 0x30) OR (a AND 0x3F)"
  by (simp add: ctl_adjacent_def xdma_desc_adjacent_def Let_def drop_bit_or drop_bit_and
      word_ao_dist drop_push_low6 and.assoc)

lemma ctl_magic_xdma_desc_adjacent:
  assumes "a < 64"
  shows "ctl_magic (xdma_desc_adjacent d a) = 0xAD4B"
proof -
  have "push_bit 8 a < 2 ^ 14"
    using assms by (simp add: push_bit_eq_mult word_less_nat_alt unat_word_ariths)
  then have "drop_bit 16 (push_bit 8 a) = 0"
    by (simp add: drop_bit_eq_div word_less_nat_alt word_arith_nat_div)
  then show ?thesis
    by (simp add: ctl_magic_def xdma_desc_adjacent_def Let_def drop_bit_or drop_bit_and)
qed

lemma ctl_bits_xdma_desc_adjacent: "ctl_bits (xdma_desc_adjacent d a) = ctl_bits d"
proof -
  have "push_bit 8 a AND 0xFF = (0 :: u32)"
    unfolding mask8_num by (rule bit_word_eqI) (auto simp: bit_simps)
  then show ?thesis
    by (simp add: ctl_bits_def xdma_desc_adjacent_def Let_def word_ao_dist and.assoc)
qed

text \<open>Setting the adjacent count of a descriptor whose count field is still clear (as the
  driver does once per build, on descriptors fresh from \<open>transfer_desc_init\<close>) stores exactly that
  count and the descriptor magic, and keeps the control bits and every other field.\<close>

theorem xdma_desc_adjacent_field:
  assumes "a < 64" and "ctl_adjacent d = 0"
  shows "ctl_adjacent (xdma_desc_adjacent d a) = a
       \<and> ctl_magic (xdma_desc_adjacent d a) = 0xAD4B
       \<and> ctl_bits (xdma_desc_adjacent d a) = ctl_bits d
       \<and> xdma_desc_adjacent d a = d\<lparr>control := control (xdma_desc_adjacent d a)\<rparr>"
  using assms
  by (simp add: ctl_adjacent_xdma_desc_adjacent ctl_magic_xdma_desc_adjacent and_low6
      ctl_bits_xdma_desc_adjacent) (simp add: xdma_desc_adjacent_def Let_def)

theorem xdma_desc_adjacent_field_witness:
  "ctl_adjacent (xdma_desc_adjacent (desc_zero\<lparr>control := 0xAD4B0013\<rparr>) 63) = 63"
proof -
  have "ctl_adjacent (desc_zero\<lparr>control := 0xAD4B0013\<rparr>) = 0"
    by (simp add: ctl_adjacent_def)
  with xdma_desc_adjacent_field [where a = 63 and d = "desc_zero\<lparr>control := 0xAD4B0013\<rparr>"]
  show ?thesis by simp
qed

text \<open>The mask \<open>0x0000f0ff\<close> of \<open>xdma_desc_adjacent\<close> clears only four of the six count bits: on a
  descriptor whose count field is already set, bits 4 and 5 of the old count survive and are
  ORed into the new one.  A second call with count 1 after a first with count 63 leaves 49.\<close>

theorem xdma_desc_adjacent_stale:
  "ctl_adjacent (xdma_desc_adjacent d a) = (ctl_adjacent d AND 0x30) OR (a AND 0x3F)
   \<and> ctl_adjacent (xdma_desc_adjacent (xdma_desc_adjacent desc_zero 63) 1) = 49"
  by (simp add: ctl_adjacent_xdma_desc_adjacent) (simp add: ctl_adjacent_def desc_zero_def)

lemma xdma_desc_control_set_ok:
  "f AND NOT LS_BYTE_MASK = 0 \<Longrightarrow>
   xdma_desc_control_set d f = (Inr (), d\<lparr>control := (control d AND NOT LS_BYTE_MASK) OR f\<rparr>)"
  by (simp add: xdma_desc_control_set_def)

lemma ls_byte_dropped:
  assumes "f AND NOT LS_BYTE_MASK = 0"
  shows "drop_bit 8 f = 0" "drop_bit 16 f = 0"
proof -
  have "(NOT LS_BYTE_MASK :: u32) = NOT (mask 8)"
    by (simp add: LS_BYTE_MASK_def mask_eq_exp_minus_1)
  with assms have "f AND NOT (mask 8) = 0" by simp
  then show "drop_bit 8 f = 0" "drop_bit 16 f = 0" by (auto intro: drop_bit_masked)
qed

lemma drop_bit16_low: "drop_bit 16 (c :: u32) AND 0xFFFF = drop_bit 16 c"
proof -
  have m: "(0xFFFF :: u32) = mask 16" by (simp add: mask_eq_exp_minus_1)
  show ?thesis
    unfolding m by (rule bit_word_eqI) (auto simp: bit_simps dest: bit_imp_le_length)
qed

lemma ls_byte_wide: "f AND NOT LS_BYTE_MASK \<noteq> 0 \<longleftrightarrow> 0xFF < f"
proof -
  have m: "LS_BYTE_MASK = mask 8" by (simp add: LS_BYTE_MASK_def mask_eq_exp_minus_1)
  have "f AND NOT (mask 8) = 0 \<longleftrightarrow> drop_bit 8 f = 0"
  proof
    assume "drop_bit 8 f = 0"
    then have "\<not> bit (drop_bit 8 f) k" for k by simp
    then have "\<not> bit f (8 + k)" for k by (simp add: bit_simps)
    then show "f AND NOT (mask 8) = 0"
      by (intro bit_word_eqI) (auto simp: bit_simps not_less dest: le_Suc_ex)
  qed (auto intro: drop_bit_masked)
  also have "\<dots> \<longleftrightarrow> unat f < 256"
    by (simp add: drop_bit_eq_div unat_div div_eq_0_iff flip: unat_eq_zero)
  finally show ?thesis unfolding m by (simp add: word_less_nat_alt) linarith
qed

lemma control_set_views:
  "ctl_magic (snd (xdma_desc_control_set d f)) = ctl_magic d"
  "ctl_adjacent (snd (xdma_desc_control_set d f)) = ctl_adjacent d"
  by (auto simp: xdma_desc_control_set_def ctl_magic_def ctl_adjacent_def Let_def
      drop_bit_or drop_bit_and and.assoc ls_byte_dropped)
    (simp_all add: LS_BYTE_MASK_def drop_bit16_low and.assoc)

lemma control_set_bits:
  "f AND NOT LS_BYTE_MASK = 0 \<Longrightarrow> ctl_bits (snd (xdma_desc_control_set d f)) = f"
proof -
  assume f: "f AND NOT LS_BYTE_MASK = 0"
  have "f = (f AND LS_BYTE_MASK) OR (f AND NOT LS_BYTE_MASK)"
    by (simp flip: bit.conj_disj_distrib)
  with f have "f AND LS_BYTE_MASK = f" by simp
  with f show ?thesis
    by (simp add: xdma_desc_control_set_def ctl_bits_def LS_BYTE_MASK_def word_ao_dist and.assoc)
qed

lemma control_set_rest:
  "\<exists>c. snd (xdma_desc_control_set d f) = d\<lparr>control := c\<rparr>"
  by (auto simp: xdma_desc_control_set_def intro: exI [of _ "control d"])

text \<open>\<open>xdma_desc_control_set\<close> rejects a control field wider than a byte and changes nothing;
  otherwise it replaces the low byte.  Magic, adjacent count and all other fields are kept.\<close>

theorem xdma_desc_control_set_spec:
  "(fst (xdma_desc_control_set d f) = Inl EINVAL \<longleftrightarrow> 0xFF < f)
   \<and> ctl_bits (snd (xdma_desc_control_set d f)) = (if 0xFF < f then ctl_bits d else f)
   \<and> ctl_magic (snd (xdma_desc_control_set d f)) = ctl_magic d
   \<and> ctl_adjacent (snd (xdma_desc_control_set d f)) = ctl_adjacent d
   \<and> (\<exists>c. snd (xdma_desc_control_set d f) = d\<lparr>control := c\<rparr>)"
proof -
  have wide: "f AND NOT LS_BYTE_MASK \<noteq> 0 \<longleftrightarrow> 0xFF < f"
    by (rule ls_byte_wide)
  show ?thesis
  proof (cases "0xFF < f")
    case True
    with wide have "xdma_desc_control_set d f = (Inl EINVAL, d)"
      by (simp add: xdma_desc_control_set_def)
    with True show ?thesis by (simp add: exI [of _ "control d"])
  next
    case False
    with wide have f: "f AND NOT LS_BYTE_MASK = 0" by blast
    then have "fst (xdma_desc_control_set d f) = Inr ()"
      by (simp add: xdma_desc_control_set_def)
    with False f show ?thesis by (simp add: control_set_views control_set_bits control_set_rest)
  qed
qed

section \<open>Addresses and links\<close>

text \<open>The address fields written by \<open>xdma_desc_set\<close> reassemble to the two 64-bit addresses on
  the device side, host memory as source for a write to the device and as destination for a read,
  the byte count is the length, and control word and next pointer are kept.\<close>

theorem xdma_desc_set_roundtrip:
  "desc_src (xdma_desc_set d rc ep len dir) = (if dir = DMA_TO_DEVICE then rc else ep)
   \<and> desc_dst (xdma_desc_set d rc ep len dir) = (if dir = DMA_TO_DEVICE then ep else rc)
   \<and> bytes (xdma_desc_set d rc ep len dir) = len
   \<and> control (xdma_desc_set d rc ep len dir) = control d
   \<and> desc_next (xdma_desc_set d rc ep len dir) = desc_next d"
  by (simp add: xdma_desc_set_def Let_def desc_views)

lemma desc_next_link:
  "desc_next (xdma_desc_link d sec) = (case sec of Some b \<Rightarrow> b | None \<Rightarrow> 0)"
  by (simp add: xdma_desc_link_def Let_def desc_next_def split: option.split)

lemma ctl_bits_link: "ctl_bits (xdma_desc_link d sec) = ctl_bits d"
  by (simp add: xdma_desc_link_def Let_def ctl_bits_def word_ao_dist and.assoc DESC_MAGIC_def)

end
