(* ===== verification/Int_Ctrl.thy ===== *)
theory Int_Ctrl
  imports Xdma_State
begin

text \<open>
  The interrupt controller block of the configuration BAR (\<open>libxdma.c\<close>, lines 216 to 327): enable
  and disable writes, the request read-out, and the field packing helpers.
\<close>

definition build_u32 :: "u32 \<Rightarrow> u32 \<Rightarrow> u32" where
  "build_u32 hi lo = push_bit 16 (hi AND 0xFFFF) OR (lo AND 0xFFFF)"

definition build_u64 :: "u64 \<Rightarrow> u64 \<Rightarrow> u64" where
  "build_u64 hi lo = push_bit 32 (hi AND 0xFFFFFFF) OR (lo AND 0xFFFFFFFF)"

text \<open>The address of the interrupt block, \<open>xdev->bar[xdev->config_bar_idx] + XDMA_OFS_INT_CTRL\<close>.\<close>

definition int_ctrl :: "world \<Rightarrow> u64" where
  "int_ctrl s = bar (xdev s) (nat (config_bar_idx (xdev s))) + XDMA_OFS_INT_CTRL"

definition channel_interrupts_enable :: "u32 \<Rightarrow> world \<Rightarrow> world" where
  "channel_interrupts_enable m s = write_register m (int_ctrl s + ireg ''channel_int_enable_w1s'') s"

definition channel_interrupts_disable :: "u32 \<Rightarrow> world \<Rightarrow> world" where
  "channel_interrupts_disable m s = write_register m (int_ctrl s + ireg ''channel_int_enable_w1c'') s"

definition user_interrupts_enable :: "u32 \<Rightarrow> world \<Rightarrow> world" where
  "user_interrupts_enable m s = write_register m (int_ctrl s + ireg ''user_int_enable_w1s'') s"

definition user_interrupts_disable :: "u32 \<Rightarrow> world \<Rightarrow> world" where
  "user_interrupts_disable m s = write_register m (int_ctrl s + ireg ''user_int_enable_w1c'') s"

definition read_interrupts :: "env \<Rightarrow> world \<Rightarrow> u32 \<times> world" where
  "read_interrupts E s =
     (let (hi, s) = read_register E (int_ctrl s + ireg ''user_int_request'') s;
          (lo, s) = read_register E (int_ctrl s + ireg ''channel_int_request'') s
      in (build_u32 hi lo, s))"

text \<open>Only the reads have an effect on the device; the values are printed when non-zero.\<close>

definition check_nonzero_interrupt_status :: "env \<Rightarrow> world \<Rightarrow> world" where
  "check_nonzero_interrupt_status E s =
     fold (\<lambda>f s. snd (read_register E (int_ctrl s + ireg f) s))
       [''user_int_enable'', ''channel_int_enable'', ''user_int_request'', ''channel_int_request'',
        ''user_int_pending'', ''channel_int_pending''] s"

section \<open>Packing\<close>

lemma mask16_num: "(0xFFFF :: u32) = mask 16"
  by (simp add: mask_eq_exp_minus_1)

text \<open>The packed request word keeps the user requests in its upper and the channel requests in
  its lower half.\<close>

theorem build_u32_fields:
  "drop_bit 16 (build_u32 hi lo) = hi AND 0xFFFF \<and> build_u32 hi lo AND 0xFFFF = lo AND 0xFFFF"
  unfolding build_u32_def mask16_num
  by (intro conjI bit_word_eqI) (auto simp: bit_simps)

lemma mask28_num: "(0xFFFFFFF :: u64) = mask 28"
  by (simp add: mask_eq_exp_minus_1)

lemma mask32_num': "(0xFFFFFFFF :: u64) = mask 32"
  by (simp add: mask_eq_exp_minus_1)

text \<open>The 64-bit counters are assembled with a 28-bit mask on the upper half: the low word and
  the low 28 bits of the high word are kept, the top four bits of the high word are lost.  A high
  word of \<open>0x10000000\<close> reads as zero.\<close>

theorem build_u64_truncates:
  "build_u64 hi lo AND 0xFFFFFFFF = lo AND 0xFFFFFFFF
   \<and> drop_bit 32 (build_u64 hi lo) = hi AND 0xFFFFFFF
   \<and> build_u64 0x10000000 0 = 0"
proof -
  have "build_u64 hi lo AND 0xFFFFFFFF = lo AND 0xFFFFFFFF"
    unfolding build_u64_def mask28_num mask32_num' by (rule bit_word_eqI) (auto simp: bit_simps)
  moreover have "drop_bit 32 (build_u64 hi lo) = hi AND 0xFFFFFFF"
    unfolding build_u64_def mask28_num mask32_num' by (rule bit_word_eqI) (auto simp: bit_simps)
  ultimately show ?thesis by (simp add: build_u64_def)
qed

section \<open>Frame\<close>

lemma int_ctrl_emit [simp]: "int_ctrl (emit ev s) = int_ctrl s"
  by (simp add: int_ctrl_def)

lemma int_ctrl_upd_eng [simp]: "int_ctrl (upd_eng e f s) = int_ctrl s"
  by (simp add: int_ctrl_def)

lemmas int_enable_defs = channel_interrupts_enable_def channel_interrupts_disable_def
  user_interrupts_enable_def user_interrupts_disable_def

lemma int_enable_frame [simp]:
  "get_eng (channel_interrupts_enable m s) e = get_eng s e"
  "get_eng (channel_interrupts_disable m s) e = get_eng s e"
  "get_xfer (channel_interrupts_enable m s) x = get_xfer s x"
  "get_xfer (channel_interrupts_disable m s) x = get_xfer s x"
  "xdev (channel_interrupts_enable m s) = xdev s" "xdev (channel_interrupts_disable m s) = xdev s"
  "xdev (user_interrupts_enable m s) = xdev s" "xdev (user_interrupts_disable m s) = xdev s"
  by (simp_all add: int_enable_defs)

end
