(* ===== verification/Engine.thy ===== *)
theory Engine
  imports Descriptors Int_Ctrl
begin

text \<open>
  One SG DMA engine (\<open>libxdma.c\<close>, lines 329 to 776): reading and reporting its status, its
  performance counters, stopping and starting it.  A null engine pointer is \<open>None\<close>.
\<close>

section \<open>Registers of an engine\<close>

definition eng_read :: "env \<Rightarrow> eref \<Rightarrow> string \<Rightarrow> world \<Rightarrow> u32 \<times> world" where
  "eng_read E e f s = read_register E (regs (get_eng s e) + ereg f) s"

definition eng_write :: "u32 \<Rightarrow> eref \<Rightarrow> string \<Rightarrow> world \<Rightarrow> world" where
  "eng_write v e f s = write_register v (regs (get_eng s e) + ereg f) s"

definition sg_read :: "env \<Rightarrow> eref \<Rightarrow> string \<Rightarrow> world \<Rightarrow> u32 \<times> world" where
  "sg_read E e f s = read_register E (sgdma_regs (get_eng s e) + sgreg f) s"

definition sg_write :: "u32 \<Rightarrow> eref \<Rightarrow> string \<Rightarrow> world \<Rightarrow> world" where
  "sg_write v e f s = write_register v (sgdma_regs (get_eng s e) + sgreg f) s"

section \<open>Performance counters\<close>

definition enable_perf :: "env \<Rightarrow> eref \<Rightarrow> world \<Rightarrow> world" where
  "enable_perf E e s =
     (let s = eng_write XDMA_PERF_CLEAR e ''perf_ctrl'' s;
          s = snd (eng_read E e ''identifier'' s);
          s = eng_write (XDMA_PERF_AUTO OR XDMA_PERF_RUN) e ''perf_ctrl'' s
      in snd (eng_read E e ''identifier'' s))"

fun get_perf_stats :: "env \<Rightarrow> eref option \<Rightarrow> world \<Rightarrow> world" where
  "get_perf_stats E None s = s"
| "get_perf_stats E (Some e) s =
     (case xdma_perf (get_eng s e) of
        None \<Rightarrow> s
      | Some p \<Rightarrow>
          let (lo, s) = eng_read E e ''completed_desc_count'' s;
              p = p\<lparr>iterations := ucast (build_u64 0 (ucast lo))\<rparr>;
              (hi, s) = eng_read E e ''perf_cyc_hi'' s;
              (lo, s) = eng_read E e ''perf_cyc_lo'' s;
              p = p\<lparr>clock_cycle_count := build_u64 (ucast hi) (ucast lo)\<rparr>;
              (hi, s) = eng_read E e ''perf_dat_hi'' s;
              (lo, s) = eng_read E e ''perf_dat_lo'' s;
              p = p\<lparr>data_cycle_count := build_u64 (ucast hi) (ucast lo)\<rparr>;
              (hi, s) = eng_read E e ''perf_pnd_hi'' s;
              (lo, s) = eng_read E e ''perf_pnd_lo'' s;
              p = p\<lparr>pending_count := build_u64 (ucast hi) (ucast lo)\<rparr>
          in upd_eng e (\<lambda>g. g\<lparr>xdma_perf := Some p\<rparr>) s)"

section \<open>Status\<close>

fun engine_reg_dump :: "env \<Rightarrow> eref option \<Rightarrow> world \<Rightarrow> unit res \<times> world" where
  "engine_reg_dump E None s = (Inl EINVAL, s)"
| "engine_reg_dump E (Some e) s =
     (let (w, s) = eng_read E e ''identifier'' s
      in if w AND BLOCK_ID_MASK \<noteq> BLOCK_ID_HEAD then (Inl EINVAL, s)
         else let s = fold (\<lambda>f s. snd (eng_read E e f s)) [''status'', ''control''] s;
                  s = fold (\<lambda>f s. snd (sg_read E e f s))
                        [''first_desc_lo'', ''first_desc_hi'', ''first_desc_adjacent''] s;
                  s = fold (\<lambda>f s. snd (eng_read E e f s))
                        [''completed_desc_count'', ''interrupt_enable_mask''] s
              in (Inr (), s))"

text \<open>
  The text \<open>engine_status_dump\<close> builds in its 256 byte buffer.  \<open>hex08\<close> is the conversion
  \<open>%08x\<close>; \<open>comma\<close> is the assignment \<open>buf[len - 1] = ','\<close>.
\<close>

definition hexdigit :: "nat \<Rightarrow> char" where
  "hexdigit n = ''0123456789abcdef'' ! (n mod 16)"

definition hex08 :: "u32 \<Rightarrow> string" where
  "hex08 v = map (\<lambda>k. hexdigit (unat v div 16 ^ k)) [7, 6, 5, 4, 3, 2, 1, 0]"

definition comma :: "string \<Rightarrow> string" where
  "comma buf = butlast buf @ '',''"

definition flag_text :: "u32 \<Rightarrow> (nat \<times> string) list \<Rightarrow> string" where
  "flag_text v fs = concat (map (\<lambda>(b, txt). if v AND push_bit b 1 \<noteq> 0 then txt else []) fs)"

definition flag_group :: "u32 \<Rightarrow> u32 \<Rightarrow> string \<Rightarrow> (nat \<times> string) list \<Rightarrow> string \<Rightarrow> string" where
  "flag_group v m pre fs buf =
     (if v AND m \<noteq> 0 then comma (buf @ pre @ flag_text v fs) else buf)"

definition status_head :: "xdma_engine \<Rightarrow> string" where
  "status_head g =
     (let v = status g
      in ''SG engine '' @ ename g @ '' status: 0x'' @ hex08 v @ '': '' @
         flag_text v [(0, ''BUSY,''), (1, ''DESC_STOPPED,''), (2, ''DESC_COMPL,'')])"

definition status_errors :: "xdma_engine \<Rightarrow> string \<Rightarrow> string" where
  "status_errors g buf =
     (let v = status g;
          buf = flag_group v XDMA_STAT_COMMON_ERR_MASK [] [(3, ''ALIGN_MISMATCH ''),
                  (4, ''MAGIC_STOPPED ''), (5, ''INVLIAD_LEN ''), (6, ''IDLE_STOPPED '')] buf;
          buf = (if edir g = DMA_TO_DEVICE
                 then flag_group v XDMA_STAT_H2C_W_ERR_MASK ''W:''
                        [(14, ''DECODE_ERR ''), (15, ''SLAVE_ERR '')]
                        (flag_group v XDMA_STAT_H2C_R_ERR_MASK ''R:''
                          [(9, ''UNSUPP_REQ ''), (10, ''COMPL_ABORT ''), (11, ''PARITY ''),
                           (12, ''HEADER_EP ''), (13, ''UNEXP_COMPL '')] buf)
                 else flag_group v XDMA_STAT_C2H_R_ERR_MASK ''R:''
                        [(9, ''DECODE_ERR ''), (10, ''SLAVE_ERR '')] buf)
      in flag_group v XDMA_STAT_DESC_ERR_MASK ''DESC_ERR:''
           [(19, ''UNSUPP_REQ ''), (20, ''COMPL_ABORT ''), (21, ''PARITY ''), (22, ''HEADER_EP ''),
            (23, ''UNEXP_COMPL '')] buf)"

text \<open>The contents of the buffer before the last byte is replaced by the terminator.\<close>

definition engine_status_dump :: "xdma_engine \<Rightarrow> string" where
  "engine_status_dump g = status_errors g (status_head g)"

fun engine_status_read :: "env \<Rightarrow> eref option \<Rightarrow> bool \<Rightarrow> bool \<Rightarrow> world \<Rightarrow> unit res \<times> world" where
  "engine_status_read E None clear dump s = (Inl EINVAL, s)"
| "engine_status_read E (Some e) clear dump s =
     (case (if dump then engine_reg_dump E (Some e) s else (Inr (), s)) of
        (Inl rv, s) \<Rightarrow> (Inl rv, s)
      | (Inr _, s) \<Rightarrow>
          let (v, s) = eng_read E e (if clear then ''status_rc'' else ''status'') s
          in (Inr (), upd_eng e (\<lambda>g. g\<lparr>status := v\<rparr>) s))"

section \<open>Stop and start\<close>

definition ctrl_mode :: "env \<Rightarrow> u32" where
  "ctrl_mode E = (if poll_mode E \<noteq> 0 then XDMA_CTRL_POLL_MODE_WB
                  else XDMA_CTRL_IE_DESC_STOPPED OR XDMA_CTRL_IE_DESC_COMPLETED)"

definition st_credit :: "env \<Rightarrow> xdma_engine \<Rightarrow> bool" where
  "st_credit E g \<longleftrightarrow> enable_st_c2h_credit E \<noteq> 0 \<and> c2h_st g"

fun xdma_engine_stop :: "env \<Rightarrow> eref option \<Rightarrow> world \<Rightarrow> unit res \<times> world" where
  "xdma_engine_stop E None s = (Inl EINVAL, s)"
| "xdma_engine_stop E (Some e) s =
     (let s = (if st_credit E (get_eng s e) then sg_write 0 e ''credits'' s else s);
          w = XDMA_CTRL_IE_DESC_ALIGN_MISMATCH OR XDMA_CTRL_IE_MAGIC_STOPPED OR
              XDMA_CTRL_IE_READ_ERROR OR XDMA_CTRL_IE_DESC_ERROR OR ctrl_mode E;
          s = eng_write w e ''control'' s
      in (Inr (), upd_eng e (\<lambda>g. g\<lparr>running := False\<rparr>) s))"

fun engine_start_mode_config :: "env \<Rightarrow> eref option \<Rightarrow> world \<Rightarrow> unit res \<times> world" where
  "engine_start_mode_config E None s = (Inl EINVAL, s)"
| "engine_start_mode_config E (Some e) s =
     (let g = get_eng s e;
          s = (if xdma_perf g \<noteq> None
               then eng_write (XDMA_CTRL_IE_DESC_STOPPED OR XDMA_CTRL_IE_DESC_COMPLETED OR
                      XDMA_CTRL_IE_DESC_ALIGN_MISMATCH OR XDMA_CTRL_IE_MAGIC_STOPPED OR
                      XDMA_CTRL_IE_IDLE_STOPPED OR XDMA_CTRL_IE_READ_ERROR OR
                      XDMA_CTRL_IE_DESC_ERROR) e ''interrupt_enable_mask'' s
               else s);
          w = XDMA_CTRL_RUN_STOP OR XDMA_CTRL_IE_READ_ERROR OR XDMA_CTRL_IE_DESC_ERROR OR
              XDMA_CTRL_IE_DESC_ALIGN_MISMATCH OR XDMA_CTRL_IE_MAGIC_STOPPED OR ctrl_mode E;
          w = (if non_incr_addr g then w OR XDMA_CTRL_NON_INCR_ADDR else w);
          s = eng_write w e ''control'' s;
          s = snd (eng_read E e ''status'' s)
      in (Inr (), s))"

text \<open>Programming the first descriptor of the head of the queue.\<close>

definition engine_load :: "env \<Rightarrow> eref \<Rightarrow> xref \<Rightarrow> world \<Rightarrow> world" where
  "engine_load E e x s =
     (let s = upd_eng e (\<lambda>g. g\<lparr>shutdown := ENGINE_SHUTDOWN_NONE\<rparr>) s;
          g = get_eng s e; t = get_xfer s x;
          s = (if st_credit E g then sg_write (word_of_int (desc_used g)) e ''credits'' s else s);
          s = upd_eng e (\<lambda>g. g\<lparr>desc_dequeued := 0\<rparr>) s;
          s = sg_write (PCI_DMA_L (xdesc_bus t)) e ''first_desc_lo'' s;
          s = sg_write (PCI_DMA_H (xdesc_bus t)) e ''first_desc_hi'' s;
          next_adj = xdma_get_next_adj (word_of_int (desc_adjacent t)) (PCI_DMA_L (xdesc_bus t))
      in sg_write next_adj e ''first_desc_adjacent'' s)"

fun engine_start :: "env \<Rightarrow> eref option \<Rightarrow> world \<Rightarrow> xref option \<times> world" where
  "engine_start E None s = (None, s)"
| "engine_start E (Some e) s =
     (if running (get_eng s e) then (None, s)
      else case transfer_list (get_eng s e) of
        [] \<Rightarrow> (None, s)
      | x # _ \<Rightarrow>
          (case engine_start_mode_config E (Some e) (engine_load E e x s) of
             (Inl rv, s) \<Rightarrow> (None, s)
           | (Inr _, s) \<Rightarrow>
               (case engine_status_read E (Some e) False False s of
                  (Inl rv, s) \<Rightarrow> (None, s)
                | (Inr _, s) \<Rightarrow> (Some x, upd_eng e (\<lambda>g. g\<lparr>running := True\<rparr>) s))))"

section \<open>The status text\<close>

lemma length_comma: "buf \<noteq> [] \<Longrightarrow> length (comma buf) = length buf"
  by (simp add: comma_def)

lemma length_flag_text: "length (flag_text v fs) \<le> sum_list (map (length \<circ> snd) fs)"
  unfolding flag_text_def by (induction fs) auto

lemma length_flag_group:
  "buf \<noteq> [] \<Longrightarrow> length (flag_group v m pre fs buf)
     \<le> length buf + length pre + sum_list (map (length \<circ> snd) fs)"
  using length_flag_text [of v fs] by (auto simp: flag_group_def length_comma)

lemma flag_group_nonempty: "buf \<noteq> [] \<Longrightarrow> flag_group v m pre fs buf \<noteq> []"
  by (simp add: flag_group_def comma_def)

lemma length_hex08 [simp]: "length (hex08 v) = 8"
  by (simp add: hex08_def)

lemma status_head_length:
  "status_head g \<noteq> []" "length (status_head g) \<le> 60 + length (ename g)"
  using length_flag_text [of "status g" "[(0, ''BUSY,''), (1, ''DESC_STOPPED,''), (2, ''DESC_COMPL,'')]"]
  by (simp_all add: status_head_def Let_def)

text \<open>On a C2H engine the status text, with its terminator, always fits the 256 byte buffer of
  \<open>engine_status_dump\<close>, whatever the status register holds.\<close>

theorem engine_status_dump_fits:
  assumes "edir g \<noteq> DMA_TO_DEVICE" and "length (ename g) \<le> 15"
  shows "length (engine_status_dump g) + 1 \<le> 256"
proof -
  define b1 where "b1 = flag_group (status g) XDMA_STAT_COMMON_ERR_MASK [] [(3, ''ALIGN_MISMATCH ''),
      (4, ''MAGIC_STOPPED ''), (5, ''INVLIAD_LEN ''), (6, ''IDLE_STOPPED '')] (status_head g)"
  define b2 where "b2 = flag_group (status g) XDMA_STAT_C2H_R_ERR_MASK ''R:''
      [(9, ''DECODE_ERR ''), (10, ''SLAVE_ERR '')] b1"
  have d: "engine_status_dump g = flag_group (status g) XDMA_STAT_DESC_ERR_MASK ''DESC_ERR:''
      [(19, ''UNSUPP_REQ ''), (20, ''COMPL_ABORT ''), (21, ''PARITY ''), (22, ''HEADER_EP ''),
       (23, ''UNEXP_COMPL '')] b2"
    using assms(1) by (simp add: engine_status_dump_def status_errors_def Let_def b1_def b2_def)
  have ne: "b1 \<noteq> []" "b2 \<noteq> []"
    by (simp_all add: b1_def b2_def flag_group_nonempty status_head_length)
  have "length b1 \<le> length (status_head g) + 54"
    unfolding b1_def using length_flag_group [OF status_head_length(1)] by (rule order_trans) simp
  moreover have "length b2 \<le> length b1 + 23"
    unfolding b2_def using length_flag_group [OF ne(1)] by (rule order_trans) simp
  moreover have "length (engine_status_dump g) \<le> length b2 + 61"
    unfolding d using length_flag_group [OF ne(2)] by (rule order_trans) simp
  ultimately show ?thesis using status_head_length(2) [of g] assms(2) by linarith
qed

theorem engine_status_dump_fits_witness:
  "length (engine_status_dump (engine_zero\<lparr>edir := DMA_FROM_DEVICE, ename := ''0-C2H0-MM'',
     status := 0xFFFFFFFF\<rparr>)) + 1 \<le> 256"
  by (rule engine_status_dump_fits) simp_all

text \<open>On an H2C engine it does not.  When every status bit reads one, as it does once the device
  has dropped off the bus, the text for the engine named \<open>0-H2C0-MM\<close> has 261 characters and
  overruns the 256 byte stack buffer.\<close>

theorem engine_status_dump_overflow:
  "length (engine_status_dump (engine_zero\<lparr>edir := DMA_TO_DEVICE, ename := ''0-H2C0-MM'',
     status := 0xFFFFFFFF\<rparr>)) = 261"
  by (simp add: engine_status_dump_def status_errors_def status_head_def flag_group_def
      flag_text_def comma_def xdma_stat_defs)

section \<open>Register traffic of stop and start\<close>

text \<open>The writes of a trace, and the RUN bit the device saw last at a control register.\<close>

fun io_writes :: "event list \<Rightarrow> (u64 \<times> u32) list" where
  "io_writes [] = []"
| "io_writes (IoWrite a v # tr) = (a, v) # io_writes tr"
| "io_writes (_ # tr) = io_writes tr"

lemma io_writes_append [simp]: "io_writes (tr @ tr') = io_writes tr @ io_writes tr'"
  by (induction tr rule: io_writes.induct) simp_all

definition hw_run :: "u64 \<Rightarrow> event list \<Rightarrow> bool" where
  "hw_run a tr = (case filter (\<lambda>w. fst w = a) (rev (io_writes tr)) of
     [] \<Rightarrow> False | w # _ \<Rightarrow> snd w AND XDMA_CTRL_RUN_STOP \<noteq> 0)"

definition control_reg :: "xdma_engine \<Rightarrow> u64" where
  "control_reg g = regs g + ereg ''control''"

lemma reg_frame [simp]:
  "get_eng (eng_write v e f s) e' = get_eng s e'" "get_xfer (eng_write v e f s) x = get_xfer s x"
  "get_eng (sg_write v e f s) e' = get_eng s e'" "get_xfer (sg_write v e f s) x = get_xfer s x"
  "xdev (eng_write v e f s) = xdev s" "xdev (sg_write v e f s) = xdev s"
  "trace (eng_write v e f s) = trace s @ [IoWrite (regs (get_eng s e) + ereg f) v]"
  "trace (sg_write v e f s) = trace s @ [IoWrite (sgdma_regs (get_eng s e) + sgreg f) v]"
  by (simp_all add: eng_write_def sg_write_def)

lemma reg_read_frame [simp]:
  "fst (eng_read E e f s) = ioread32 E (trace s) (regs (get_eng s e) + ereg f)"
  "snd (eng_read E e f s) = emit (IoRead (regs (get_eng s e) + ereg f)
     (ioread32 E (trace s) (regs (get_eng s e) + ereg f))) s"
  "fst (sg_read E e f s) = ioread32 E (trace s) (sgdma_regs (get_eng s e) + sgreg f)"
  "snd (sg_read E e f s) = emit (IoRead (sgdma_regs (get_eng s e) + sgreg f)
     (ioread32 E (trace s) (sgdma_regs (get_eng s e) + sgreg f))) s"
  by (simp_all add: eng_read_def sg_read_def)

definition stop_word :: "env \<Rightarrow> u32" where
  "stop_word E = XDMA_CTRL_IE_DESC_ALIGN_MISMATCH OR XDMA_CTRL_IE_MAGIC_STOPPED OR
     XDMA_CTRL_IE_READ_ERROR OR XDMA_CTRL_IE_DESC_ERROR OR ctrl_mode E"

lemma xdma_engine_stop_effect:
  shows "fst (xdma_engine_stop E (Some e) s) = Inr ()"
    and "get_eng (snd (xdma_engine_stop E (Some e) s)) e' =
      (if e' = e then (get_eng s e)\<lparr>running := False\<rparr> else get_eng s e')"
    and "get_xfer (snd (xdma_engine_stop E (Some e) s)) x = get_xfer s x"
    and "xfers (snd (xdma_engine_stop E (Some e) s)) = xfers s"
    and "trace (snd (xdma_engine_stop E (Some e) s)) = trace s @
      (if st_credit E (get_eng s e)
       then [IoWrite (sgdma_regs (get_eng s e) + sgreg ''credits'') 0] else []) @
      [IoWrite (control_reg (get_eng s e)) (stop_word E)]"
  by (simp_all add: Let_def stop_word_def control_reg_def)
    (simp_all add: eng_write_def sg_write_def)

definition start_word :: "env \<Rightarrow> xdma_engine \<Rightarrow> u32" where
  "start_word E g =
     (let w = XDMA_CTRL_RUN_STOP OR XDMA_CTRL_IE_READ_ERROR OR XDMA_CTRL_IE_DESC_ERROR OR
              XDMA_CTRL_IE_DESC_ALIGN_MISMATCH OR XDMA_CTRL_IE_MAGIC_STOPPED OR ctrl_mode E
      in if non_incr_addr g then w OR XDMA_CTRL_NON_INCR_ADDR else w)"

definition perf_writes :: "xdma_engine \<Rightarrow> (u64 \<times> u32) list" where
  "perf_writes g = (if xdma_perf g = None then []
     else [(regs g + ereg ''interrupt_enable_mask'', XDMA_CTRL_IE_DESC_STOPPED OR
            XDMA_CTRL_IE_DESC_COMPLETED OR XDMA_CTRL_IE_DESC_ALIGN_MISMATCH OR
            XDMA_CTRL_IE_MAGIC_STOPPED OR XDMA_CTRL_IE_IDLE_STOPPED OR XDMA_CTRL_IE_READ_ERROR OR
            XDMA_CTRL_IE_DESC_ERROR)])"

definition start_writes :: "env \<Rightarrow> xdma_engine \<Rightarrow> xdma_transfer \<Rightarrow> (u64 \<times> u32) list" where
  "start_writes E g t =
     (if st_credit E g then [(sgdma_regs g + sgreg ''credits'', word_of_int (desc_used g))] else []) @
     [(sgdma_regs g + sgreg ''first_desc_lo'', PCI_DMA_L (xdesc_bus t)),
      (sgdma_regs g + sgreg ''first_desc_hi'', PCI_DMA_H (xdesc_bus t)),
      (sgdma_regs g + sgreg ''first_desc_adjacent'',
       xdma_get_next_adj (word_of_int (desc_adjacent t)) (PCI_DMA_L (xdesc_bus t)))] @
     perf_writes g @ [(control_reg g, start_word E g)]"

lemma st_credit_update [simp]:
  "st_credit E (g\<lparr>shutdown := a\<rparr>) = st_credit E g" "st_credit E (g\<lparr>xdma_perf := p\<rparr>) = st_credit E g"
  by (simp_all add: st_credit_def c2h_st_def)

lemma engine_load_effect:
  "get_eng (engine_load E e x s) e' =
     (if e' = e then (get_eng s e)\<lparr>shutdown := ENGINE_SHUTDOWN_NONE, desc_dequeued := 0\<rparr>
      else get_eng s e')"
  "xfers (engine_load E e x s) = xfers s"
  "io_writes (trace (engine_load E e x s)) = io_writes (trace s) @
     butlast (start_writes E ((get_eng s e)\<lparr>xdma_perf := None\<rparr>) (get_xfer s x))"
  by (cases "st_credit E (get_eng s e)";
      simp add: engine_load_def Let_def start_writes_def perf_writes_def sg_write_def)+

lemma engine_start_mode_config_effect:
  "fst (engine_start_mode_config E (Some e) s) = Inr ()"
  "get_eng (snd (engine_start_mode_config E (Some e) s)) e' = get_eng s e'"
  "xfers (snd (engine_start_mode_config E (Some e) s)) = xfers s"
  "io_writes (trace (snd (engine_start_mode_config E (Some e) s))) = io_writes (trace s) @
     perf_writes (get_eng s e) @ [(control_reg (get_eng s e), start_word E (get_eng s e))]"
  by (simp_all add: Let_def start_word_def perf_writes_def control_reg_def)
    (auto simp: eng_write_def)

lemma engine_status_read_effect:
  "fst (engine_status_read E (Some e) c False s) = Inr ()"
  "\<exists>v. get_eng (snd (engine_status_read E (Some e) c False s)) e = (get_eng s e)\<lparr>status := v\<rparr>
      \<and> v = ioread32 E (trace s) (regs (get_eng s e) + ereg (if c then ''status_rc'' else ''status''))"
  "e' \<noteq> e \<Longrightarrow> get_eng (snd (engine_status_read E (Some e) c False s)) e' = get_eng s e'"
  "xfers (snd (engine_status_read E (Some e) c False s)) = xfers s"
  "io_writes (trace (snd (engine_status_read E (Some e) c False s))) = io_writes (trace s)"
  by (simp_all add: split_beta)

lemma engine_start_refused:
  "running (get_eng s e) \<or> transfer_list (get_eng s e) = [] \<Longrightarrow> engine_start E (Some e) s = (None, s)"
  by (auto split: list.split)

declare xdma_engine_stop.simps(2) [simp del] engine_start_mode_config.simps(2) [simp del]
  engine_status_read.simps(2) [simp del] engine_start.simps(2) [simp del]

lemma engine_start_effect:
  assumes "\<not> running (get_eng s e)" and "transfer_list (get_eng s e) = x # xs"
  shows "fst (engine_start E (Some e) s) = Some x"
    and "\<exists>v. get_eng (snd (engine_start E (Some e) s)) e = (get_eng s e)\<lparr>running := True,
           shutdown := ENGINE_SHUTDOWN_NONE, desc_dequeued := 0, status := v\<rparr>"
    and "e' \<noteq> e \<Longrightarrow> get_eng (snd (engine_start E (Some e) s)) e' = get_eng s e'"
    and "xfers (snd (engine_start E (Some e) s)) = xfers s"
    and "io_writes (trace (snd (engine_start E (Some e) s))) =
           io_writes (trace s) @ start_writes E (get_eng s e) (get_xfer s x)"
proof -
  let ?s1 = "engine_load E e x s"
  let ?s2 = "snd (engine_start_mode_config E (Some e) ?s1)"
  let ?s3 = "snd (engine_status_read E (Some e) False False ?s2)"
  have r: "engine_start E (Some e) s = (Some x, upd_eng e (\<lambda>g. g\<lparr>running := True\<rparr>) ?s3)"
    using assms by (simp add: case_res_Inr [OF engine_start_mode_config_effect(1)]
        case_res_Inr [OF engine_status_read_effect(1)] engine_start.simps(2))
  note eff = engine_load_effect engine_start_mode_config_effect engine_status_read_effect
  show "fst (engine_start E (Some e) s) = Some x" by (simp add: r)
  obtain v where v: "get_eng ?s3 e = (get_eng ?s2 e)\<lparr>status := v\<rparr>"
    using engine_status_read_effect(2) by blast
  show "\<exists>v. get_eng (snd (engine_start E (Some e) s)) e = (get_eng s e)\<lparr>running := True,
           shutdown := ENGINE_SHUTDOWN_NONE, desc_dequeued := 0, status := v\<rparr>"
    unfolding r by (rule exI [of _ v]) (simp add: v engine_load_effect engine_start_mode_config_effect)
  show "e' \<noteq> e \<Longrightarrow> get_eng (snd (engine_start E (Some e) s)) e' = get_eng s e'"
    "xfers (snd (engine_start E (Some e) s)) = xfers s"
    unfolding r by (simp_all add: eff)
  have "control_reg (g\<lparr>shutdown := a, desc_dequeued := b\<rparr>) = control_reg g"
    "perf_writes (g\<lparr>shutdown := a, desc_dequeued := b\<rparr>) = perf_writes g"
    "start_word E (g\<lparr>shutdown := a, desc_dequeued := b\<rparr>) = start_word E g" for g a b
    by (simp_all add: control_reg_def perf_writes_def start_word_def)
  moreover have "butlast (start_writes E (g\<lparr>xdma_perf := None\<rparr>) t) @ perf_writes g @
      [(control_reg g, start_word E g)] = start_writes E g t" for g t
    by (simp add: start_writes_def perf_writes_def butlast_append)
  ultimately show "io_writes (trace (snd (engine_start E (Some e) s))) =
           io_writes (trace s) @ start_writes E (get_eng s e) (get_xfer s x)"
    unfolding r by (simp add: eff)
qed

lemma run_bits: "stop_word E AND XDMA_CTRL_RUN_STOP = 0" "start_word E g AND XDMA_CTRL_RUN_STOP = 1"
  by (auto simp: stop_word_def start_word_def ctrl_mode_def xdma_ctrl_defs Let_def)

lemma hw_run_last:
  "io_writes tr = ws @ [(a, v)] \<Longrightarrow> hw_run a tr \<longleftrightarrow> v AND XDMA_CTRL_RUN_STOP \<noteq> 0"
  by (simp add: hw_run_def)

text \<open>C13: \<open>engine_start\<close> refuses a running engine and an empty queue without touching anything.
  Otherwise it programs the descriptor address and adjacent count of the head of the queue, then
  writes the control word last, so the device sees RUN only after the address; the engine is marked
  running with its dequeue count and shutdown request cleared, and the queue and every transfer
  are left alone.\<close>

theorem engine_start_spec:
  fixes E :: env and e :: eref and s :: world
  defines "s' \<equiv> snd (engine_start E (Some e) s)"
  shows "if running (get_eng s e) \<or> transfer_list (get_eng s e) = []
     then engine_start E (Some e) s = (None, s)
     else fst (engine_start E (Some e) s) = Some (hd (transfer_list (get_eng s e)))
        \<and> io_writes (trace s') = io_writes (trace s) @
            start_writes E (get_eng s e) (get_xfer s (hd (transfer_list (get_eng s e))))
        \<and> hw_run (control_reg (get_eng s e)) (trace s')
        \<and> (\<exists>v. get_eng s' e = (get_eng s e)\<lparr>running := True, shutdown := ENGINE_SHUTDOWN_NONE,
                 desc_dequeued := 0, status := v\<rparr>)
        \<and> xfers s' = xfers s"
proof (cases "running (get_eng s e) \<or> transfer_list (get_eng s e) = []")
  case True
  then show ?thesis using engine_start_refused by simp
next
  case False
  then obtain x xs where l: "\<not> running (get_eng s e)" "transfer_list (get_eng s e) = x # xs"
    by (meson neq_Nil_conv)
  have w: "io_writes (trace s') = io_writes (trace s) @ start_writes E (get_eng s e) (get_xfer s x)"
    unfolding s'_def by (rule engine_start_effect(5) [OF l])
  then obtain ws where "io_writes (trace s') = ws @ [(control_reg (get_eng s e), start_word E (get_eng s e))]"
    by (simp add: start_writes_def)
  then have "hw_run (control_reg (get_eng s e)) (trace s')"
    by (simp add: hw_run_last run_bits)
  with False l w engine_start_effect [OF l] show ?thesis by (simp add: s'_def)
qed

theorem engine_start_spec_witness:
  "fst (engine_start env0 (Some (H2C 0)) (upd_eng (H2C 0) (\<lambda>g. g\<lparr>transfer_list := [(2, 0)]\<rparr>) world0)) = Some (2, 0)"
  using engine_start_spec [where e = "H2C 0" and s = "upd_eng (H2C 0) (\<lambda>g. g\<lparr>transfer_list := [(2, 0)]\<rparr>) world0" and E = env0]
  by (simp add: engine_zero_def)

text \<open>Stopping an engine clears RUN in the last control word the device saw, marks the engine
  idle, and changes neither its queue nor any other engine.\<close>

theorem xdma_engine_stop_spec:
  fixes E :: env and e :: eref and s :: world
  defines "s' \<equiv> snd (xdma_engine_stop E (Some e) s)"
  shows "fst (xdma_engine_stop E (Some e) s) = Inr () \<and> \<not> hw_run (control_reg (get_eng s e)) (trace s')
    \<and> get_eng s' e = (get_eng s e)\<lparr>running := False\<rparr> \<and> xfers s' = xfers s
    \<and> (\<forall>e'. e' \<noteq> e \<longrightarrow> get_eng s' e' = get_eng s e')"
proof -
  obtain ws where "io_writes (trace s') = ws @ [(control_reg (get_eng s e), stop_word E)]"
    unfolding s'_def xdma_engine_stop_effect(5) by simp
  then have "\<not> hw_run (control_reg (get_eng s e)) (trace s')"
    by (simp add: hw_run_last run_bits)
  then show ?thesis by (simp add: s'_def xdma_engine_stop_effect)
qed

theorem xdma_engine_stop_spec_witness:
  "\<not> hw_run 4 (trace (snd (xdma_engine_stop env0 (Some (H2C 1)) (eng_write 1 (H2C 1) ''control'' world0))))"
  using xdma_engine_stop_spec [of env0 "H2C 1" "eng_write 1 (H2C 1) ''control'' world0"]
  by (simp add: control_reg_def ereg_offsets engine_zero_def del: world0_simps) (simp add: engine_zero_def)

section \<open>The trace only grows\<close>

lemma engine_status_read_trace: "\<exists>tr. trace (snd (engine_status_read E (Some e) c False s)) = trace s @ tr"
  by (simp add: engine_status_read.simps split_beta)

lemma engine_start_mode_config_trace:
  "\<exists>tr. trace (snd (engine_start_mode_config E (Some e) s)) = trace s @ tr"
  by (simp add: engine_start_mode_config.simps Let_def)

lemma engine_load_trace: "\<exists>tr. trace (engine_load E e x s) = trace s @ tr"
  by (cases "st_credit E (get_eng s e)") (simp_all add: engine_load_def Let_def)

lemma engine_start_trace: "\<exists>tr. trace (snd (engine_start E (Some e) s)) = trace s @ tr"
proof (cases "running (get_eng s e) \<or> transfer_list (get_eng s e) = []")
  case True
  then show ?thesis by (simp add: engine_start_refused)
next
  case False
  then obtain x xs where l: "\<not> running (get_eng s e)" "transfer_list (get_eng s e) = x # xs"
    by (meson neq_Nil_conv)
  let ?s1 = "engine_load E e x s"
  let ?s2 = "snd (engine_start_mode_config E (Some e) ?s1)"
  have "snd (engine_start E (Some e) s) = upd_eng e (\<lambda>g. g\<lparr>running := True\<rparr>)
      (snd (engine_status_read E (Some e) False False ?s2))"
    using l by (simp add: case_res_Inr [OF engine_start_mode_config_effect(1)]
        case_res_Inr [OF engine_status_read_effect(1)] engine_start.simps(2))
  then show ?thesis
    using engine_load_trace [of E e x s] engine_start_mode_config_trace [of E e ?s1]
      engine_status_read_trace [of E e False ?s2] by auto
qed

lemma xdma_engine_stop_dflags: "dflags (xdev (snd (xdma_engine_stop E (Some e) s))) = dflags (xdev s)"
  by (simp add: xdma_engine_stop.simps Let_def)

lemma engine_start_dflags: "dflags (xdev (snd (engine_start E (Some e) s))) = dflags (xdev s)"
proof (cases "running (get_eng s e) \<or> transfer_list (get_eng s e) = []")
  case True
  then show ?thesis by (simp add: engine_start_refused)
next
  case False
  then obtain x xs where l: "\<not> running (get_eng s e)" "transfer_list (get_eng s e) = x # xs"
    by (meson neq_Nil_conv)
  have a: "dflags (xdev (engine_load E e x s)) = dflags (xdev s)"
    by (cases "st_credit E (get_eng s e)") (simp_all add: engine_load_def Let_def)
  have b: "dflags (xdev (snd (engine_start_mode_config E (Some e) s))) = dflags (xdev s)" for s
    by (simp add: engine_start_mode_config.simps Let_def)
  have c: "dflags (xdev (snd (engine_status_read E (Some e) False False s))) = dflags (xdev s)" for s
    by (simp add: engine_status_read.simps split_beta)
  show ?thesis
    using l by (simp add: case_res_Inr [OF engine_start_mode_config_effect(1)]
        case_res_Inr [OF engine_status_read_effect(1)] engine_start.simps(2) a b c)
qed

end
