(* ===== verification/Service.thy ===== *)
theory Service
  imports Engine
begin

text \<open>
  Servicing an engine (\<open>libxdma.c\<close>, lines 786 to 1340): retiring completed transfers from the head
  of its queue, waking their owners, restarting or shutting the engine down, from the interrupt
  work item and from the polling loop.
\<close>

section \<open>Operations\<close>

fun engine_service_shutdown :: "env \<Rightarrow> eref option \<Rightarrow> world \<Rightarrow> unit res \<times> world" where
  "engine_service_shutdown E None s = (Inl EINVAL, s)"
| "engine_service_shutdown E (Some e) s =
     (case xdma_engine_stop E (Some e) s of
        (Inl rv, s) \<Rightarrow> (Inl rv, s)
      | (Inr _, s) \<Rightarrow> (Inr (), emit (WakeShutdown e) s))"

fun engine_transfer_completion ::
  "env \<Rightarrow> eref option \<Rightarrow> xref option \<Rightarrow> world \<Rightarrow> xref option \<times> world" where
  "engine_transfer_completion E None xo s = (None, s)"
| "engine_transfer_completion E (Some e) None s = (None, s)"
| "engine_transfer_completion E (Some e) (Some x) s =
     (let s = emit (WakeXfer x) s
      in case xcb (get_xfer s x) of
           Some cb \<Rightarrow> if last_in_request (get_xfer s x) then (Some x, io_done E cb None s) else (Some x, s)
         | None \<Rightarrow> (Some x, s))"

definition list_head :: "xref list \<Rightarrow> xref option" where
  "list_head xs = (case xs of [] \<Rightarrow> None | x # _ \<Rightarrow> Some x)"

text \<open>
  One round of the loop retires the head of the queue.  The loop re-reads the queue after the
  completion callback, so whether it ends depends on the callback; not returning is \<open>None\<close>.
\<close>

definition retire_head :: "env \<Rightarrow> eref \<Rightarrow> xref \<Rightarrow> world \<Rightarrow> world" where
  "retire_head E e x s =
     (let d = desc_num (get_xfer s x);
          s = upd_eng e (\<lambda>g. g\<lparr>transfer_list := tl (transfer_list g),
                               desc_dequeued := desc_dequeued g + d\<rparr>) s;
          s = upd_xfer x (\<lambda>t. t\<lparr>xstate := TRANSFER_STATE_COMPLETED\<rparr>) s
      in snd (engine_transfer_completion E (Some e) (Some x) s))"

partial_function (option) service_loop ::
  "env \<Rightarrow> eref \<Rightarrow> xref option \<Rightarrow> u32 \<Rightarrow> world \<Rightarrow> (xref option \<times> u32 \<times> world) option" where
  "service_loop E e xo n s =
     (case xo of
        None \<Rightarrow> Some (None, n, s)
      | Some x \<Rightarrow>
          let d = word_of_int (desc_num (get_xfer s x)) in
          if \<not> cyclic (get_xfer s x) \<and> d < n
          then let s = retire_head E e x s
               in service_loop E e (list_head (transfer_list (get_eng s e))) (n - d) s
          else Some (Some x, n, s))"

fun engine_service_transfer_list ::
  "env \<Rightarrow> eref option \<Rightarrow> xref option \<Rightarrow> u32 \<Rightarrow> world \<Rightarrow> (xref option \<times> u32 \<times> world) option" where
  "engine_service_transfer_list E None xo n s = Some (None, n, s)"
| "engine_service_transfer_list E (Some e) None n s = Some (None, n, s)"
| "engine_service_transfer_list E (Some e) (Some x) n s = service_loop E e (Some x) n s"

definition engine_err_handle :: "env \<Rightarrow> eref \<Rightarrow> xref \<Rightarrow> world \<Rightarrow> unit res \<times> world" where
  "engine_err_handle E e x s =
     (let s = (if status (get_eng s e) AND XDMA_STAT_BUSY \<noteq> 0 then snd (eng_read E e ''status'' s) else s);
          s = upd_xfer x (\<lambda>t. t\<lparr>xstate := TRANSFER_STATE_FAILED\<rparr>) s
      in xdma_engine_stop E (Some e) s)"

text \<open>Scanning the write-back results of the completed descriptors for an end of packet.\<close>

primrec eop_scan :: "env \<Rightarrow> nat \<Rightarrow> u64 \<Rightarrow> world \<Rightarrow> bool \<times> world" where
  "eop_scan E 0 p s = (False, s)"
| "eop_scan E (Suc n) p s =
     (let (v, s) = mem_read E p s
      in if v AND RX_STATUS_EOP \<noteq> 0 then (True, s) else eop_scan E n (p + 32) s)"

definition status_error :: "xdma_engine \<Rightarrow> bool" where
  "status_error g \<longleftrightarrow>
     edir g = DMA_FROM_DEVICE \<and> status g AND XDMA_STAT_C2H_ERR_MASK \<noteq> 0 \<or>
     edir g = DMA_TO_DEVICE \<and> status g AND XDMA_STAT_H2C_ERR_MASK \<noteq> 0"

definition final_eop :: "env \<Rightarrow> eref \<Rightarrow> xref \<Rightarrow> u32 \<Rightarrow> world \<Rightarrow> bool \<times> world" where
  "final_eop E e x n s =
     (let (eop, s) = eop_scan E (nat (sint n)) (res_virt (get_xfer s x)) s;
          s = upd_xfer x (\<lambda>t. t\<lparr>xflags := (if eop then xflags t OR XFER_FLAG_ST_C2H_EOP_RCVED
                                             else xflags t),
                                 desc_cmpl := sint (word_of_int (desc_cmpl t) + n)\<rparr>) s
      in if xflags (get_xfer s x) AND XFER_FLAG_ST_C2H_EOP_RCVED = 0 then (False, s)
         else let s = snd (engine_service_shutdown E (Some e) s);
                  s = upd_xfer x (\<lambda>t. t\<lparr>xstate := TRANSFER_STATE_COMPLETED\<rparr>) s
              in (True, upd_eng e (\<lambda>g. g\<lparr>desc_dequeued :=
                   desc_dequeued g + desc_cmpl (get_xfer s x)\<rparr>) s))"

text \<open>The verdict on the transfer the engine stopped on; \<open>False\<close> is the early return.\<close>

definition final_verdict :: "env \<Rightarrow> eref \<Rightarrow> xref \<Rightarrow> u32 \<Rightarrow> world \<Rightarrow> bool \<times> world" where
  "final_verdict E e x n s =
     (let g = get_eng s e; t = get_xfer s x
      in if status_error g then (True, snd (engine_err_handle E e x s))
         else if n < word_of_int (desc_num t)
         then if eop_flush g then final_eop E e x n s
              else (True, upd_eng e (\<lambda>g. g\<lparr>desc_dequeued := desc_dequeued g + desc_num t\<rparr>)
                     (upd_xfer x (\<lambda>t. t\<lparr>xstate := TRANSFER_STATE_FAILED, desc_cmpl := sint n\<rparr>) s))
         else (True, upd_eng e (\<lambda>g. g\<lparr>desc_dequeued := desc_dequeued g + desc_num t\<rparr>)
                (upd_xfer x (\<lambda>t. t\<lparr>xstate := TRANSFER_STATE_COMPLETED, desc_cmpl := desc_num t\<rparr>) s)))"

fun engine_service_final_transfer ::
  "env \<Rightarrow> eref option \<Rightarrow> xref option \<Rightarrow> u32 \<Rightarrow> world \<Rightarrow> xref option \<times> world" where
  "engine_service_final_transfer E None xo n s = (None, s)"
| "engine_service_final_transfer E (Some e) None n s = (None, s)"
| "engine_service_final_transfer E (Some e) (Some x) n s =
     (case final_verdict E e x n s of
        (False, s) \<Rightarrow> (None, s)
      | (True, s) \<Rightarrow>
          let s = upd_eng e (\<lambda>g. g\<lparr>transfer_list := tl (transfer_list g)\<rparr>) s
          in engine_transfer_completion E (Some e) (Some x) s)"

fun engine_service_perf :: "eref option \<Rightarrow> u32 \<Rightarrow> world \<Rightarrow> unit res \<times> world" where
  "engine_service_perf None n s = (Inl EINVAL, s)"
| "engine_service_perf (Some e) n s =
     (case xdma_perf (get_eng s e) of
        None \<Rightarrow> (Inr (), s)
      | Some p \<Rightarrow>
          let st = status (get_eng s e);
              p = (if st AND XDMA_STAT_DESC_COMPLETED \<noteq> 0 then p\<lparr>iterations := n\<rparr> else p);
              stop = (st AND XDMA_STAT_DESC_STOPPED \<noteq> 0);
              p = (if stop then p\<lparr>perf_stopped := 1\<rparr> else p);
              s = upd_eng e (\<lambda>g. g\<lparr>xdma_perf := Some p\<rparr>) s
          in (Inr (), if stop then emit (WakePerf e) s else s))"

fun engine_service_resume :: "env \<Rightarrow> eref option \<Rightarrow> world \<Rightarrow> unit res \<times> world" where
  "engine_service_resume E None s = (Inl EINVAL, s)"
| "engine_service_resume E (Some e) s =
     (let g = get_eng s e
      in if \<not> running g
         then if transfer_list g \<noteq> []
              then (case engine_start E (Some e) s of
                      (None, s) \<Rightarrow> (Inl EINVAL, s)
                    | (Some x, s) \<Rightarrow> (Inr (), s))
              else if shutdown g AND ENGINE_SHUTDOWN_REQUEST \<noteq> 0
              then (Inr (), emit (WakeShutdown e)
                     (upd_eng e (\<lambda>g. g\<lparr>shutdown := shutdown g OR ENGINE_SHUTDOWN_IDLE\<rparr>) s))
              else (Inr (), s)
         else if transfer_list g = [] then (Inr (), snd (engine_service_shutdown E (Some e) s))
         else (Inr (), s))"

text \<open>
  \<open>engine_service\<close> up to the point where the number of completed descriptors is known: the status
  read, the shutdown of an engine that is no longer busy, the count from write-back or register.
\<close>

definition service_count :: "env \<Rightarrow> eref \<Rightarrow> u32 \<Rightarrow> world \<Rightarrow> u32 \<times> world" where
  "service_count E e wb s =
     (let n = wb AND WB_COUNT_MASK; err = wb AND WB_ERR_MASK;
          s = (if n = 0 \<or> err \<noteq> 0 then snd (engine_status_read E (Some e) True False s) else s);
          g = get_eng s e;
          s = (if running g \<and> status g AND XDMA_STAT_BUSY = 0 \<or> \<not> eop_flush g \<and> n \<noteq> 0
               then snd (engine_service_shutdown E (Some e) s) else s)
      in if n = 0 then eng_read E e ''completed_desc_count'' s else (n, s))"

text \<open>The retirement of transfers for a non-zero count.\<close>

definition service_retire :: "env \<Rightarrow> eref \<Rightarrow> u32 \<Rightarrow> world \<Rightarrow> world option" where
  "service_retire E e n s =
     (let xo = list_head (transfer_list (get_eng s e));
          s = (if xo = None then s else snd (engine_service_perf (Some e) n s));
          n = n - word_of_int (desc_dequeued (get_eng s e))
      in do {
        (xo, n, s) \<leftarrow> engine_service_transfer_list E (Some e) xo n s;
        let s = snd (engine_service_final_transfer E (Some e) xo n s);
        Some (if eop_flush (get_eng s e) then s else snd (engine_service_resume E (Some e) s))
      })"

fun engine_service :: "env \<Rightarrow> eref option \<Rightarrow> u32 \<Rightarrow> world \<Rightarrow> (unit res \<times> world) option" where
  "engine_service E None wb s = Some (Inl EINVAL, s)"
| "engine_service E (Some e) wb s =
     (if \<not> running (get_eng s e)
      then Some (Inr (), snd (engine_status_read E (Some e) True False s))
      else let (n, s) = service_count E e wb s;
               rv = (if wb AND WB_ERR_MASK \<noteq> 0 then Inl EPERM else Inr ())
           in if n = 0 then Some (rv, s)
              else do { s \<leftarrow> service_retire E e n s; Some (rv, s) })"

definition engine_service_work :: "env \<Rightarrow> eref \<Rightarrow> world \<Rightarrow> world option" where
  "engine_service_work E e s =
     (if emagic (get_eng s e) \<noteq> MAGIC_ENGINE then Some s
      else do {
        (rv, s) \<leftarrow> engine_service E (Some e) 0 s;
        case rv of
          Inl _ \<Rightarrow> Some s
        | Inr _ \<Rightarrow>
            Some (if msix_enabled (xdev s)
                  then eng_write (interrupt_enable_mask_value (get_eng s e)) e
                         ''interrupt_enable_mask_w1s'' s
                  else channel_interrupts_enable (irq_bitmask (get_eng s e)) s)
      })"

partial_function (option) wb_loop :: "env \<Rightarrow> u64 \<Rightarrow> u32 \<Rightarrow> world \<Rightarrow> (u32 \<times> world) option" where
  "wb_loop E p expected s =
     (if expected = 0 then Some (0, s)
      else let w = fst (mem_read E p s); s = snd (mem_read E p s);
               s = (if w \<noteq> 0 then mem_write 0 p s else s)
           in if w AND WB_ERR_MASK \<noteq> 0 \<or> expected \<le> w then Some (w, s)
              else if time_after E (trace s)
              then Some (if expected < w AND WB_COUNT_MASK then expected OR WB_ERR_MASK else w, s)
              else wb_loop E p expected s)"

fun engine_service_wb_monitor :: "env \<Rightarrow> eref option \<Rightarrow> u32 \<Rightarrow> world \<Rightarrow> (u32 \<times> world) option" where
  "engine_service_wb_monitor E None expected s = Some (- 22, s)"
| "engine_service_wb_monitor E (Some e) expected s =
     wb_loop E (poll_mode_addr_virt (get_eng s e)) expected s"

fun engine_service_poll :: "env \<Rightarrow> eref option \<Rightarrow> u32 \<Rightarrow> world \<Rightarrow> (unit res \<times> world) option" where
  "engine_service_poll E None expected s = Some (Inl EINVAL, s)"
| "engine_service_poll E (Some e) expected s =
     (if emagic (get_eng s e) \<noteq> MAGIC_ENGINE then Some (Inl EINVAL, s)
      else do {
        (wb, s) \<leftarrow> engine_service_wb_monitor E (Some e) expected s;
        if wb = 0 then Some (Inr (), s) else engine_service E (Some e) wb s
      })"

declare service_loop.simps [code] wb_loop.simps [code]

section \<open>The contract of the completion callback\<close>

text \<open>
  The callback of an asynchronous request runs inside the service routine.  What servicing relies
  on: it may release descriptors and their account and add to the trace, but leaves the queues and
  every other field of the engines, and the transfers, as they are, and starts or stops no engine.
\<close>

definition eng_core :: "xdma_engine \<Rightarrow> xdma_engine" where
  "eng_core g = g\<lparr>desc_mem := (\<lambda>_. desc_zero), desc_used := 0\<rparr>"

definition release_only :: "world \<Rightarrow> world \<Rightarrow> bool" where
  "release_only s s' \<longleftrightarrow> xfers s' = xfers s \<and> dflags (xdev s') = dflags (xdev s) \<and> (\<forall>e. eng_core (get_eng s' e) = eng_core (get_eng s e))
     \<and> (\<exists>tr. trace s' = trace s @ tr \<and> io_writes tr = [])"

lemma release_only_refl: "release_only s s"
  by (simp add: release_only_def)

lemma release_only_trans:
  "release_only s s' \<Longrightarrow> release_only s' s'' \<Longrightarrow> release_only s s''"
  unfolding release_only_def by auto

lemma release_only_emit: "io_writes [ev] = [] \<Longrightarrow> release_only s (emit ev s)"
  by (simp add: release_only_def)

lemma eng_coreD:
  assumes "eng_core g' = eng_core g"
  shows "transfer_list g' = transfer_list g" "running g' = running g" "status g' = status g"
    "shutdown g' = shutdown g" "desc_dequeued g' = desc_dequeued g" "eop_flush g' = eop_flush g"
    "edir g' = edir g" "regs g' = regs g" "emagic g' = emagic g" "c2h_st g' = c2h_st g"
  using arg_cong [OF assms, of transfer_list] arg_cong [OF assms, of running]
    arg_cong [OF assms, of status] arg_cong [OF assms, of shutdown]
    arg_cong [OF assms, of desc_dequeued] arg_cong [OF assms, of eop_flush]
    arg_cong [OF assms, of edir] arg_cong [OF assms, of regs] arg_cong [OF assms, of emagic]
    arg_cong [OF assms, of streaming]
  by (simp_all add: eng_core_def c2h_st_def)

lemma release_onlyD:
  assumes "release_only s s'"
  shows "eng_core (get_eng s' e) = eng_core (get_eng s e)" "xfers s' = xfers s"
    "get_xfer s' x = get_xfer s x" "dflags (xdev s') = dflags (xdev s)"
  using assms by (simp_all add: release_only_def get_xfer_def)

locale completion_callback =
  fixes E :: env
  assumes io_done_release: "release_only s (io_done E cb err s)"
begin

lemma completion_release:
  "fst (engine_transfer_completion E (Some e) (Some x) s) = Some x"
  "release_only s (snd (engine_transfer_completion E (Some e) (Some x) s))"
proof -
  have "release_only s (emit (WakeXfer x) s)" by (rule release_only_emit) simp
  then show "release_only s (snd (engine_transfer_completion E (Some e) (Some x) s))"
    using release_only_trans io_done_release
    by (auto simp: Let_def split: option.split)
qed (simp add: Let_def split: option.split)

lemma completion_wakes:
  "\<exists>tr. trace (snd (engine_transfer_completion E (Some e) (Some x) s)) = trace s @ tr
        \<and> io_writes tr = [] \<and> WakeXfer x \<in> set tr"
proof -
  have "\<exists>tr. trace (io_done E cb err (emit (WakeXfer x) s)) = trace s @ WakeXfer x # tr
      \<and> io_writes tr = []" for cb err
    using io_done_release [of "emit (WakeXfer x) s" cb err] by (auto simp: release_only_def)
  then show ?thesis
    by (cases "xcb (get_xfer s x)") (fastforce simp: Let_def)+
qed

end

declare engine_transfer_completion.simps(3) [simp del]

section \<open>Which transfers a service run retires\<close>

text \<open>
  The abstract view of the loop: given the count of completed descriptors, the queue splits into
  the transfers known to be complete, the count left over, and the rest.
\<close>

fun split_done :: "(xref \<Rightarrow> xdma_transfer) \<Rightarrow> u32 \<Rightarrow> xref list \<Rightarrow> xref list \<times> u32 \<times> xref list" where
  "split_done T n [] = ([], n, [])"
| "split_done T n (x # xs) =
     (let d = word_of_int (desc_num (T x))
      in if \<not> cyclic (T x) \<and> d < n
         then let (ds, n', rest) = split_done T (n - d) xs in (x # ds, n', rest)
         else ([], n, x # xs))"

definition set_done :: "xref set \<Rightarrow> (xref \<Rightarrow> xdma_transfer) \<Rightarrow> xref \<Rightarrow> xdma_transfer" where
  "set_done X T = (\<lambda>y. if y \<in> X then (T y)\<lparr>xstate := TRANSFER_STATE_COMPLETED\<rparr> else T y)"

definition retired :: "eref \<Rightarrow> xref list \<Rightarrow> xref list \<Rightarrow> world \<Rightarrow> world \<Rightarrow> bool" where
  "retired e ds rest s s' \<longleftrightarrow> xfers s' = set_done (set ds) (xfers s)
     \<and> eng_core (get_eng s' e) = eng_core ((get_eng s e)\<lparr>transfer_list := rest,
          desc_dequeued := desc_dequeued (get_eng s e) + sum_list (map (\<lambda>x. desc_num (xfers s x)) ds)\<rparr>)
     \<and> (\<forall>e'. e' \<noteq> e \<longrightarrow> eng_core (get_eng s' e') = eng_core (get_eng s e'))
     \<and> (\<exists>tr. trace s' = trace s @ tr \<and> io_writes tr = [] \<and> WakeXfer ` set ds \<subseteq> set tr)"

lemma set_done_simps [simp]:
  "desc_num (set_done X T y) = desc_num (T y)" "cyclic (set_done X T y) = cyclic (T y)"
  "set_done X (set_done {y} T) = set_done (insert y X) T"
  by (auto simp: set_done_def fun_eq_iff)

lemma retired_refl: "retired e [] (transfer_list (get_eng s e)) s s"
  by (simp add: retired_def set_done_def)

lemma split_done_cong:
  "(\<And>x. desc_num (T x) = desc_num (T' x) \<and> cyclic (T x) = cyclic (T' x)) \<Longrightarrow>
   split_done T n xs = split_done T' n xs"
  by (induction T n xs rule: split_done.induct) (simp_all add: Let_def)

lemma split_done_set_done: "split_done (set_done X T) n xs = split_done T n xs"
  by (rule split_done_cong) (simp add: set_done_def)

lemma split_done_append:
  "split_done T n xs = (ds, n', rest) \<Longrightarrow> xs = ds @ rest"
  by (induction T n xs arbitrary: ds n' rest rule: split_done.induct)
    (auto simp: Let_def split: if_splits prod.splits)

lemma eng_core_commute:
  "eng_core (g\<lparr>transfer_list := l\<rparr>) = (eng_core g)\<lparr>transfer_list := l\<rparr>"
  "eng_core (g\<lparr>desc_dequeued := d\<rparr>) = (eng_core g)\<lparr>desc_dequeued := d\<rparr>"
  "eng_core (g\<lparr>running := b\<rparr>) = (eng_core g)\<lparr>running := b\<rparr>"
  "eng_core (g\<lparr>status := v\<rparr>) = (eng_core g)\<lparr>status := v\<rparr>"
  "eng_core (g\<lparr>shutdown := v\<rparr>) = (eng_core g)\<lparr>shutdown := v\<rparr>"
  "eng_core (g\<lparr>xdma_perf := p\<rparr>) = (eng_core g)\<lparr>xdma_perf := p\<rparr>"
  by (simp_all add: eng_core_def)

context completion_callback
begin

lemma retire_head_effect:
  fixes s e x
  defines "s' \<equiv> retire_head E e x s"
  shows "xfers s' = set_done {x} (xfers s)"
    and "eng_core (get_eng s' e) = eng_core ((get_eng s e)\<lparr>transfer_list := tl (transfer_list (get_eng s e)),
           desc_dequeued := desc_dequeued (get_eng s e) + desc_num (xfers s x)\<rparr>)"
    and "e' \<noteq> e \<Longrightarrow> eng_core (get_eng s' e') = eng_core (get_eng s e')"
    and "\<exists>tr. trace s' = trace s @ tr \<and> io_writes tr = [] \<and> WakeXfer x \<in> set tr"
proof -
  define s1 where "s1 = upd_xfer x (\<lambda>t. t\<lparr>xstate := TRANSFER_STATE_COMPLETED\<rparr>)
      (upd_eng e (\<lambda>g. g\<lparr>transfer_list := tl (transfer_list g),
                        desc_dequeued := desc_dequeued g + desc_num (xfers s x)\<rparr>) s)"
  have s': "s' = snd (engine_transfer_completion E (Some e) (Some x) s1)"
    by (simp add: s'_def retire_head_def s1_def get_xfer_def Let_def)
  note rel = release_onlyD [OF completion_release(2) [of s1 e x], folded s']
  have "xfers s1 = set_done {x} (xfers s)"
    by (auto simp: s1_def upd_xfer_def set_done_def fun_eq_iff)
  then show "xfers s' = set_done {x} (xfers s)" by (simp add: rel)
  show "eng_core (get_eng s' e) = eng_core ((get_eng s e)\<lparr>transfer_list := tl (transfer_list (get_eng s e)),
           desc_dequeued := desc_dequeued (get_eng s e) + desc_num (xfers s x)\<rparr>)"
    "e' \<noteq> e \<Longrightarrow> eng_core (get_eng s' e') = eng_core (get_eng s e')"
    by (simp_all add: rel s1_def)
  show "\<exists>tr. trace s' = trace s @ tr \<and> io_writes tr = [] \<and> WakeXfer x \<in> set tr"
    using completion_wakes [of e x s1] by (simp add: s' s1_def)
qed

lemma service_loop_refines:
  assumes "split_done (xfers s) n (transfer_list (get_eng s e)) = (ds, n', rest)"
  shows "\<exists>s'. service_loop E e (list_head (transfer_list (get_eng s e))) n s = Some (list_head rest, n', s')
           \<and> retired e ds rest s s'"
  using assms
proof (induction "transfer_list (get_eng s e)" arbitrary: s n ds)
  case Nil
  then have "ds = []" "n' = n" "rest = transfer_list (get_eng s e)" by auto
  with retired_refl [of e s] Nil(1) [symmetric] show ?case
    by (subst service_loop.simps) (auto simp: list_head_def)
next
  case (Cons x xs)
  note l = Cons.hyps(2) [symmetric]
  let ?d = "word_of_int (desc_num (xfers s x)) :: u32"
  show ?case
  proof (cases "\<not> cyclic (xfers s x) \<and> ?d < n")
    case False
    then have "ds = []" "n' = n" "rest = transfer_list (get_eng s e)"
      using Cons.prems by (auto simp: l Let_def)
    moreover have "service_loop E e (list_head (transfer_list (get_eng s e))) n s =
        Some (list_head (transfer_list (get_eng s e)), n, s)"
      using False by (subst service_loop.simps) (auto simp: list_head_def l Let_def get_xfer_def)
    ultimately show ?thesis using retired_refl [of e s] by blast
  next
    case True
    let ?s = "retire_head E e x s"
    note eff = retire_head_effect [where s = s and e = e and x = x]
    from True Cons.prems obtain ds' where ds: "ds = x # ds'" "split_done (xfers s) (n - ?d) xs = (ds', n', rest)"
      by (auto simp: l Let_def split: prod.splits)
    have xs: "transfer_list (get_eng ?s e) = xs"
      using eng_coreD(1) [OF eff(2)] by (simp add: l)
    from ds(2) have "split_done (xfers ?s) (n - ?d) (transfer_list (get_eng ?s e)) = (ds', n', rest)"
      by (simp add: xs eff(1) split_done_set_done)
    from Cons.hyps(1) [OF xs [symmetric] this] obtain s' where
      s': "service_loop E e (list_head (transfer_list (get_eng ?s e))) (n - ?d) ?s = Some (list_head rest, n', s')"
        "retired e ds' rest ?s s'" by blast
    have "service_loop E e (list_head (transfer_list (get_eng s e))) n s = Some (list_head rest, n', s')"
      using True s'(1) by (subst service_loop.simps) (simp add: list_head_def l Let_def get_xfer_def)
    moreover have "retired e ds rest s s'"
    proof -
      have "desc_dequeued (get_eng ?s e) = desc_dequeued (get_eng s e) + desc_num (xfers s x)"
        using eng_coreD(5) [OF eff(2)] by simp
      then show ?thesis
        using s'(2) eff unfolding retired_def ds(1)
        by (auto simp: eng_core_commute add.assoc) blast
    qed
    ultimately show ?thesis by blast
  qed
qed

end

section \<open>The parts of a service run\<close>

lemma engine_service_shutdown_effect:
  "fst (engine_service_shutdown E (Some e) s) = Inr ()"
  "get_eng (snd (engine_service_shutdown E (Some e) s)) e' =
     (if e' = e then (get_eng s e)\<lparr>running := False\<rparr> else get_eng s e')"
  "xfers (snd (engine_service_shutdown E (Some e) s)) = xfers s"
  "\<exists>tr. trace (snd (engine_service_shutdown E (Some e) s)) = trace s @ tr"
  by (simp_all add: case_res_Inr [OF xdma_engine_stop_effect(1)] xdma_engine_stop_effect)

declare engine_service_shutdown.simps(2) [simp del]

lemma service_count_effect:
  "\<exists>v b. get_eng (snd (service_count E e wb s)) e = (get_eng s e)\<lparr>status := v, running := b\<rparr>"
  "xfers (snd (service_count E e wb s)) = xfers s"
  "\<exists>tr. trace (snd (service_count E e wb s)) = trace s @ tr"
proof -
  let ?n = "wb AND WB_COUNT_MASK"
  define s1 where "s1 = (if ?n = 0 \<or> wb AND WB_ERR_MASK \<noteq> 0
      then snd (engine_status_read E (Some e) True False s) else s)"
  define s2 where "s2 = (if running (get_eng s1 e) \<and> status (get_eng s1 e) AND XDMA_STAT_BUSY = 0 \<or>
      \<not> eop_flush (get_eng s1 e) \<and> ?n \<noteq> 0 then snd (engine_service_shutdown E (Some e) s1) else s1)"
  have r: "service_count E e wb s = (if ?n = 0 then eng_read E e ''completed_desc_count'' s2 else (?n, s2))"
    by (simp add: service_count_def s1_def s2_def Let_def)
  have s1: "\<exists>v. get_eng s1 e = (get_eng s e)\<lparr>status := v\<rparr>" "xfers s1 = xfers s" "\<exists>tr. trace s1 = trace s @ tr"
    unfolding s1_def using engine_status_read_effect(2) [of E e True s] engine_status_read_effect(4)
      engine_status_read_trace by (auto intro: exI [of _ "status (get_eng s e)"])
  have s2: "\<exists>b. get_eng s2 e = (get_eng s1 e)\<lparr>running := b\<rparr>" "xfers s2 = xfers s1"
    "\<exists>tr. trace s2 = trace s1 @ tr"
    unfolding s2_def using engine_service_shutdown_effect [of E e s1]
    by (auto intro: exI [of _ "running (get_eng s1 e)"])
  show "\<exists>v b. get_eng (snd (service_count E e wb s)) e = (get_eng s e)\<lparr>status := v, running := b\<rparr>"
    using s1(1) s2(1) by (simp add: r) metis
  show "xfers (snd (service_count E e wb s)) = xfers s" by (simp add: r s1 s2)
  show "\<exists>tr. trace (snd (service_count E e wb s)) = trace s @ tr" using s1(3) s2(3) by (auto simp: r)
qed

lemma engine_service_perf_effect:
  "fst (engine_service_perf (Some e) n s) = Inr ()"
  "\<exists>p. get_eng (snd (engine_service_perf (Some e) n s)) e = (get_eng s e)\<lparr>xdma_perf := p\<rparr>"
  "xfers (snd (engine_service_perf (Some e) n s)) = xfers s"
  "\<exists>tr. trace (snd (engine_service_perf (Some e) n s)) = trace s @ tr"
  by (auto simp: Let_def split: option.split intro: exI [of _ "xdma_perf (get_eng s e)"])

lemma engine_service_resume_effect:
  fixes E :: env and s :: world and e :: eref
  defines "s' \<equiv> snd (engine_service_resume E (Some e) s)"
  shows "transfer_list (get_eng s' e) = transfer_list (get_eng s e)"
    and "running (get_eng s' e) \<longleftrightarrow> transfer_list (get_eng s e) \<noteq> []"
    and "xfers s' = xfers s" and "\<exists>tr. trace s' = trace s @ tr"
    and "fst (engine_service_resume E (Some e) s) = Inr ()"
proof -
  let ?g = "get_eng s e"
  have "transfer_list (get_eng s' e) = transfer_list ?g \<and> (running (get_eng s' e) \<longleftrightarrow> transfer_list ?g \<noteq> [])
      \<and> xfers s' = xfers s \<and> (\<exists>tr. trace s' = trace s @ tr)
      \<and> fst (engine_service_resume E (Some e) s) = Inr ()"
  proof (cases "running ?g \<or> transfer_list ?g = []")
    case True
    then show ?thesis using engine_service_shutdown_effect [of E e s] by (auto simp: s'_def Let_def)
  next
    case False
    then obtain x xs where l: "\<not> running ?g" "transfer_list ?g = x # xs" by (meson neq_Nil_conv)
    note st = engine_start_effect [OF l]
    have r: "engine_service_resume E (Some e) s = (Inr (), snd (engine_start E (Some e) s))"
      using l st(1) [of E] by (auto simp: Let_def split: prod.split option.split)
    show ?thesis using st(2,4) [of E] engine_start_trace [of E e s] l
      unfolding s'_def r by auto
  qed
  then show "transfer_list (get_eng s' e) = transfer_list (get_eng s e)"
    "running (get_eng s' e) \<longleftrightarrow> transfer_list (get_eng s e) \<noteq> []"
    "xfers s' = xfers s" "\<exists>tr. trace s' = trace s @ tr"
    "fst (engine_service_resume E (Some e) s) = Inr ()" by blast+
qed

declare engine_service_resume.simps(2) [simp del] engine_service_perf.simps(2) [simp del]

definition fin_state :: "xdma_engine \<Rightarrow> xdma_transfer \<Rightarrow> u32 \<Rightarrow> transfer_state" where
  "fin_state g t k = (if status_error g \<or> k < word_of_int (desc_num t)
     then TRANSFER_STATE_FAILED else TRANSFER_STATE_COMPLETED)"

lemma final_verdict_effect:
  assumes "\<not> eop_flush (get_eng s e)"
  shows "fst (final_verdict E e x k s)"
    and "\<exists>c. xfers (snd (final_verdict E e x k s)) =
           (xfers s)(x := (xfers s x)\<lparr>xstate := fin_state (get_eng s e) (xfers s x) k, desc_cmpl := c\<rparr>)"
    and "transfer_list (get_eng (snd (final_verdict E e x k s)) e) = transfer_list (get_eng s e)"
    and "eop_flush (get_eng (snd (final_verdict E e x k s)) e) = eop_flush (get_eng s e)"
    and "\<exists>tr. trace (snd (final_verdict E e x k s)) = trace s @ tr"
proof -
  have same: "t\<lparr>xstate := v\<rparr> = t\<lparr>xstate := v, desc_cmpl := desc_cmpl t\<rparr>" for t v by simp
  show "fst (final_verdict E e x k s)"
    "transfer_list (get_eng (snd (final_verdict E e x k s)) e) = transfer_list (get_eng s e)"
    "eop_flush (get_eng (snd (final_verdict E e x k s)) e) = eop_flush (get_eng s e)"
    "\<exists>tr. trace (snd (final_verdict E e x k s)) = trace s @ tr"
    using assms by (auto simp: final_verdict_def Let_def engine_err_handle_def xdma_engine_stop_effect)
  show "\<exists>c. xfers (snd (final_verdict E e x k s)) =
           (xfers s)(x := (xfers s x)\<lparr>xstate := fin_state (get_eng s e) (xfers s x) k, desc_cmpl := c\<rparr>)"
  proof (cases "status_error (get_eng s e)")
    case True
    then have "xfers (snd (final_verdict E e x k s)) =
        (xfers s)(x := (xfers s x)\<lparr>xstate := TRANSFER_STATE_FAILED\<rparr>)"
      by (simp add: final_verdict_def engine_err_handle_def xdma_engine_stop_effect upd_xfer_def Let_def)
    with True show ?thesis
      by (intro exI [of _ "desc_cmpl (xfers s x)"]) (simp add: fin_state_def)
  next
    case False
    with assms show ?thesis
      by (auto simp: final_verdict_def fin_state_def upd_xfer_def get_xfer_def Let_def)
  qed
qed

context completion_callback
begin

lemma final_transfer_effect:
  assumes "\<not> eop_flush (get_eng s e)" and "transfer_list (get_eng s e) = y # ys"
  shows "\<exists>s'. snd (engine_service_final_transfer E (Some e) (Some y) k s) = s'
    \<and> transfer_list (get_eng s' e) = ys \<and> \<not> eop_flush (get_eng s' e)
    \<and> (\<exists>c. xfers s' = (xfers s)(y := (xfers s y)\<lparr>
             xstate := fin_state (get_eng s e) (xfers s y) k, desc_cmpl := c\<rparr>))
    \<and> (\<exists>tr. trace s' = trace s @ tr \<and> WakeXfer y \<in> set tr)"
proof -
  note v = final_verdict_effect [OF assms(1), of E y k]
  define s1 where "s1 = upd_eng e (\<lambda>g. g\<lparr>transfer_list := tl (transfer_list g)\<rparr>)
      (snd (final_verdict E e y k s))"
  have r: "engine_service_final_transfer E (Some e) (Some y) k s =
      engine_transfer_completion E (Some e) (Some y) s1"
    using v(1) by (cases "final_verdict E e y k s") (simp add: s1_def Let_def)
  let ?s = "snd (engine_transfer_completion E (Some e) (Some y) s1)"
  note rel = release_onlyD [OF completion_release(2) [of s1 e y]]
  have "transfer_list (get_eng ?s e) = ys" "\<not> eop_flush (get_eng ?s e)"
    using eng_coreD(1,6) [OF rel(1) [of e]] v(3,4) assms by (simp_all add: s1_def)
  moreover have "\<exists>tr. trace ?s = trace s @ tr \<and> WakeXfer y \<in> set tr"
    using completion_wakes [of e y s1] v(5) by (auto simp: s1_def)
  moreover have "\<exists>c. xfers ?s = (xfers s)(y := (xfers s y)\<lparr>
             xstate := fin_state (get_eng s e) (xfers s y) k, desc_cmpl := c\<rparr>)"
    using v(2) rel(2) by (simp add: s1_def)
  ultimately show ?thesis unfolding r by blast
qed

lemma service_retire_effect:
  assumes "\<not> eop_flush (get_eng s e)"
    and "split_done (xfers s) (n - word_of_int (desc_dequeued (get_eng s e))) (transfer_list (get_eng s e))
         = (ds, k, rest)"
  shows "\<exists>s'. service_retire E e n s = Some s' \<and> transfer_list (get_eng s' e) = tl rest
    \<and> (running (get_eng s' e) \<longleftrightarrow> tl rest \<noteq> [])
    \<and> (\<forall>x. xstate (xfers s' x) =
          (if rest \<noteq> [] \<and> x = hd rest then fin_state (get_eng s e) (xfers s x) k
           else if x \<in> set ds then TRANSFER_STATE_COMPLETED else xstate (xfers s x)))
    \<and> (\<exists>tr. trace s' = trace s @ tr \<and> (\<forall>x \<in> set ds \<union> set (take 1 rest). WakeXfer x \<in> set tr))"
proof -
  let ?xo = "list_head (transfer_list (get_eng s e))"
  define s1 where "s1 = (if ?xo = None then s else snd (engine_service_perf (Some e) n s))"
  have "\<exists>p. get_eng s1 e = (get_eng s e)\<lparr>xdma_perf := p\<rparr>"
  proof (cases "?xo = None")
    case True
    then have "get_eng s1 e = (get_eng s e)\<lparr>xdma_perf := xdma_perf (get_eng s e)\<rparr>" by (simp add: s1_def)
    then show ?thesis ..
  next
    case False
    then show ?thesis using engine_service_perf_effect(2) [of e n s] by (auto simp: s1_def)
  qed
  then obtain p where g1: "get_eng s1 e = (get_eng s e)\<lparr>xdma_perf := p\<rparr>" ..
  have s1: "xfers s1 = xfers s" "\<exists>tr. trace s1 = trace s @ tr"
    using engine_service_perf_effect(3,4) [of e n s] by (simp_all add: s1_def)
  note s1 = g1 s1
  let ?n = "n - word_of_int (desc_dequeued (get_eng s e))"
  from assms(2) have "split_done (xfers s1) ?n (transfer_list (get_eng s1 e)) = (ds, k, rest)"
    by (simp add: s1)
  from service_loop_refines [OF this] obtain s2 where s2:
    "service_loop E e (list_head (transfer_list (get_eng s1 e))) ?n s1 = Some (list_head rest, k, s2)"
    "retired e ds rest s1 s2" by blast
  note ret = s2(2) [unfolded retired_def]
  have tl: "engine_service_transfer_list E (Some e) ?xo ?n s1 = Some (list_head rest, k, s2)"
  proof (cases "transfer_list (get_eng s e)")
    case Nil
    have "service_loop E e None ?n s1 = Some (None, ?n, s1)" by (subst service_loop.simps) simp
    with Nil s2(1) show ?thesis by (simp add: list_head_def s1)
  next
    case (Cons x xs)
    with s2(1) show ?thesis by (simp add: list_head_def s1)
  qed
  define s3 where "s3 = snd (engine_service_final_transfer E (Some e) (list_head rest) k s2)"
  have g2: "transfer_list (get_eng s2 e) = rest" "\<not> eop_flush (get_eng s2 e)"
    "status_error (get_eng s2 e) = status_error (get_eng s e)"
    using eng_coreD [OF conjunct1 [OF conjunct2 [OF ret]]] assms(1)
    by (simp_all add: s1 status_error_def)
  have s3: "transfer_list (get_eng s3 e) = tl rest \<and> \<not> eop_flush (get_eng s3 e)
      \<and> (\<forall>x. xstate (xfers s3 x) =
          (if rest \<noteq> [] \<and> x = hd rest then fin_state (get_eng s e) (xfers s x) k
           else if x \<in> set ds then TRANSFER_STATE_COMPLETED else xstate (xfers s x)))
      \<and> (\<exists>tr. trace s3 = trace s @ tr \<and> (\<forall>x \<in> set ds \<union> set (take 1 rest). WakeXfer x \<in> set tr))"
  proof (cases rest)
    case Nil
    then show ?thesis using g2 ret s1(3) by (force simp: s3_def list_head_def s1 set_done_def)
  next
    case (Cons y ys)
    have f: "fin_state (get_eng s2 e) (xfers s2 y) k = fin_state (get_eng s e) (xfers s y) k"
      using ret g2(3) by (simp add: fin_state_def s1)
    have "\<exists>tr. trace s3 = trace s @ tr \<and> (\<forall>x \<in> set ds \<union> set (take 1 rest). WakeXfer x \<in> set tr)"
      using final_transfer_effect [OF g2(2), of y ys k] g2(1) ret s1(3) Cons
      by (fastforce simp: s3_def list_head_def)
    then show ?thesis
      using final_transfer_effect [OF g2(2), of y ys k] g2(1) ret Cons f
      by (auto simp: s3_def list_head_def s1 set_done_def)
  qed
  note res = engine_service_resume_effect [where E = E and e = e and s = s3]
  have "service_retire E e n s = Some (snd (engine_service_resume E (Some e) s3))"
    unfolding service_retire_def Let_def s1_def [symmetric]
    using tl s3 by (simp add: s1 s3_def [symmetric])
  then show ?thesis using s3 res by auto
qed

end

section \<open>Properties\<close>

text \<open>Requests of the synchronous interface register no callback.\<close>

definition sync_env :: "env \<Rightarrow> env" where
  "sync_env E = E\<lparr>io_done := (\<lambda>_ _ s. s)\<rparr>"

interpretation sync: completion_callback "sync_env E" for E
  by unfold_locales (simp add: sync_env_def release_only_refl)

lemma engine_service_outcome:
  assumes "completion_callback E" and "running (get_eng s e)" and "\<not> eop_flush (get_eng s e)"
    and "service_count E e wb s = (n, s1)" and "n \<noteq> 0"
    and "split_done (xfers s) (n - word_of_int (desc_dequeued (get_eng s e))) (transfer_list (get_eng s e))
         = (ds, k, rest)"
  shows "\<exists>s'. engine_service E (Some e) wb s =
        Some (if wb AND WB_ERR_MASK \<noteq> 0 then Inl EPERM else Inr (), s')
    \<and> transfer_list (get_eng s e) = ds @ rest \<and> transfer_list (get_eng s' e) = tl rest
    \<and> (running (get_eng s' e) \<longleftrightarrow> tl rest \<noteq> [])
    \<and> (\<forall>x. xstate (xfers s' x) =
          (if rest \<noteq> [] \<and> x = hd rest then fin_state (get_eng s1 e) (xfers s x) k
           else if x \<in> set ds then TRANSFER_STATE_COMPLETED else xstate (xfers s x)))
    \<and> (\<exists>tr. trace s' = trace s @ tr \<and> (\<forall>x \<in> set ds \<union> set (take 1 rest). WakeXfer x \<in> set tr))"
proof -
  obtain v b where c: "get_eng s1 e = (get_eng s e)\<lparr>status := v, running := b\<rparr>" "xfers s1 = xfers s"
    and "\<exists>tr. trace s1 = trace s @ tr"
    using service_count_effect [of E e wb s] assms(4) by auto
  then obtain tr1 where tr1: "trace s1 = trace s @ tr1" by blast
  have pre: "\<not> eop_flush (get_eng s1 e)"
    "split_done (xfers s1) (n - word_of_int (desc_dequeued (get_eng s1 e))) (transfer_list (get_eng s1 e))
     = (ds, k, rest)"
    using assms(3,6) by (simp_all add: c)
  from completion_callback.service_retire_effect [OF assms(1) pre] obtain s' tr where s':
    "service_retire E e n s1 = Some s'" "transfer_list (get_eng s' e) = tl rest"
    "running (get_eng s' e) \<longleftrightarrow> tl rest \<noteq> []"
    "\<forall>x. xstate (xfers s' x) = (if rest \<noteq> [] \<and> x = hd rest then fin_state (get_eng s1 e) (xfers s1 x) k
           else if x \<in> set ds then TRANSFER_STATE_COMPLETED else xstate (xfers s1 x))"
    "trace s' = trace s1 @ tr" "\<forall>x \<in> set ds \<union> set (take 1 rest). WakeXfer x \<in> set tr"
    by blast
  have "engine_service E (Some e) wb s =
        Some (if wb AND WB_ERR_MASK \<noteq> 0 then Inl EPERM else Inr (), s')"
    using assms(2,4,5) s'(1) by simp
  moreover have "\<exists>tr. trace s' = trace s @ tr \<and> (\<forall>x \<in> set ds \<union> set (take 1 rest). WakeXfer x \<in> set tr)"
    using s'(5,6) tr1 by auto
  ultimately show ?thesis using s'(2-4) split_done_append [OF assms(6)] by (simp only: c(2)) blast
qed

text \<open>C5: servicing a running engine that reports \<open>n > 0\<close> completed descriptors always returns and
  retires transfers strictly in queue order: those the count covers completely (\<open>split_done\<close>) become
  completed, the transfer the engine stopped on becomes failed if the status shows an error or its
  descriptors are not all done and completed otherwise, all of them leave the queue and their
  waiters are woken, no other transfer changes state, and afterwards the engine runs exactly if
  transfers are still queued.\<close>

theorem engine_service_retires:
  assumes "completion_callback E" and "running (get_eng s e)" and "\<not> eop_flush (get_eng s e)"
    and "service_count E e wb s = (n, s1)" and "n \<noteq> 0"
    and "split_done (xfers s) (n - word_of_int (desc_dequeued (get_eng s e))) (transfer_list (get_eng s e))
         = (ds, k, rest)"
  shows "\<exists>s'. engine_service E (Some e) wb s =
        Some (if wb AND WB_ERR_MASK \<noteq> 0 then Inl EPERM else Inr (), s')
    \<and> transfer_list (get_eng s e) = ds @ rest \<and> transfer_list (get_eng s' e) = tl rest
    \<and> (running (get_eng s' e) \<longleftrightarrow> tl rest \<noteq> [])
    \<and> (\<forall>x. xstate (xfers s' x) =
          (if rest \<noteq> [] \<and> x = hd rest then fin_state (get_eng s1 e) (xfers s x) k
           else if x \<in> set ds then TRANSFER_STATE_COMPLETED else xstate (xfers s x)))
    \<and> (\<exists>tr. trace s' = trace s @ tr \<and> (\<forall>x \<in> set ds \<union> set (take 1 rest). WakeXfer x \<in> set tr))"
  using assms by (rule engine_service_outcome)

definition busy_env :: env where
  "busy_env = env0\<lparr>ioread32 := (\<lambda>_ a. if a = 0x48 then 4 else 0)\<rparr>"

definition busy_world :: world where
  "busy_world = upd_xfer (0, 0) (\<lambda>t. t\<lparr>desc_num := 2, xstate := TRANSFER_STATE_SUBMITTED\<rparr>)
     (upd_xfer (0, 1) (\<lambda>t. t\<lparr>desc_num := 3, xstate := TRANSFER_STATE_SUBMITTED\<rparr>)
       (upd_eng (H2C 0) (\<lambda>g. g\<lparr>edir := DMA_TO_DEVICE, running := True,
          transfer_list := [(0, 0), (0, 1)]\<rparr>) world0))"

lemma busy_callback: "completion_callback busy_env"
  by unfold_locales (simp add: busy_env_def env0_def release_only_refl)

lemma busy_facts:
  "running (get_eng busy_world (H2C 0))" "\<not> eop_flush (get_eng busy_world (H2C 0))"
  "desc_dequeued (get_eng busy_world (H2C 0)) = 0"
  "transfer_list (get_eng busy_world (H2C 0)) = [(0, 0), (0, 1)]"
  "desc_num (xfers busy_world (0, 0)) = 2" "desc_num (xfers busy_world (0, 1)) = 3"
  "\<not> cyclic (xfers busy_world (0, 0))"
  by (simp_all add: busy_world_def engine_zero_def transfer_zero_def)

theorem engine_service_retires_witness:
  "\<exists>s'. engine_service busy_env (Some (H2C 0)) 0 busy_world = Some (Inr (), s')
     \<and> transfer_list (get_eng s' (H2C 0)) = [] \<and> \<not> running (get_eng s' (H2C 0))
     \<and> xstate (xfers s' (0, 0)) = TRANSFER_STATE_COMPLETED
     \<and> xstate (xfers s' (0, 1)) = TRANSFER_STATE_FAILED"
proof -
  let ?s = "busy_world"
  obtain n s1 where c: "service_count busy_env (H2C 0) 0 ?s = (n, s1)" by fastforce
  have r0: "regs (get_eng ?s (H2C 0)) = 0" by (simp add: busy_world_def engine_zero_def)
  obtain v where "get_eng (snd (engine_status_read busy_env (Some (H2C 0)) True False ?s)) (H2C 0)
      = (get_eng ?s (H2C 0))\<lparr>status := v\<rparr>" using engine_status_read_effect(2) by blast
  then have n: "n = 4"
    using c by (auto simp: service_count_def Let_def eng_read_def read_register_def busy_env_def
        engine_service_shutdown_effect ereg_offsets r0 split: if_splits)
  have sp: "split_done (xfers ?s) (n - word_of_int (desc_dequeued (get_eng ?s (H2C 0))))
      (transfer_list (get_eng ?s (H2C 0))) = ([(0, 0)], 2, [(0, 1)])"
    by (simp add: busy_facts n Let_def del: One_nat_def)
  have fin: "fin_state g (xfers ?s (0, 1)) 2 = TRANSFER_STATE_FAILED" for g
    unfolding fin_state_def busy_facts by simp
  show ?thesis
    using engine_service_retires [OF busy_callback busy_facts(1,2) c _ sp] n fin by force
qed

text \<open>An interrupt for an engine that is not running is harmless: its status is read and cleared,
  nothing else changes.\<close>

theorem engine_service_idle:
  assumes "\<not> running (get_eng s e)"
  shows "\<exists>s' v. engine_service E (Some e) wb s = Some (Inr (), s')
     \<and> get_eng s' e = (get_eng s e)\<lparr>status := v\<rparr> \<and> xfers s' = xfers s
     \<and> io_writes (trace s') = io_writes (trace s)"
  using assms engine_status_read_effect [where e = e and s = s and c = True and E = E] by auto

theorem engine_service_idle_witness:
  "\<exists>s'. engine_service env0 (Some (C2H 2)) 7 world0 = Some (Inr (), s') \<and> xfers s' = xfers world0"
  using engine_service_idle [of world0 "C2H 2" env0 7] by (auto simp: engine_zero_def)

text \<open>In an environment whose result memory does not change during the scan, the scan for an end of
  packet answers whether one of the first \<open>n\<close> results has the end-of-packet bit.\<close>

lemma eop_scan_static:
  "dma_mem E = (\<lambda>_. m) \<Longrightarrow> fst (eop_scan E n p s) \<longleftrightarrow> (\<exists>i<n. m (p + 32 * of_nat i) AND RX_STATUS_EOP \<noteq> 0)"
proof (induction n arbitrary: p s)
  case (Suc n)
  have "(\<exists>i<Suc n. m (p + 32 * of_nat i) AND RX_STATUS_EOP \<noteq> 0) \<longleftrightarrow>
      m p AND RX_STATUS_EOP \<noteq> 0 \<or> (\<exists>i<n. m (p + 32 + 32 * of_nat i) AND RX_STATUS_EOP \<noteq> 0)"
    by (auto simp: Ex_less_Suc2 algebra_simps)
  with Suc show ?case by (simp add: split_beta)
qed simp

lemma and_count_le: "w AND WB_COUNT_MASK \<le> w"
  by (rule word_and_le2)

lemma wb_loop_step:
  assumes "expected \<noteq> 0" and "\<not> (w AND WB_ERR_MASK \<noteq> 0 \<or> expected \<le> w)"
    and "w = dma_mem E (trace s) p" and "s1 = emit (MemRead p w) s"
    and "s2 = (if w \<noteq> 0 then mem_write 0 p s1 else s1)"
  shows "wb_loop E p expected s =
     (if time_after E (trace s2) then Some (w, s2) else wb_loop E p expected s2)"
proof -
  from assms(2) have "\<not> expected < w AND WB_COUNT_MASK"
    using and_count_le [of w] by (meson not_less order_trans order_less_imp_le)
  then show ?thesis using assms by (subst wb_loop.simps) (simp add: Let_def)
qed



section \<open>What servicing never changes\<close>

text \<open>
  The configuration of an engine and the shape of a transfer.  Servicing keeps both, and never
  makes a shutdown request appear.
\<close>

definition eng_static :: "xdma_engine \<Rightarrow> xdma_engine" where
  "eng_static g = g\<lparr>desc_mem := (\<lambda>_. desc_zero), desc_used := 0, transfer_list := [], running := False,
     status := 0, shutdown := 0, desc_dequeued := 0, xdma_perf := None\<rparr>"

definition xfer_static :: "xdma_transfer \<Rightarrow> xdma_transfer" where
  "xfer_static t = t\<lparr>xstate := TRANSFER_STATE_NEW, desc_cmpl := 0, xflags := 0\<rparr>"

definition keeps :: "world \<Rightarrow> world \<Rightarrow> bool" where
  "keeps s s' \<longleftrightarrow> (\<forall>e. eng_static (get_eng s' e) = eng_static (get_eng s e)
       \<and> (shutdown (get_eng s e) AND ENGINE_SHUTDOWN_REQUEST = 0 \<longrightarrow>
          shutdown (get_eng s' e) AND ENGINE_SHUTDOWN_REQUEST = 0))
     \<and> (\<forall>x. xfer_static (xfers s' x) = xfer_static (xfers s x)) \<and> dflags (xdev s') = dflags (xdev s)"

named_theorems keeps_intros

lemma keeps_refl [keeps_intros]: "keeps s s"
  by (simp add: keeps_def)

lemma keeps_trans: "keeps s s' \<Longrightarrow> keeps s' s'' \<Longrightarrow> keeps s s''"
  by (auto simp: keeps_def)

lemma keeps_emit [keeps_intros]: "keeps s s' \<Longrightarrow> keeps s (emit ev s')"
  by (simp add: keeps_def)

lemma keeps_upd_eng [keeps_intros]:
  assumes "keeps s s'" and "\<And>g. eng_static (f g) = eng_static g"
    and "\<And>g. shutdown g AND ENGINE_SHUTDOWN_REQUEST = 0 \<Longrightarrow> shutdown (f g) AND ENGINE_SHUTDOWN_REQUEST = 0"
  shows "keeps s (upd_eng e f s')"
  using assms by (simp add: keeps_def)

lemma keeps_upd_xfer [keeps_intros]:
  assumes "keeps s s'" and "\<And>t. xfer_static (f t) = xfer_static t"
  shows "keeps s (upd_xfer x f s')"
  using assms by (auto simp: keeps_def)

lemma keeps_read [keeps_intros]: "keeps s s' \<Longrightarrow> keeps s (snd (eng_read E e f s'))"
  by (simp add: keeps_emit)

lemma keeps_mem_read [keeps_intros]: "keeps s s' \<Longrightarrow> keeps s (snd (mem_read E p s'))"
  by (simp add: keeps_emit)

lemma keeps_if [keeps_intros]: "(b \<Longrightarrow> keeps s s1) \<Longrightarrow> (\<not> b \<Longrightarrow> keeps s s2) \<Longrightarrow> keeps s (if b then s1 else s2)"
  by simp

lemma keeps_release: "release_only s s' \<Longrightarrow> keeps s s'"
proof -
  assume r: "release_only s s'"
  have "eng_static g' = eng_static g \<and> shutdown g' = shutdown g" if c: "eng_core g' = eng_core g" for g g'
  proof -
    have "eng_static h = (eng_core h)\<lparr>transfer_list := [], running := False, status := 0, shutdown := 0,
        desc_dequeued := 0, xdma_perf := None\<rparr>" for h by (simp add: eng_static_def eng_core_def)
    from this [of g] this [of g'] have "eng_static g' = eng_static g" by (simp only: c)
    with eng_coreD(4) [OF c] show ?thesis by blast
  qed
  note h = this [OF release_onlyD(1) [OF r]]
  show ?thesis
    unfolding keeps_def
  proof (intro conjI allI)
    fix e x
    show "eng_static (get_eng s' e) = eng_static (get_eng s e)" using h by blast
    have "shutdown (get_eng s' e) = shutdown (get_eng s e)" using h by blast
    then show "shutdown (get_eng s e) AND ENGINE_SHUTDOWN_REQUEST = 0 \<longrightarrow>
        shutdown (get_eng s' e) AND ENGINE_SHUTDOWN_REQUEST = 0" by simp
    show "xfer_static (xfers s' x) = xfer_static (xfers s x)" "dflags (xdev s') = dflags (xdev s)"
      by (simp_all add: release_onlyD [OF r])
  qed
qed

lemma keeps_stop [keeps_intros]: "keeps s s' \<Longrightarrow> keeps s (snd (xdma_engine_stop E (Some e) s'))"
  by (simp add: keeps_def xdma_engine_stop_effect eng_static_def xdma_engine_stop_dflags)

lemma keeps_status_read [keeps_intros]:
  "keeps s s' \<Longrightarrow> keeps s (snd (engine_status_read E (Some e) c False s'))"
  by (auto simp: engine_status_read.simps split_beta eng_static_def intro!: keeps_intros)

lemma keeps_shutdown [keeps_intros]:
  "keeps s s' \<Longrightarrow> keeps s (snd (engine_service_shutdown E (Some e) s'))"
  by (simp add: engine_service_shutdown.simps case_res_Inr [OF xdma_engine_stop_effect(1)]
      keeps_emit keeps_stop)

lemma keeps_start [keeps_intros]: "keeps s s' \<Longrightarrow> keeps s (snd (engine_start E (Some e) s'))"
proof (cases "running (get_eng s' e) \<or> transfer_list (get_eng s' e) = []")
  case False
  assume k: "keeps s s'"
  from False obtain x xs where l: "\<not> running (get_eng s' e)" "transfer_list (get_eng s' e) = x # xs"
    by (meson neq_Nil_conv)
  obtain v where v: "get_eng (snd (engine_start E (Some e) s')) e = (get_eng s' e)\<lparr>running := True,
      shutdown := ENGINE_SHUTDOWN_NONE, desc_dequeued := 0, status := v\<rparr>"
    using engine_start_effect(2) [OF l] by blast
  have "keeps s' (snd (engine_start E (Some e) s'))"
    unfolding keeps_def
  proof (intro conjI allI)
    fix e'
    show "eng_static (get_eng (snd (engine_start E (Some e) s')) e') = eng_static (get_eng s' e')"
      by (cases "e' = e") (simp_all add: v eng_static_def engine_start_effect(3) [OF l])
    show "shutdown (get_eng s' e') AND ENGINE_SHUTDOWN_REQUEST = 0 \<longrightarrow>
        shutdown (get_eng (snd (engine_start E (Some e) s')) e') AND ENGINE_SHUTDOWN_REQUEST = 0"
      by (cases "e' = e") (simp_all add: v ENGINE_SHUTDOWN_NONE_def engine_start_effect(3) [OF l])
  qed (simp_all add: engine_start_effect(4) [OF l] engine_start_dflags)
  with k show ?thesis by (rule keeps_trans)
qed (simp add: engine_start_refused)

lemma keeps_shutdown_idle:
  "keeps s s' \<Longrightarrow> \<not> shutdown (get_eng s' e) AND ENGINE_SHUTDOWN_REQUEST = 0 \<Longrightarrow>
   keeps s (upd_eng e (\<lambda>g. g\<lparr>shutdown := shutdown g OR ENGINE_SHUTDOWN_IDLE\<rparr>) s')"
  by (auto simp: keeps_def eng_static_def)

lemma keeps_resume [keeps_intros]: "keeps s s' \<Longrightarrow> keeps s (snd (engine_service_resume E (Some e) s'))"
  by (auto simp: engine_service_resume.simps Let_def split: prod.split option.split
      intro: keeps_emit keeps_shutdown keeps_shutdown_idle dest: keeps_start [of s s' E e])

lemma keeps_perf [keeps_intros]: "keeps s s' \<Longrightarrow> keeps s (snd (engine_service_perf (Some e) n s'))"
  by (auto simp: engine_service_perf.simps Let_def eng_static_def split: option.split
      intro!: keeps_emit keeps_upd_eng)

lemma keeps_count [keeps_intros]: "keeps s s' \<Longrightarrow> keeps s (snd (service_count E e wb s'))"
  unfolding service_count_def Let_def
  by (auto intro!: keeps_emit keeps_shutdown keeps_status_read)

lemma keeps_eop_scan: "keeps s s' \<Longrightarrow> keeps s (snd (eop_scan E n p s'))"
  by (induction n arbitrary: p s') (simp_all add: split_beta keeps_emit)

lemma keeps_verdict: "keeps s s' \<Longrightarrow> keeps s (snd (final_verdict E e x n s'))"
  unfolding final_verdict_def final_eop_def engine_err_handle_def Let_def
  by (auto simp: split_beta eng_static_def xfer_static_def
      intro!: keeps_stop keeps_upd_xfer keeps_upd_eng keeps_emit keeps_shutdown keeps_eop_scan)

context completion_callback
begin

lemma keeps_completion:
  "keeps s s' \<Longrightarrow> keeps s (snd (engine_transfer_completion E (Some e) (Some x) s'))"
  using keeps_trans keeps_release completion_release(2) by blast

lemma keeps_final: "keeps s s' \<Longrightarrow> keeps s (snd (engine_service_final_transfer E (Some e) xo n s'))"
proof (cases xo)
  case (Some x)
  assume "keeps s s'"
  then have "keeps s (snd (final_verdict E e x n s'))" by (rule keeps_verdict)
  then have "keeps s (upd_eng e (\<lambda>g. g\<lparr>transfer_list := tl (transfer_list g)\<rparr>) (snd (final_verdict E e x n s')))"
    by (rule keeps_upd_eng) (simp_all add: eng_static_def)
  then show ?thesis
    using keeps_completion \<open>keeps s (snd (final_verdict E e x n s'))\<close>
    by (cases "final_verdict E e x n s'"; cases "fst (final_verdict E e x n s')") (simp_all add: Some Let_def)
qed simp

lemma keeps_retire_head: "keeps s s' \<Longrightarrow> keeps s (retire_head E e x s')"
  unfolding retire_head_def Let_def
  by (intro keeps_completion keeps_upd_xfer keeps_upd_eng) (simp_all add: eng_static_def xfer_static_def)

end

lemma service_loop_keeps:
  assumes "service_loop E e xo n s = Some r"
  shows "completion_callback E \<longrightarrow> keeps s (snd (snd r))"
proof (rule service_loop.raw_induct [OF _ assms])
  fix loop E e xo n s r
  assume IH: "\<And>E e xo n s r. loop E e xo n s = Some r \<Longrightarrow> completion_callback E \<longrightarrow> keeps s (snd (snd r))"
    and body: "(case xo of None \<Rightarrow> Some (None, n, s)
      | Some x \<Rightarrow> let d = word_of_int (desc_num (get_xfer s x)) in
          if \<not> cyclic (get_xfer s x) \<and> d < n
          then let s = retire_head E e x s in loop E e (list_head (transfer_list (get_eng s e))) (n - d) s
          else Some (Some x, n, s)) = Some r"
  show "completion_callback E \<longrightarrow> keeps s (snd (snd r))"
  proof
    assume c: "completion_callback E"
    show "keeps s (snd (snd r))"
    proof (cases xo)
      case None
      with body show ?thesis by (auto intro: keeps_refl)
    next
      case (Some x)
      note k = completion_callback.keeps_retire_head [OF c keeps_refl, of s e x]
      show ?thesis
        using body IH c keeps_trans [OF k] by (auto simp: Some Let_def keeps_refl split: if_splits)
    qed
  qed
qed

lemma service_retire_keeps:
  assumes "completion_callback E" and "service_retire E e n s = Some s'"
  shows "keeps s s'"
proof -
  let ?xo = "list_head (transfer_list (get_eng s e))"
  define s1 where "s1 = (if ?xo = None then s else snd (engine_service_perf (Some e) n s))"
  have k1: "keeps s s1" by (auto simp: s1_def intro: keeps_intros)
  from assms(2) obtain xo k s2 where
    l: "engine_service_transfer_list E (Some e) ?xo (n - word_of_int (desc_dequeued (get_eng s1 e))) s1 = Some (xo, k, s2)"
    and s': "s' = (let s3 = snd (engine_service_final_transfer E (Some e) xo k s2)
      in if eop_flush (get_eng s3 e) then s3 else snd (engine_service_resume E (Some e) s3))"
    unfolding service_retire_def Let_def s1_def [symmetric] by (auto split: bind_splits)
  from l have "keeps s1 s2"
    using service_loop_keeps assms(1) by (cases ?xo) (fastforce simp: keeps_refl)+
  then have "keeps s (snd (engine_service_final_transfer E (Some e) xo k s2))"
    using k1 keeps_trans completion_callback.keeps_final [OF assms(1)] by blast
  then show ?thesis unfolding s' Let_def by (auto intro: keeps_resume)
qed

lemma engine_service_keeps:
  assumes "completion_callback E" and "engine_service E (Some e) wb s = Some (rv, s')"
  shows "keeps s s'"
proof (cases "running (get_eng s e)")
  case False
  with assms(2) show ?thesis by (auto intro: keeps_intros)
next
  case True
  have k: "keeps s (snd (service_count E e wb s))" by (intro keeps_intros)
  obtain n s1 where c: "service_count E e wb s = (n, s1)" by fastforce
  show ?thesis
  proof (cases "n = 0")
    case True
    with assms(2) \<open>running (get_eng s e)\<close> k show ?thesis by (auto simp: c)
  next
    case False
    with assms(2) True have "service_retire E e n s1 = Some s'" by (auto simp: c split: bind_splits)
    with service_retire_keeps [OF assms(1)] k show ?thesis by (auto simp: c intro: keeps_trans)
  qed
qed

end
