(* ===== verification/Irq.thy ===== *)
theory Irq
  imports Service
begin

text \<open>
  Interrupts (\<open>libxdma.c\<close>): the service routines for shared, user and channel interrupts, enabling
  of MSI and MSI-X, programming of the vector registers, and requesting and releasing the
  interrupt lines.
\<close>

section \<open>Service routines\<close>

text \<open>The values of \<open>irqreturn_t\<close>; a user handler may return any of them.\<close>

definition IRQ_NONE :: int where "IRQ_NONE = 0"
definition IRQ_HANDLED :: int where "IRQ_HANDLED = 1"

text \<open>A registered handler is foreign code: it is recorded, and the environment says what it returns.\<close>

fun user_irq_service :: "env \<Rightarrow> nat option \<Rightarrow> world \<Rightarrow> int \<times> world" where
  "user_irq_service E None s = (IRQ_NONE, s)"
| "user_irq_service E (Some u) s =
     (let ui = user_irq (xdev s) u
      in case handler ui of
           Some h \<Rightarrow> (kernel E (trace s) ''user handler'' [int h, int (user_idx ui)],
                      emit (UserHandler (user_idx ui) (irq_dev ui)) s)
         | None \<Rightarrow>
             (IRQ_HANDLED,
              if events_irq ui = 0
              then emit (WakeEvents u)
                     (upd_xdev (\<lambda>d. d\<lparr>user_irq := (user_irq d)(u := ui\<lparr>events_irq := 1\<rparr>)\<rparr>) s)
              else s))"

text \<open>The loop over the user interrupts, \<open>n\<close> of them left, and the two loops over the channels.\<close>

primrec user_irq_loop :: "env \<Rightarrow> nat \<Rightarrow> nat \<Rightarrow> u32 \<Rightarrow> world \<Rightarrow> world" where
  "user_irq_loop E u 0 req s = s"
| "user_irq_loop E u (Suc n) req s =
     (if req = 0 then s
      else if req AND push_bit u 1 \<noteq> 0
      then user_irq_loop E (u + 1) n (req AND NOT (push_bit u 1)) (snd (user_irq_service E (Some u) s))
      else user_irq_loop E (u + 1) n req s)"

fun schedule_loop :: "eref list \<Rightarrow> u32 \<Rightarrow> world \<Rightarrow> world" where
  "schedule_loop [] m s = s"
| "schedule_loop (e # es) m s =
     (if m = 0 then s
      else let g = get_eng s e
           in if irq_bitmask g AND m \<noteq> 0 \<and> emagic g = MAGIC_ENGINE
              then schedule_loop es (m AND NOT (irq_bitmask g)) (emit (ScheduleWork e) s)
              else schedule_loop es m s)"

definition h2c_engines :: "world \<Rightarrow> eref list" where
  "h2c_engines s = map H2C [0..<h2c_channel_max (xdev s)]"

definition c2h_engines :: "world \<Rightarrow> eref list" where
  "c2h_engines s = map C2H [0..<c2h_channel_max (xdev s)]"

definition count_irq :: "world \<Rightarrow> world" where
  "count_irq s = upd_xdev (\<lambda>d. d\<lparr>irq_count := irq_count d + 1\<rparr>) s"

definition xdma_isr :: "env \<Rightarrow> world \<Rightarrow> int \<times> world" where
  "xdma_isr E s =
     (let (ch_irq, s) = read_register E (int_ctrl s + ireg ''channel_int_request'') s;
          s = (if ch_irq \<noteq> 0 then channel_interrupts_disable ch_irq s else s);
          (user, s) = read_register E (int_ctrl s + ireg ''user_int_request'') s;
          s = user_irq_loop E 0 (user_max (xdev s)) user s;
          s = schedule_loop (h2c_engines s) (ch_irq AND mask_irq_h2c (xdev s)) s;
          s = schedule_loop (c2h_engines s) (ch_irq AND mask_irq_c2h (xdev s)) s
      in (IRQ_HANDLED, count_irq s))"

definition xdma_user_irq_handler :: "env \<Rightarrow> nat option \<Rightarrow> world \<Rightarrow> int \<times> world" where
  "xdma_user_irq_handler E dev s = user_irq_service E dev s"

fun xdma_channel_irq :: "env \<Rightarrow> eref option \<Rightarrow> world \<Rightarrow> int \<times> world" where
  "xdma_channel_irq E None s = (IRQ_NONE, s)"
| "xdma_channel_irq E (Some e) s =
     (let s = eng_write (interrupt_enable_mask_value (get_eng s e)) e ''interrupt_enable_mask_w1c'' s;
          s = snd (read_register E (int_ctrl s + ireg ''channel_int_pending'') s);
          s = emit (ScheduleWork e) s
      in (IRQ_HANDLED, count_irq s))"

section \<open>MSI and MSI-X\<close>

text \<open>An error the kernel reports.\<close>

definition kerr :: "int \<Rightarrow> errno" where
  "kerr r = EOTHER (nat (- r))"

definition PCI_CAP_ID_MSI :: int where "PCI_CAP_ID_MSI = 0x05"
definition PCI_CAP_ID_MSIX :: int where "PCI_CAP_ID_MSIX = 0x11"

text \<open>
  The fields of the PCI device and of the buses above it belong to the kernel.
  \<open>arch_msi_check_device\<close> is the driver's own stub, which always returns 0.
\<close>

definition msi_msix_capable :: "env \<Rightarrow> nat \<Rightarrow> int \<Rightarrow> world \<Rightarrow> bool" where
  "msi_msix_capable E p type s \<longleftrightarrow>
     p \<noteq> 0 \<and> kernel E (trace s) ''no_msi'' [int p] = 0
     \<and> (\<forall>k \<in> set [0..<nat (kernel E (trace s) ''bus depth'' [int p])].
          kernel E (trace s) ''bus NO_MSI'' [int p, int k] = 0)
     \<and> kernel E (trace s) ''pci_find_capability'' [int p, type] \<noteq> 0"

definition disable_msi_msix :: "nat \<Rightarrow> world \<Rightarrow> world" where
  "disable_msi_msix p s =
     (if msix_enabled (xdev s)
      then upd_xdev (\<lambda>d. d\<lparr>msix_enabled := False\<rparr>) (emit (Kernel ''pci_disable_msix'' [int p] 0) s)
      else if msi_enabled (xdev s)
      then upd_xdev (\<lambda>d. d\<lparr>msi_enabled := False\<rparr>) (emit (Kernel ''pci_disable_msi'' [int p] 0) s)
      else s)"

definition enable_msi_msix :: "env \<Rightarrow> nat \<Rightarrow> world \<Rightarrow> unit res \<times> world" where
  "enable_msi_msix E p s =
     (if p = 0 then (Inl EINVAL, s)
      else if (interrupt_mode E = 3 \<or> interrupt_mode E = 0) \<and> msi_msix_capable E p PCI_CAP_ID_MSIX s
      then let nvec = int (c2h_channel_max (xdev s) + h2c_channel_max (xdev s) + user_max (xdev s));
               (rv, s) = kcall E ''pci_alloc_irq_vectors'' [nvec, nvec] s;
               s = upd_xdev (\<lambda>d. d\<lparr>msix_enabled := True\<rparr>) s
           in (if rv < 0 then Inl (kerr rv) else Inr (), s)
      else if (interrupt_mode E = 1 \<or> interrupt_mode E = 0) \<and> msi_msix_capable E p PCI_CAP_ID_MSI s
      then let (rv, s) = kcall E ''pci_enable_msi'' [int p] s;
               s = upd_xdev (\<lambda>d. d\<lparr>msi_enabled := True\<rparr>) s
           in (if rv < 0 then Inl (kerr rv) else Inr (), s)
      else (Inr (), s))"

definition PCI_STATUS_INTERRUPT :: u16 where "PCI_STATUS_INTERRUPT = 0x08"
definition PCI_COMMAND_INTX_DISABLE :: u16 where "PCI_COMMAND_INTX_DISABLE = 0x400"

definition pci_check_intr_pend :: "env \<Rightarrow> world \<Rightarrow> world" where
  "pci_check_intr_pend E s =
     (let (v, s) = kcall E ''pci_read_config_word'' [6] s
      in if (word_of_int v :: u16) AND PCI_STATUS_INTERRUPT \<noteq> 0
         then snd (kcall E ''pci_write_config_word'' [6, uint PCI_STATUS_INTERRUPT] s) else s)"

definition pci_keep_intx_enabled :: "env \<Rightarrow> world \<Rightarrow> world" where
  "pci_keep_intx_enabled E s =
     (let (v, s) = kcall E ''pci_read_config_word'' [4] s;
          pcmd = (word_of_int v :: u16); pcmd_new = pcmd AND NOT PCI_COMMAND_INTX_DISABLE
      in if pcmd_new \<noteq> pcmd then snd (kcall E ''pci_write_config_word'' [4, uint pcmd_new] s) else s)"

section \<open>Vector registers\<close>

text \<open>
  Up to four vector numbers from \<open>i\<close> on packed into one register (the loop over \<open>k\<close> with
  \<open>shift = 8 * k\<close>), and the loop over the registers from number \<open>j\<close> at address \<open>base\<close>.
\<close>

definition pack_vectors :: "nat \<Rightarrow> nat \<Rightarrow> u32" where
  "pack_vectors i mx = fold (\<lambda>k val. val OR push_bit (8 * k) (of_nat (i + k) AND 0x1f)) [0..<min 4 (mx - i)] 0"

function prog_vectors :: "u64 \<Rightarrow> bool \<Rightarrow> nat \<Rightarrow> nat \<Rightarrow> nat \<Rightarrow> world \<Rightarrow> world" where
  "prog_vectors base clear i mx j s =
     (if i < mx
      then prog_vectors base clear (if clear then i + 4 else i + min 4 (mx - i)) mx (j + 1)
             (write_register (if clear then 0 else pack_vectors i mx) (base + 4 * of_nat j) s)
      else s)"
  by pat_completeness auto

termination
  by (relation "measure (\<lambda>(base, clear, i, mx, j, s). mx - i)") auto

declare prog_vectors.simps [simp del]

definition prog_irq_msix_user :: "bool \<Rightarrow> world \<Rightarrow> world" where
  "prog_irq_msix_user clear s =
     (let i = c2h_channel_max (xdev s) + h2c_channel_max (xdev s)
      in prog_vectors (int_ctrl s + ireg ''user_msi_vector'') clear i (i + user_max (xdev s)) 0 s)"

definition prog_irq_msix_channel :: "bool \<Rightarrow> world \<Rightarrow> world" where
  "prog_irq_msix_channel clear s =
     prog_vectors (int_ctrl s + ireg ''channel_msi_vector'') clear 0
       (c2h_channel_max (xdev s) + h2c_channel_max (xdev s)) 0 s"

section \<open>Requesting and releasing lines\<close>

text \<open>A line is requested and freed for a cookie, the object the handler gets.\<close>

fun irq_cookie :: "eref \<Rightarrow> int list" where
  "irq_cookie (H2C i) = [0, int i]"
| "irq_cookie (C2H i) = [1, int i]"

definition free_irq :: "int \<Rightarrow> int list \<Rightarrow> world \<Rightarrow> world" where
  "free_irq v c s = emit (Kernel ''free_irq'' (v # c) 0) s"

fun free_engine_irqs :: "eref list \<Rightarrow> world \<Rightarrow> world" where
  "free_engine_irqs [] s = s"
| "free_engine_irqs (e # es) s =
     (if msix_irq_line (get_eng s e) = 0 then s
      else free_engine_irqs es (free_irq (msix_irq_line (get_eng s e)) (irq_cookie e) s))"

definition irq_msix_channel_teardown :: "world \<Rightarrow> world" where
  "irq_msix_channel_teardown s =
     (if \<not> msix_enabled (xdev s) then s
      else let s = prog_irq_msix_channel True s;
               s = free_engine_irqs (h2c_engines s) s
           in free_engine_irqs (c2h_engines s) s)"

fun request_engine_irqs :: "env \<Rightarrow> (eref \<times> nat) list \<Rightarrow> world \<Rightarrow> unit res \<times> world" where
  "request_engine_irqs E [] s = (Inr (), s)"
| "request_engine_irqs E ((e, i) # es) s =
     (let (v, s) = kcall E ''pci_irq_vector'' [int i] s;
          (rv, s) = kcall E ''request_irq'' (v # irq_cookie e) s
      in if rv \<noteq> 0 then (Inl (kerr rv), s)
         else request_engine_irqs E es (upd_eng e (\<lambda>g. g\<lparr>msix_irq_line := v\<rparr>) s))"

definition channel_vectors :: "world \<Rightarrow> (eref \<times> nat) list" where
  "channel_vectors s = zip (h2c_engines s @ c2h_engines s)
     [0..<h2c_channel_max (xdev s) + c2h_channel_max (xdev s)]"

definition irq_msix_channel_setup :: "env \<Rightarrow> world \<Rightarrow> unit res \<times> world" where
  "irq_msix_channel_setup E s =
     (if \<not> msix_enabled (xdev s) then (Inr (), s) else request_engine_irqs E (channel_vectors s) s)"

definition free_user_irq :: "env \<Rightarrow> nat \<Rightarrow> nat \<Rightarrow> world \<Rightarrow> world" where
  "free_user_irq E j i s =
     (let (v, s) = kcall E ''pci_irq_vector'' [int (j + i)] s in free_irq v [2, int i] s)"

definition irq_msix_user_teardown :: "env \<Rightarrow> world \<Rightarrow> world" where
  "irq_msix_user_teardown E s =
     (if \<not> msix_enabled (xdev s) then s
      else let j = h2c_channel_max (xdev s) + c2h_channel_max (xdev s);
               s = prog_irq_msix_user True s
           in fold (free_user_irq E j) [0..<user_max (xdev s)] s)"

text \<open>The request loop stops at the first failure and says how many lines it got.\<close>

primrec request_user_irqs :: "env \<Rightarrow> nat \<Rightarrow> nat \<Rightarrow> nat \<Rightarrow> world \<Rightarrow> unit res \<times> nat \<times> world" where
  "request_user_irqs E j i 0 s = (Inr (), i, s)"
| "request_user_irqs E j i (Suc n) s =
     (let (v, s) = kcall E ''pci_irq_vector'' [int (j + i)] s;
          (rv, s) = kcall E ''request_irq'' [v, 2, int i] s
      in if rv \<noteq> 0 then (Inl (kerr rv), i, s) else request_user_irqs E j (i + 1) n s)"

definition irq_msix_user_setup :: "env \<Rightarrow> world \<Rightarrow> unit res \<times> world" where
  "irq_msix_user_setup E s =
     (let j = h2c_channel_max (xdev s) + c2h_channel_max (xdev s);
          (rv, i, s) = request_user_irqs E j 0 (user_max (xdev s)) s
      in (rv, case rv of Inl _ \<Rightarrow> fold (free_user_irq E j) (rev [0..<i]) s | Inr _ \<Rightarrow> s))"

definition request_dev_irq :: "env \<Rightarrow> int \<Rightarrow> world \<Rightarrow> unit res \<times> world" where
  "request_dev_irq E fl s =
     (let line = kernel E (trace s) ''pdev->irq'' [];
          s = upd_xdev (\<lambda>d. d\<lparr>irq_line := line\<rparr>) s;
          (rv, s) = kcall E ''request_irq'' [line, 3, int (self (xdev s))] s
      in (if rv \<noteq> 0 then Inl (kerr rv) else Inr (), s))"

definition irq_msi_setup :: "env \<Rightarrow> world \<Rightarrow> unit res \<times> world" where
  "irq_msi_setup E s = request_dev_irq E 0 s"

text \<open>The interrupt pin programmed into every byte of the user and channel vector registers.\<close>

definition legacy_vectors :: "u8 \<Rightarrow> world \<Rightarrow> world" where
  "legacy_vectors val s =
     (let v = (ucast (val - 1) :: u32);
          w = push_bit 24 v OR push_bit 16 v OR push_bit 8 v OR v;
          b = bar (xdev s) (nat (config_bar_idx (xdev s)))
      in fold (\<lambda>off s. write_register w (b + off) s) [0x2080, 0x2084, 0x2088, 0x208C, 0x20A0, 0x20A4] s)"

definition irq_legacy_setup :: "env \<Rightarrow> world \<Rightarrow> unit res \<times> world" where
  "irq_legacy_setup E s =
     (let (v, s) = kcall E ''pci_read_config_byte'' [0x3d] s; val = (word_of_int v :: u8)
      in if val = 0 then (Inl EINVAL, s)
         else request_dev_irq E 0x80 (if 1 < val then legacy_vectors val s else s))"

definition irq_teardown :: "env \<Rightarrow> world \<Rightarrow> world" where
  "irq_teardown E s =
     (if msix_enabled (xdev s) then irq_msix_user_teardown E (irq_msix_channel_teardown s)
      else if irq_line (xdev s) \<noteq> - 1 then free_irq (irq_line (xdev s)) [3, int (self (xdev s))] s
      else s)"

definition irq_setup :: "env \<Rightarrow> world \<Rightarrow> unit res \<times> world" where
  "irq_setup E s =
     (let s = pci_keep_intx_enabled E s
      in if msix_enabled (xdev s)
         then case irq_msix_channel_setup E s of
                (Inl rv, s) \<Rightarrow> (Inl rv, s)
              | (Inr _, s) \<Rightarrow>
                  (case irq_msix_user_setup E s of
                     (Inl rv, s) \<Rightarrow> (Inl rv, s)
                   | (Inr _, s) \<Rightarrow> (Inr (), prog_irq_msix_user False (prog_irq_msix_channel False s)))
         else if msi_enabled (xdev s) then irq_msi_setup E s
         else irq_legacy_setup E s)"


section \<open>Frame\<close>

lemma get_eng_upd_xdev [simp]:
  assumes "\<And>d. engine_h2c (f d) = engine_h2c d" and "\<And>d. engine_c2h (f d) = engine_c2h d"
  shows "get_eng (upd_xdev f s) e = get_eng s e"
  by (cases e) (simp_all add: get_eng.simps assms)

lemma int_ctrl_write [simp]: "int_ctrl (write_register v a s) = int_ctrl s"
  by (simp add: write_register_def)

lemma prog_vectors_frame [simp]:
  "xdev (prog_vectors base clear i mx j s) = xdev s"
  "xfers (prog_vectors base clear i mx j s) = xfers s"
  "get_eng (prog_vectors base clear i mx j s) e = get_eng s e"
proof (induction base clear i mx j s rule: prog_vectors.induct)
  case (1 base clear i mx j s)
  {
    case 1
    show ?case using "1.IH"(1) by (subst prog_vectors.simps) simp
  next
    case 2
    show ?case using "1.IH"(2) by (subst prog_vectors.simps) simp
  next
    case 3
    show ?case using "1.IH"(3) by (subst prog_vectors.simps) simp
  }
qed

section \<open>Vector programming\<close>

text \<open>The register writes of a programming run, as a list.\<close>

lemma io_writes_prog_vectors:
  "io_writes (trace (prog_vectors base False i mx j s)) = io_writes (trace s) @
     map (\<lambda>k. (base + 4 * of_nat (j + k), pack_vectors (i + 4 * k) mx)) [0..<(mx - i + 3) div 4]"
proof (induction base "False" i mx j s rule: prog_vectors.induct)
  case (1 base i mx j s)
  show ?case
  proof (cases "i < mx")
    case False
    then show ?thesis by (subst prog_vectors.simps) simp
  next
    case True
    define n where "n = i + min 4 (mx - i)"
    have cnt: "(mx - i + 3) div 4 = Suc ((mx - n + 3) div 4)"
      using True by (auto simp: n_def min_def)
    have idx: "n + 4 * k = i + 4 * Suc k" if "k < (mx - n + 3) div 4" for k
      using that True by (auto simp: n_def min_def split: if_splits)
    have "map (\<lambda>k. (base + 4 * of_nat (j + 1 + k), pack_vectors (n + 4 * k) mx)) [0..<(mx - n + 3) div 4]
        = map (\<lambda>k. (base + 4 * of_nat (j + Suc k), pack_vectors (i + 4 * Suc k) mx)) [0..<(mx - n + 3) div 4]"
    proof (rule map_cong)
      fix k
      assume "k \<in> set [0..<(mx - n + 3) div 4]"
      then have "n + 4 * k = i + 4 * Suc k" by (intro idx) simp
      then show "(base + 4 * of_nat (j + 1 + k), pack_vectors (n + 4 * k) mx) =
          (base + 4 * of_nat (j + Suc k), pack_vectors (i + 4 * Suc k) mx)" by (simp only:) simp
    qed simp
    also have "\<dots> = map (\<lambda>k. (base + 4 * of_nat (j + k), pack_vectors (i + 4 * k) mx))
        (map Suc [0..<(mx - n + 3) div 4])" by simp
    finally have m: "map (\<lambda>k. (base + 4 * of_nat (j + 1 + k), pack_vectors (n + 4 * k) mx))
        [0..<(mx - n + 3) div 4] = map (\<lambda>k. (base + 4 * of_nat (j + k), pack_vectors (i + 4 * k) mx))
        (map Suc [0..<(mx - n + 3) div 4])" .
    have "io_writes (trace (prog_vectors base False i mx j s)) =
        io_writes (trace s) @ (base + 4 * of_nat j, pack_vectors i mx) #
        map (\<lambda>k. (base + 4 * of_nat (j + 1 + k), pack_vectors (n + 4 * k) mx)) [0..<(mx - n + 3) div 4]"
      using "1" [OF True] True by (subst prog_vectors.simps) (simp add: n_def io_writes_append)
    then show ?thesis
      unfolding m cnt by (simp add: upt_conv_Cons map_Suc_upt del: upt_Suc map_map)
  qed
qed


lemma bit_pack:
  "bit (fold (\<lambda>k val. val OR push_bit (8 * k) (f k AND 0x1f)) ks (v :: u32)) b \<longleftrightarrow>
     bit v b \<or> (\<exists>k\<in>set ks. 8 * k \<le> b \<and> b < 32 \<and> bit (f k AND 0x1f) (b - 8 * k))"
  by (induction ks arbitrary: v) (auto simp: bit_simps)

lemma mask5_num: "(0x1f :: u32) = mask 5"
  by (simp add: mask_eq_exp_minus_1)

text \<open>Byte \<open>k\<close> of a word.\<close>

definition byte_of :: "nat \<Rightarrow> u32 \<Rightarrow> u32" where
  "byte_of k w = drop_bit (8 * k) w AND 0xFF"

lemma vector_mask: "n < 32 \<Longrightarrow> (of_nat n :: u32) AND 0x1f = of_nat n"
  unfolding mask5_num take_bit_eq_mask [symmetric] by (simp add: take_bit_of_nat take_bit_nat_eq_self)

lemma byte_pack_vectors:
  assumes "i + k < mx" and "k < 4" and "i + k < 32"
  shows "byte_of k (pack_vectors i mx) = of_nat (i + k)"
proof (rule bit_word_eqI)
  fix b
  assume b: "b < LENGTH(32)"
  have s: "bit (of_nat (i + k) :: u32) b \<Longrightarrow> b < 5"
    using vector_mask [OF assms(3)] unfolding mask5_num
    by (metis bit_and_iff bit_mask_iff)
  have u: "k' = k" if "8 * k' \<le> 8 * k + b" "b < 8" "bit ((of_nat (i + k') :: u32) AND 0x1f) (8 * k + b - 8 * k')" for k'
    using that unfolding mask5_num by (auto simp: bit_simps)
  have "bit (byte_of k (pack_vectors i mx)) b \<longleftrightarrow> b < 8 \<and> bit (pack_vectors i mx) (8 * k + b)"
    unfolding byte_of_def mask8_num by (auto simp: bit_simps)
  also have "\<dots> \<longleftrightarrow> b < 8 \<and> bit ((of_nat (i + k) :: u32) AND 0x1f) b"
  proof -
    have "bit (pack_vectors i mx) (8 * k + b) \<longleftrightarrow> bit ((of_nat (i + k) :: u32) AND 0x1f) b" if "b < 8"
    proof
      assume "bit (pack_vectors i mx) (8 * k + b)"
      then obtain k' where "8 * k' \<le> 8 * k + b"
        "bit ((of_nat (i + k') :: u32) AND 0x1f) (8 * k + b - 8 * k')"
        unfolding pack_vectors_def bit_pack by (auto simp del: of_nat_add)
      with u [OF _ that] show "bit ((of_nat (i + k) :: u32) AND 0x1f) b" by (metis add_diff_cancel_left')
    next
      assume "bit ((of_nat (i + k) :: u32) AND 0x1f) b"
      with that assms show "bit (pack_vectors i mx) (8 * k + b)"
        unfolding pack_vectors_def bit_pack by (intro disjI2 bexI [of _ k]) auto
    qed
    then show ?thesis by blast
  qed
  also have "\<dots> \<longleftrightarrow> bit (of_nat (i + k) :: u32) b"
    using s unfolding vector_mask [OF assms(3)] by auto
  finally show "bit (byte_of k (pack_vectors i mx)) b \<longleftrightarrow> bit (of_nat (i + k) :: u32) b" .
qed

lemma prog_vectors_routes:
  assumes "mx \<le> 32" and "i \<le> mx"
  shows "\<exists>ws. io_writes (trace (prog_vectors base False i mx 0 s)) = io_writes (trace s) @ ws
    \<and> length ws = (mx - i + 3) div 4
    \<and> (\<forall>v<mx - i. fst (ws ! (v div 4)) = base + 4 * of_nat (v div 4)
          \<and> byte_of (v mod 4) (snd (ws ! (v div 4))) = of_nat (i + v))"
proof (intro exI conjI allI impI)
  let ?ws = "map (\<lambda>k. (base + 4 * of_nat (0 + k), pack_vectors (i + 4 * k) mx)) [0..<(mx - i + 3) div 4]"
  show "io_writes (trace (prog_vectors base False i mx 0 s)) = io_writes (trace s) @ ?ws"
    by (rule io_writes_prog_vectors)
  show "length ?ws = (mx - i + 3) div 4" by simp
  fix v
  assume v: "v < mx - i"
  then have d: "v div 4 < (mx - i + 3) div 4" by linarith
  then show "fst (?ws ! (v div 4)) = base + 4 * of_nat (v div 4)" by (subst nth_map) simp_all
  have "byte_of (v mod 4) (pack_vectors (i + 4 * (v div 4)) mx) = of_nat (i + 4 * (v div 4) + v mod 4)"
    using v assms by (intro byte_pack_vectors) (simp_all add: add.assoc)
  with d show "byte_of (v mod 4) (snd (?ws ! (v div 4))) = of_nat (i + v)"
    by (subst nth_map) (simp_all add: add.assoc)
qed

text \<open>With no more than 32 vectors, programming the MSI-X registers sends every channel \<open>v\<close> to
  vector \<open>v\<close> and every user interrupt \<open>u\<close> to the vector after the channels, each in its own byte of
  the right register, with one write per register.\<close>

theorem prog_irq_msix_routes:
  fixes s :: world
  defines "n \<equiv> c2h_channel_max (xdev s) + h2c_channel_max (xdev s)"
  assumes "n + user_max (xdev s) \<le> 32"
  shows "(\<exists>ws. io_writes (trace (prog_irq_msix_channel False s)) = io_writes (trace s) @ ws
        \<and> length ws = (n + 3) div 4
        \<and> (\<forall>v<n. fst (ws ! (v div 4)) = int_ctrl s + 0xA0 + 4 * of_nat (v div 4)
              \<and> byte_of (v mod 4) (snd (ws ! (v div 4))) = of_nat v))
     \<and> (\<exists>ws. io_writes (trace (prog_irq_msix_user False s)) = io_writes (trace s) @ ws
        \<and> length ws = (user_max (xdev s) + 3) div 4
        \<and> (\<forall>u<user_max (xdev s). fst (ws ! (u div 4)) = int_ctrl s + 0x80 + 4 * of_nat (u div 4)
              \<and> byte_of (u mod 4) (snd (ws ! (u div 4))) = of_nat (n + u)))"
  using prog_vectors_routes [of n 0 "int_ctrl s + 0xA0" s]
    prog_vectors_routes [of "n + user_max (xdev s)" n "int_ctrl s + 0x80" s] assms(2)
  by (simp add: prog_irq_msix_channel_def prog_irq_msix_user_def n_def ireg_offsets Let_def)

theorem prog_irq_msix_routes_witness:
  "c2h_channel_max (xdev world0) + h2c_channel_max (xdev world0) + user_max (xdev world0) \<le> 32
   \<and> (\<exists>ws. io_writes (trace (prog_irq_msix_user False world0)) = io_writes (trace world0) @ ws
        \<and> length ws = 4)"
  using prog_irq_msix_routes [of world0] by (auto simp: xdev0_def)

section \<open>Dispatch\<close>

fun scheduled :: "event list \<Rightarrow> eref list" where
  "scheduled [] = []"
| "scheduled (ScheduleWork e # tr) = e # scheduled tr"
| "scheduled (_ # tr) = scheduled tr"

lemma scheduled_append [simp]: "scheduled (tr @ tr') = scheduled tr @ scheduled tr'"
  by (induction tr rule: scheduled.induct) simp_all

definition fires :: "world \<Rightarrow> u32 \<Rightarrow> eref \<Rightarrow> bool" where
  "fires s m e \<longleftrightarrow> irq_bitmask (get_eng s e) AND m \<noteq> 0 \<and> emagic (get_eng s e) = MAGIC_ENGINE"

definition own_bits :: "world \<Rightarrow> eref list \<Rightarrow> bool" where
  "own_bits s es \<longleftrightarrow> sorted_wrt (\<lambda>e e'. irq_bitmask (get_eng s e) AND irq_bitmask (get_eng s e') = 0) es"

lemma and_not_disjoint: "b AND a = 0 \<Longrightarrow> a AND (m AND NOT b) = a AND (m :: 'a::len word)"
proof (rule bit_word_eqI)
  fix k
  assume "b AND a = 0"
  then have "\<not> bit (b AND a) k" by simp
  then show "bit (a AND (m AND NOT b)) k \<longleftrightarrow> bit (a AND m) k"
    by (auto simp: bit_simps dest: bit_imp_le_length)
qed

lemma schedule_loop_frame [simp]:
  "xdev (schedule_loop es m s) = xdev s" "xfers (schedule_loop es m s) = xfers s"
  "get_eng (schedule_loop es m s) e = get_eng s e"
  "io_writes (trace (schedule_loop es m s)) = io_writes (trace s)"
  by (induction es m s rule: schedule_loop.induct) (simp_all add: Let_def)

lemma schedule_loop_spec:
  "own_bits s es \<Longrightarrow>
   scheduled (trace (schedule_loop es m s)) = scheduled (trace s) @ filter (fires s m) es"
proof (induction es m s rule: schedule_loop.induct)
  case (2 e es m s)
  have o: "own_bits s es" using "2.prems" by (simp add: own_bits_def)
  show ?case
  proof (cases "m = 0")
    case True
    then show ?thesis by (simp add: fires_def)
  next
    case False
    show ?thesis
    proof (cases "fires s m e")
      case True
      let ?m = "m AND NOT (irq_bitmask (get_eng s e))"
      have "own_bits (emit (ScheduleWork e) s) es" using o by (simp add: own_bits_def)
      moreover have b: "irq_bitmask (get_eng s e) AND m \<noteq> 0 \<and> emagic (get_eng s e) = MAGIC_ENGINE"
        using True by (simp add: fires_def)
      ultimately have "scheduled (trace (schedule_loop es ?m (emit (ScheduleWork e) s))) =
          scheduled (trace s) @ e # filter (fires (emit (ScheduleWork e) s) ?m) es"
        using "2.IH"(1) [OF False refl] by simp
      moreover have "filter (fires (emit (ScheduleWork e) s) ?m) es = filter (fires s m) es"
        using "2.prems" by (intro filter_cong) (auto simp: fires_def own_bits_def and_not_disjoint)
      ultimately show ?thesis using True False b by (simp add: Let_def)
    next
      case quiet: False
      then have "\<not> (irq_bitmask (get_eng s e) AND m \<noteq> 0 \<and> emagic (get_eng s e) = MAGIC_ENGINE)"
        by (simp add: fires_def)
      with "2.IH"(2) [OF False refl _ o] False quiet show ?thesis by (auto simp: Let_def)
    qed
  qed
qed simp


text \<open>A user interrupt that is raised and has no handler leaves an event, unless one is waiting already.\<close>

definition raised :: "u32 \<Rightarrow> nat \<Rightarrow> xdma_user_irq \<Rightarrow> xdma_user_irq" where
  "raised req u ui = (if bit req u \<and> handler ui = None \<and> events_irq ui = 0 then ui\<lparr>events_irq := 1\<rparr> else ui)"

lemma user_irq_service_frame [simp]:
  "xfers (snd (user_irq_service E (Some u) s)) = xfers s"
  "get_eng (snd (user_irq_service E (Some u) s)) e = get_eng s e"
  "io_writes (trace (snd (user_irq_service E (Some u) s))) = io_writes (trace s)"
  "scheduled (trace (snd (user_irq_service E (Some u) s))) = scheduled (trace s)"
  by (simp_all add: Let_def split: option.split)

lemma user_irq_service_dev:
  "\<exists>ui. xdev (snd (user_irq_service E (Some u) s)) = (xdev s)\<lparr>user_irq := ui\<rparr>
     \<and> ui = (user_irq (xdev s))(u := (if handler (user_irq (xdev s) u) = None \<and> events_irq (user_irq (xdev s) u) = 0
              then (user_irq (xdev s) u)\<lparr>events_irq := 1\<rparr> else user_irq (xdev s) u))"
  by (auto simp: Let_def split: option.split)

declare user_irq_service.simps(2) [simp del]

lemma push_bit_test: "req AND 2 ^ u = (0 :: u32) \<longleftrightarrow> \<not> bit req u"
  by (simp add: bit_iff_and_push_bit_not_eq_0)

lemma user_irq_loop_frame [simp]:
  "xfers (user_irq_loop E u n req s) = xfers s" "get_eng (user_irq_loop E u n req s) e = get_eng s e"
  "io_writes (trace (user_irq_loop E u n req s)) = io_writes (trace s)"
  "scheduled (trace (user_irq_loop E u n req s)) = scheduled (trace s)"
  by (induction n arbitrary: u req s) simp_all

lemma user_irq_same: "(\<And>i. f i = user_irq d i) \<Longrightarrow> d = d\<lparr>user_irq := f\<rparr>"
proof -
  assume "\<And>i. f i = user_irq d i"
  then have "f = user_irq d" by (rule ext)
  then show ?thesis by simp
qed

lemma user_irq_loop_dev:
  "xdev (user_irq_loop E u n req s) = (xdev s)\<lparr>user_irq := (\<lambda>i.
     if u \<le> i \<and> i < u + n then raised req i (user_irq (xdev s) i) else user_irq (xdev s) i)\<rparr>"
proof (induction n arbitrary: u req s)
  case 0
  show ?case unfolding user_irq_loop.simps by (rule user_irq_same) auto
next
  case (Suc n)
  let ?s = "snd (user_irq_service E (Some u) s)" and ?r = "req AND NOT (push_bit u 1)"
  obtain ui where ui: "xdev ?s = (xdev s)\<lparr>user_irq := ui\<rparr>"
    "ui = (user_irq (xdev s))(u := (if handler (user_irq (xdev s) u) = None \<and> events_irq (user_irq (xdev s) u) = 0
            then (user_irq (xdev s) u)\<lparr>events_irq := 1\<rparr> else user_irq (xdev s) u))"
    using user_irq_service_dev by blast
  have r: "bit ?r i \<longleftrightarrow> bit req i" if "u + 1 \<le> i" for i
    using that by (auto simp: bit_simps dest: bit_imp_le_length)
  consider "req = 0" | "req \<noteq> 0" "bit req u" | "req \<noteq> 0" "\<not> bit req u" by blast
  then show ?case
  proof cases
    case 1
    then have "user_irq_loop E u (Suc n) req s = s" by simp
    then show ?thesis using 1 by (simp only:) (rule user_irq_same, simp add: raised_def)
  next
    case 2
    have "user_irq_loop E u (Suc n) req s = user_irq_loop E (u + 1) n ?r ?s"
      using 2 by (simp add: push_bit_test)
    then have x: "xdev (user_irq_loop E u (Suc n) req s) = (xdev ?s)\<lparr>user_irq := (\<lambda>i.
        if u + 1 \<le> i \<and> i < u + 1 + n then raised ?r i (user_irq (xdev ?s) i) else user_irq (xdev ?s) i)\<rparr>"
      by (simp only: Suc.IH)
    have "(\<lambda>i. if u + 1 \<le> i \<and> i < u + 1 + n then raised ?r i (user_irq (xdev ?s) i) else user_irq (xdev ?s) i)
      = (\<lambda>i. if u \<le> i \<and> i < u + Suc n then raised req i (user_irq (xdev s) i) else user_irq (xdev s) i)"
      using 2 r by (intro ext) (auto simp: ui raised_def)
    from x [unfolded this] show ?thesis unfolding ui(1) by simp
  next
    case 3
    then have "user_irq_loop E u (Suc n) req s = user_irq_loop E (u + 1) n req s"
      by (simp add: push_bit_test)
    moreover have "(\<lambda>i. if u + 1 \<le> i \<and> i < u + 1 + n then raised req i (user_irq (xdev s) i) else user_irq (xdev s) i)
      = (\<lambda>i. if u \<le> i \<and> i < u + Suc n then raised req i (user_irq (xdev s) i) else user_irq (xdev s) i)"
      using 3 by (intro ext) (auto simp: raised_def not_less_eq_eq le_less)
    ultimately show ?thesis by (simp add: Suc.IH)
  qed
qed



definition irq_env :: env where
  "irq_env = env0\<lparr>ioread32 := (\<lambda>_ a. if a = 0x2044 then 5 else if a = 0x2040 then 2 else 0)\<rparr>"

definition irq_world :: world where
  "irq_world = upd_xdev (\<lambda>d. d\<lparr>h2c_channel_max := 1, c2h_channel_max := 1, mask_irq_h2c := 1, mask_irq_c2h := 2\<rparr>)
     (upd_eng (H2C 0) (\<lambda>g. g\<lparr>emagic := MAGIC_ENGINE, irq_bitmask := 1\<rparr>)
       (upd_eng (C2H 0) (\<lambda>g. g\<lparr>emagic := MAGIC_ENGINE, irq_bitmask := 2\<rparr>) world0))"


section \<open>Balance of the interrupt lines\<close>

text \<open>How often a line is held for a cookie: successful requests minus releases.\<close>

definition irq_delta :: "int list \<Rightarrow> event \<Rightarrow> int" where
  "irq_delta k ev = (case ev of Kernel f as r \<Rightarrow>
       if as = k then (if f = ''request_irq'' \<and> r = 0 then 1 else if f = ''free_irq'' then - 1 else 0) else 0
     | _ \<Rightarrow> 0)"

definition irq_held :: "int list \<Rightarrow> world \<Rightarrow> int" where
  "irq_held k s = balance (irq_delta k) s"

lemma irq_held_emit [simp]: "irq_held k (emit ev s) = irq_held k s + irq_delta k ev"
  by (simp add: irq_held_def)

lemma irq_held_start: "trace s = [] \<Longrightarrow> irq_held k s = 0"
  by (simp add: irq_held_def balance_def)

lemma irq_held_frame [simp]:
  "irq_held k (upd_eng e f s) = irq_held k s" "irq_held k (upd_xdev h s) = irq_held k s"
  "irq_held k (write_register v a s) = irq_held k s"
  by (simp_all add: irq_held_def write_register_def irq_delta_def)

lemma irq_delta_simps [simp]:
  "irq_delta k (Kernel ''pci_irq_vector'' as r) = 0"
  "irq_delta k (Kernel ''pci_read_config_word'' as r) = 0"
  "irq_delta k (Kernel ''pci_read_config_byte'' as r) = 0"
  "irq_delta k (Kernel ''pci_write_config_word'' as r) = 0"
  "irq_delta k (Kernel ''free_irq'' as r) = - of_bool (as = k)"
  "irq_delta k (Kernel ''request_irq'' as r) = of_bool (as = k \<and> r = 0)"
  by (auto simp: irq_delta_def)

lemma irq_held_prog_vectors [simp]: "irq_held k (prog_vectors base clear i mx j s) = irq_held k s"
proof (induction base clear i mx j s rule: prog_vectors.induct)
  case (1 base clear i mx j s)
  then show ?case by (subst prog_vectors.simps) simp
qed

text \<open>The kernel keeps the vector table of a device while its interrupts are set up.\<close>

definition stable_vectors :: "env \<Rightarrow> (nat \<Rightarrow> int) \<Rightarrow> bool" where
  "stable_vectors E vec \<longleftrightarrow> (\<forall>tr j. kernel E tr ''pci_irq_vector'' [int j] = vec j)"

lemma stable_vectorsD: "stable_vectors E vec \<Longrightarrow> kernel E tr ''pci_irq_vector'' [int j] = vec j"
  by (simp add: stable_vectors_def)

lemma free_user_irq_held:
  assumes "stable_vectors E vec"
  shows "irq_held k (free_user_irq E j i s) = irq_held k s - of_bool ([vec (j + i), 2, int i] = k)"
  using stable_vectorsD [OF assms, of _ "j + i"]
  by (simp add: free_user_irq_def free_irq_def split_beta)

lemma fold_free_user_held:
  assumes "stable_vectors E vec"
  shows "irq_held k (fold (free_user_irq E j) is s) =
     irq_held k s - sum_list (map (\<lambda>i. of_bool ([vec (j + i), 2, int i] = k)) is)"
  by (induction "is" arbitrary: s) (simp_all add: free_user_irq_held [OF assms])

lemma fold_free_user_frame [simp]: "xdev (fold (free_user_irq E j) is s) = xdev s"
  by (induction "is" arbitrary: s) (simp_all add: free_user_irq_def free_irq_def split_beta)

lemma request_user_held:
  assumes "stable_vectors E vec"
  shows "request_user_irqs E j i n s = (rv, m, s') \<Longrightarrow>
     i \<le> m \<and> (rv = Inr () \<longrightarrow> m = i + n) \<and> xdev s' = xdev s
     \<and> irq_held k s' = irq_held k s + sum_list (map (\<lambda>i. of_bool ([vec (j + i), 2, int i] = k)) [i..<m])"
proof (induction n arbitrary: i s)
  case (Suc n)
  let ?v = "vec (j + i)"
  let ?s = "snd (kcall E ''request_irq'' [?v, 2, int i] (snd (kcall E ''pci_irq_vector'' [int (j + i)] s)))"
  let ?r = "kernel E (trace (snd (kcall E ''pci_irq_vector'' [int (j + i)] s))) ''request_irq'' [?v, 2, int i]"
  note v = stable_vectorsD [OF assms, of _ "j + i"]
  show ?case
  proof (cases "?r = 0")
    case False
    with Suc.prems v have "rv = Inl (kerr ?r)" "m = i" "s' = ?s" by (auto simp: split_beta Let_def)
    with False v show ?thesis by (simp)
  next
    case True
    with Suc.prems v have r: "request_user_irqs E j (i + 1) n ?s = (rv, m, s')"
      by (auto simp: split_beta Let_def)
    have h: "irq_held k ?s = irq_held k s + of_bool ([?v, 2, int i] = k)" using True v by simp
    from Suc.IH [OF r] have m: "i + 1 \<le> m" "rv = Inr () \<longrightarrow> m = i + 1 + n" "xdev s' = xdev ?s"
      "irq_held k s' = irq_held k ?s + sum_list (map (\<lambda>i. of_bool ([vec (j + i), 2, int i] = k)) [i + 1..<m])"
      by blast+
    have "[i..<m] = i # [i + 1..<m]" using m(1) by (simp add: upt_conv_Cons)
    with m h show ?thesis by simp
  qed
qed auto

text \<open>When a user interrupt line cannot be had, every line requested before it is released: for every
  line and cookie the balance is what it was, whatever request fails.\<close>

theorem irq_msix_user_setup_rollback:
  assumes "stable_vectors E vec" and "irq_msix_user_setup E s = (Inl rv, s')"
  shows "\<forall>k. irq_held k s' = irq_held k s"
proof
  fix k
  define j where "j = h2c_channel_max (xdev s) + c2h_channel_max (xdev s)"
  obtain r m s1 where r: "request_user_irqs E j 0 (user_max (xdev s)) s = (r, m, s1)"
    by (metis prod_cases3)
  with assms(2) have "s' = fold (free_user_irq E j) (rev [0..<m]) s1"
    by (auto simp: irq_msix_user_setup_def j_def Let_def split: sum.splits)
  with request_user_held [OF assms(1) r] show "irq_held k s' = irq_held k s"
    by (simp add: fold_free_user_held [OF assms(1)] rev_map [symmetric])
qed


definition short_env :: env where
  "short_env = env0\<lparr>kernel := (\<lambda>tr f as. if f = ''pci_irq_vector'' then hd as + 32
     else if f = ''request_irq'' then (if hd as = 42 then - 16 else 0) else 0)\<rparr>"

lemma short_vectors: "stable_vectors short_env (\<lambda>j. int j + 32)"
  by (simp add: stable_vectors_def short_env_def)

theorem irq_msix_user_setup_rollback_witness:
  "\<exists>s'. irq_msix_user_setup short_env world0 = (Inl (EOTHER 16), s') \<and> irq_held [41, 2, 1] s' = 0"
proof -
  have "fst (irq_msix_user_setup short_env world0) = Inl (EOTHER 16)" by code_simp
  then obtain s' where s': "irq_msix_user_setup short_env world0 = (Inl (EOTHER 16), s')"
    by (metis prod.collapse)
  from irq_msix_user_setup_rollback [OF short_vectors this] show ?thesis
    by (simp add: s' irq_held_start)
qed

definition line_sum :: "int list \<Rightarrow> (eref \<times> int) list \<Rightarrow> int" where
  "line_sum k ls = sum_list (map (\<lambda>(e, v). of_bool (v # irq_cookie e = k)) ls)"

text \<open>One request: the state after the two kernel calls, and the answer.\<close>

definition line_asked :: "env \<Rightarrow> (nat \<Rightarrow> int) \<Rightarrow> eref \<Rightarrow> nat \<Rightarrow> world \<Rightarrow> world" where
  "line_asked E vec e i s =
     snd (kcall E ''request_irq'' (vec i # irq_cookie e) (snd (kcall E ''pci_irq_vector'' [int i] s)))"

definition line_answer :: "env \<Rightarrow> (nat \<Rightarrow> int) \<Rightarrow> eref \<Rightarrow> nat \<Rightarrow> world \<Rightarrow> int" where
  "line_answer E vec e i s =
     kernel E (trace (snd (kcall E ''pci_irq_vector'' [int i] s))) ''request_irq'' (vec i # irq_cookie e)"

lemma line_asked_frame [simp]:
  "xdev (line_asked E vec e i s) = xdev s" "get_eng (line_asked E vec e i s) e' = get_eng s e'"
  by (simp_all add: line_asked_def)

lemma line_asked_held:
  "irq_held k (line_asked E vec e i s) =
     irq_held k s + of_bool (vec i # irq_cookie e = k \<and> line_answer E vec e i s = 0)"
  by (simp add: line_asked_def line_answer_def)

lemma request_engine_Cons:
  assumes "stable_vectors E vec"
  shows "request_engine_irqs E ((e, i) # es) s =
    (if line_answer E vec e i s \<noteq> 0 then (Inl (kerr (line_answer E vec e i s)), line_asked E vec e i s)
     else request_engine_irqs E es (upd_eng e (\<lambda>g. g\<lparr>msix_irq_line := vec i\<rparr>) (line_asked E vec e i s)))"
  using stable_vectorsD [OF assms, of _ i]
  by (simp add: split_beta Let_def line_answer_def line_asked_def)

declare request_engine_irqs.simps(2) [simp del]

lemma user_cookie: "irq_cookie e \<noteq> [2, u]"
  by (cases e) auto

lemma request_engine_frame:
  assumes "stable_vectors E vec"
  shows "msix_enabled (xdev (snd (request_engine_irqs E es s))) = msix_enabled (xdev s)"
    and "user_max (xdev (snd (request_engine_irqs E es s))) = user_max (xdev s)"
    and "h2c_channel_max (xdev (snd (request_engine_irqs E es s))) = h2c_channel_max (xdev s)"
    and "c2h_channel_max (xdev (snd (request_engine_irqs E es s))) = c2h_channel_max (xdev s)"
    and "irq_held [v, 2, u] (snd (request_engine_irqs E es s)) = irq_held [v, 2, u] s"
    and "e \<notin> fst ` set es \<Longrightarrow> get_eng (snd (request_engine_irqs E es s)) e = get_eng s e"
  by (induction es arbitrary: s) (auto simp: request_engine_Cons [OF assms] line_asked_held user_cookie split: if_splits)

lemma request_engine_held:
  assumes "stable_vectors E vec" and "fst (request_engine_irqs E es s) = Inr ()" and "distinct (map fst es)"
  shows "(\<forall>(e, i) \<in> set es. msix_irq_line (get_eng (snd (request_engine_irqs E es s)) e) = vec i)
    \<and> irq_held k (snd (request_engine_irqs E es s)) =
        irq_held k s + line_sum k (map (\<lambda>(e, i). (e, vec i)) es)"
  using assms(2,3)
proof (induction es arbitrary: s)
  case (Cons p es)
  obtain e i where p: "p = (e, i)" by fastforce
  let ?s = "upd_eng e (\<lambda>g. g\<lparr>msix_irq_line := vec i\<rparr>) (line_asked E vec e i s)"
  have z: "line_answer E vec e i s = 0"
    using Cons.prems(1) by (auto simp: p request_engine_Cons [OF assms(1)] split: if_splits)
  have r: "request_engine_irqs E ((e, i) # es) s = request_engine_irqs E es ?s"
    by (simp add: request_engine_Cons [OF assms(1)] z)
  have "get_eng (snd (request_engine_irqs E es ?s)) e = get_eng ?s e"
    using Cons.prems(2) by (intro request_engine_frame(6) [OF assms(1)]) (auto simp: p)
  then have "msix_irq_line (get_eng (snd (request_engine_irqs E es ?s)) e) = vec i" by simp
  with Cons.IH [of ?s] Cons.prems show ?case
    by (simp add: r line_asked_held z line_sum_def p)
qed (simp add: line_sum_def)

lemma free_engine_frame [simp]:
  "xdev (free_engine_irqs es s) = xdev s" "get_eng (free_engine_irqs es s) e = get_eng s e"
  by (induction es s rule: free_engine_irqs.induct) (simp_all add: free_irq_def)

lemma free_engine_held:
  "\<forall>e\<in>set es. msix_irq_line (get_eng s e) \<noteq> 0 \<Longrightarrow>
   irq_held k (free_engine_irqs es s) = irq_held k s - line_sum k (map (\<lambda>e. (e, msix_irq_line (get_eng s e))) es)"
  by (induction es s rule: free_engine_irqs.induct) (simp_all add: free_irq_def line_sum_def)

lemma free_engine_held_user: "irq_held [v, 2, u] (free_engine_irqs es s) = irq_held [v, 2, u] s"
proof (induction es s rule: free_engine_irqs.induct)
  case (2 e es s)
  have "irq_cookie e \<noteq> [2, u]" by (cases e) auto
  with 2 show ?case by (simp add: free_irq_def)
qed simp

lemma pci_keep_frame [simp]:
  "xdev (pci_keep_intx_enabled E s) = xdev s" "get_eng (pci_keep_intx_enabled E s) e = get_eng s e"
  "irq_held k (pci_keep_intx_enabled E s) = irq_held k s" "xfers (pci_keep_intx_enabled E s) = xfers s"
  by (simp_all add: pci_keep_intx_enabled_def split_beta Let_def)

lemma prog_irq_frame [simp]:
  "xdev (prog_irq_msix_user c s) = xdev s" "xdev (prog_irq_msix_channel c s) = xdev s"
  "get_eng (prog_irq_msix_user c s) e = get_eng s e" "get_eng (prog_irq_msix_channel c s) e = get_eng s e"
  "irq_held k (prog_irq_msix_user c s) = irq_held k s" "irq_held k (prog_irq_msix_channel c s) = irq_held k s"
  by (simp_all add: prog_irq_msix_user_def prog_irq_msix_channel_def Let_def)


lemma channel_vectors_fst:
  "map fst (channel_vectors s) = h2c_engines s @ c2h_engines s" "distinct (map fst (channel_vectors s))"
proof -
  show m: "map fst (channel_vectors s) = h2c_engines s @ c2h_engines s"
    by (simp add: channel_vectors_def h2c_engines_def c2h_engines_def)
  show "distinct (map fst (channel_vectors s))"
    unfolding m by (auto simp: h2c_engines_def c2h_engines_def distinct_map inj_on_def)
qed

text \<open>The two parts of a teardown, seen from the balance.\<close>

lemma channel_teardown_held:
  assumes "msix_enabled (xdev s)"
    and "\<forall>(e, i) \<in> set (channel_vectors s). msix_irq_line (get_eng s e) = vec i" and "\<forall>i. vec i \<noteq> (0 :: int)"
  shows "irq_held k (irq_msix_channel_teardown s) =
    irq_held k s - line_sum k (map (\<lambda>(e, i). (e, vec i)) (channel_vectors s))"
proof -
  let ?es = "h2c_engines s @ c2h_engines s"
  have nz: "msix_irq_line (get_eng s e) \<noteq> 0" if "e \<in> set ?es" for e
  proof -
    from that have "e \<in> fst ` set (channel_vectors s)"
      unfolding channel_vectors_fst(1) [symmetric] by simp
    with assms(2,3) show ?thesis by force
  qed
  have "map (\<lambda>(e, i). (e, vec i)) (channel_vectors s) =
      map (\<lambda>p. (fst p, msix_irq_line (get_eng s (fst p)))) (channel_vectors s)"
    using assms(2) by (intro map_cong) auto
  also have "\<dots> = map (\<lambda>e. (e, msix_irq_line (get_eng s e))) (map fst (channel_vectors s))" by simp
  finally have m: "map (\<lambda>(e, i). (e, vec i)) (channel_vectors s) =
      map (\<lambda>e. (e, msix_irq_line (get_eng s e))) ?es" unfolding channel_vectors_fst(1) .
  have f: "h2c_engines (prog_irq_msix_channel c t) = h2c_engines t"
    "c2h_engines (free_engine_irqs es t) = c2h_engines t" "c2h_engines (prog_irq_msix_channel c t) = c2h_engines t"
    for c t es by (simp_all add: h2c_engines_def c2h_engines_def)
  show ?thesis
    using assms(1) nz unfolding m irq_msix_channel_teardown_def Let_def
    by (simp add: f free_engine_held line_sum_def)
qed

lemma user_teardown_held:
  assumes "stable_vectors E vec" and "msix_enabled (xdev s)"
  shows "irq_held k (irq_msix_user_teardown E s) = irq_held k s - sum_list (map (\<lambda>i.
     of_bool ([vec (h2c_channel_max (xdev s) + c2h_channel_max (xdev s) + i), 2, int i] = k)) [0..<user_max (xdev s)])"
  using assms(2) by (simp add: irq_msix_user_teardown_def Let_def fold_free_user_held [OF assms(1)])

lemma channel_teardown_frame [simp]:
  "xdev (irq_msix_channel_teardown s) = xdev s"
  by (simp add: irq_msix_channel_teardown_def Let_def)

lemma legacy_vectors_frame [simp]:
  "xdev (legacy_vectors val s) = xdev s" "irq_held k (legacy_vectors val s) = irq_held k s"
  by (simp_all add: legacy_vectors_def Let_def)

lemma request_dev_irq_effect:
  "fst (request_dev_irq E fl s) = Inr () \<Longrightarrow>
   irq_line (xdev (snd (request_dev_irq E fl s))) = kernel E (trace s) ''pdev->irq'' []
   \<and> irq_held k (snd (request_dev_irq E fl s)) = irq_held k s
       + of_bool ([kernel E (trace s) ''pdev->irq'' [], 3, int (self (xdev s))] = k)"
  "xdev (snd (request_dev_irq E fl s)) = (xdev s)\<lparr>irq_line := kernel E (trace s) ''pdev->irq'' []\<rparr>"
  by (auto simp: request_dev_irq_def Let_def split_beta split: if_splits)

lemma get_eng_xdev: "xdev a = xdev b \<Longrightarrow> get_eng a e = get_eng b e"
  by (cases e) (simp_all add: get_eng.simps)

lemma msix_setup_teardown_held:
  assumes v: "stable_vectors E vec" "\<forall>j. vec j \<noteq> 0" and m: "msix_enabled (xdev s)"
    and ok: "fst (irq_setup E s) = Inr ()"
  shows "irq_held k (irq_teardown E (snd (irq_setup E s))) = irq_held k s"
proof -
  define s0 where "s0 = pci_keep_intx_enabled E s"
  define s1 where "s1 = snd (request_engine_irqs E (channel_vectors s0) s0)"
  define j where "j = h2c_channel_max (xdev s) + c2h_channel_max (xdev s)"
  have x0: "xdev s0 = xdev s" by (simp add: s0_def)
  have ok1: "fst (request_engine_irqs E (channel_vectors s0) s0) = Inr ()"
    using ok m unfolding irq_setup_def Let_def s0_def [symmetric] irq_msix_channel_setup_def x0
    by (auto split: prod.splits sum.splits)
  note fr = request_engine_frame [OF v(1), where es = "channel_vectors s0" and s = s0, folded s1_def]
  note ch = request_engine_held [OF v(1) ok1 channel_vectors_fst(2), of k, folded s1_def]
  have cs: "irq_msix_channel_setup E s0 = (Inr (), s1)"
    using m ok1 by (simp add: irq_msix_channel_setup_def x0 s1_def prod_eq_iff)
  have ok2: "fst (irq_msix_user_setup E s1) = Inr ()"
    using ok m unfolding irq_setup_def Let_def s0_def [symmetric] cs
    by (auto simp: x0 split: prod.splits sum.splits)
  obtain r i s2 where r: "request_user_irqs E j 0 (user_max (xdev s1)) s1 = (r, i, s2)" by (metis prod_cases3)
  have u: "irq_msix_user_setup E s1 = (r, case r of Inl _ \<Rightarrow> fold (free_user_irq E j) (rev [0..<i]) s2 | Inr _ \<Rightarrow> s2)"
  proof -
    have "h2c_channel_max (xdev s1) + c2h_channel_max (xdev s1) = j" by (simp add: fr x0 j_def)
    with r show ?thesis by (simp add: irq_msix_user_setup_def Let_def)
  qed
  with ok2 have r0: "r = Inr ()" by simp
  note us = request_user_held [OF v(1) r, of k]
  have i: "i = user_max (xdev s)" using us r0 fr x0 by simp
  have us2: "irq_msix_user_setup E s1 = (Inr (), s2)" using u r0 by simp
  define s3 where "s3 = snd (irq_setup E s)"
  have s3: "s3 = prog_irq_msix_user False (prog_irq_msix_channel False s2)"
    using m unfolding s3_def irq_setup_def Let_def s0_def [symmetric] cs by (simp add: us2 x0)
  have x3: "xdev s3 = xdev s1" using us by (simp add: s3)
  have e3: "get_eng s3 e = get_eng s1 e" for e by (rule get_eng_xdev [OF x3])
  have c3: "channel_vectors s3 = channel_vectors s0"
    by (simp add: channel_vectors_def h2c_engines_def c2h_engines_def x3 fr)
  have "irq_held k (irq_msix_channel_teardown s3) =
      irq_held k s3 - line_sum k (map (\<lambda>(e, i). (e, vec i)) (channel_vectors s0))"
    unfolding c3 [symmetric] using ch v(2) m by (intro channel_teardown_held) (simp_all add: x3 fr x0 c3 e3)
  moreover have "irq_held k (irq_msix_user_teardown E (irq_msix_channel_teardown s3)) =
      irq_held k (irq_msix_channel_teardown s3) -
      sum_list (map (\<lambda>i. of_bool ([vec (j + i), 2, int i] = k)) [0..<i])"
    using m by (subst user_teardown_held [OF v(1)]) (simp_all add: x3 fr x0 i j_def)
  moreover have "irq_held k s3 = irq_held k s
      + line_sum k (map (\<lambda>(e, i). (e, vec i)) (channel_vectors s0))
      + sum_list (map (\<lambda>i. of_bool ([vec (j + i), 2, int i] = k)) [0..<i])"
    using ch us by (simp add: s3 s0_def)
  moreover have "irq_teardown E s3 = irq_msix_user_teardown E (irq_msix_channel_teardown s3)"
    using m by (simp add: irq_teardown_def x3 fr x0)
  ultimately show ?thesis by (simp add: s3_def)
qed

lemma dev_setup_teardown_held:
  assumes "\<forall>tr. kernel E tr ''pdev->irq'' [] \<noteq> - 1" and "\<not> msix_enabled (xdev s)"
    and "fst (irq_setup E s) = Inr ()"
  shows "irq_held k (irq_teardown E (snd (irq_setup E s))) = irq_held k s"
proof -
  have "\<exists>fl t. irq_setup E s = request_dev_irq E fl t \<and> xdev t = xdev s \<and> irq_held k t = irq_held k s"
  proof (cases "msi_enabled (xdev s)")
    case True
    with assms(2) show ?thesis
      by (intro exI [of _ 0] exI [of _ "pci_keep_intx_enabled E s"])
        (simp add: irq_setup_def Let_def irq_msi_setup_def)
  next
    case False
    let ?c = "kcall E ''pci_read_config_byte'' [0x3d] (pci_keep_intx_enabled E s)"
    let ?v = "word_of_int (fst ?c) :: u8"
    have "irq_setup E s = request_dev_irq E 0x80 (if 1 < ?v then legacy_vectors ?v (snd ?c) else snd ?c)"
      using False assms(2,3) by (auto simp: irq_setup_def Let_def irq_legacy_setup_def split_beta split: if_splits)
    moreover have "xdev (if 1 < ?v then legacy_vectors ?v (snd ?c) else snd ?c) = xdev s"
      "irq_held k (if 1 < ?v then legacy_vectors ?v (snd ?c) else snd ?c) = irq_held k s" by simp_all
    ultimately show ?thesis by blast
  qed
  then obtain fl t where t: "irq_setup E s = request_dev_irq E fl t" "xdev t = xdev s" "irq_held k t = irq_held k s"
    by blast
  note d = request_dev_irq_effect [of E fl t]
  have "fst (request_dev_irq E fl t) = Inr ()" using assms(3) t(1) by simp
  from d(1) [OF this, of k] d(2) t assms(1,2) show ?thesis
    by (simp add: irq_teardown_def free_irq_def)
qed

text \<open>C22: setting up the interrupts of a device and tearing them down again releases exactly the lines
  that were requested, in MSI-X, MSI and legacy mode.  The kernel has to keep the vector table while
  the device is open, with no vector zero, and to have a line for the device.\<close>

theorem irq_setup_teardown:
  assumes "stable_vectors E vec" and "\<forall>j. vec j \<noteq> 0" and "\<forall>tr. kernel E tr ''pdev->irq'' [] \<noteq> - 1"
    and "irq_setup E s = (Inr (), s')"
  shows "\<forall>k. irq_held k (irq_teardown E s') = irq_held k s"
proof
  fix k
  from assms(4) have r: "fst (irq_setup E s) = Inr ()" "snd (irq_setup E s) = s'" by simp_all
  show "irq_held k (irq_teardown E s') = irq_held k s"
    using msix_setup_teardown_held [OF assms(1,2) _ r(1)] dev_setup_teardown_held [OF assms(3) _ r(1)]
    unfolding r(2) by blast
qed

definition grant_env :: env where
  "grant_env = env0\<lparr>kernel := (\<lambda>_ f as. if f = ''pci_irq_vector'' then hd as + 32 else 0)\<rparr>"

definition msix_world :: world where
  "msix_world = upd_xdev (\<lambda>d. d\<lparr>msix_enabled := True, h2c_channel_max := 1, c2h_channel_max := 1, user_max := 2\<rparr>) world0"

theorem irq_setup_teardown_witness:
  "\<exists>s'. irq_setup grant_env msix_world = (Inr (), s') \<and> irq_held [32, 0, 0] s' = 1
    \<and> irq_held [32, 0, 0] (irq_teardown grant_env s') = 0"
proof -
  have v: "stable_vectors grant_env (\<lambda>j. int j + 32)" "\<forall>j. int j + 32 \<noteq> 0"
    "\<forall>tr. kernel grant_env tr ''pdev->irq'' [] \<noteq> - 1"
    by (simp_all add: stable_vectors_def grant_env_def)
  have r: "fst (irq_setup grant_env msix_world) = Inr ()"
    "irq_held [32, 0, 0] (snd (irq_setup grant_env msix_world)) = 1" by code_simp+
  then obtain s' where s': "irq_setup grant_env msix_world = (Inr (), s')" by (metis prod.collapse)
  have "irq_held [32, 0, 0] (irq_teardown grant_env s') = irq_held [32, 0, 0] msix_world"
    using irq_setup_teardown [OF v s'] by blast
  with r s' show ?thesis by (simp add: irq_held_start msix_world_def)
qed

text \<open>When a channel line cannot be had, the setup fails before any user line is requested, and a
  teardown after that releases user line 0, which was never requested: its balance drops below what
  it was.  This is the sequence of a reset, where \<open>xdma_device_online\<close> ignores the failure, followed
  by the next \<open>xdma_device_offline\<close> or \<open>xdma_device_close\<close>.\<close>

theorem irq_teardown_after_failed_setup:
  assumes "stable_vectors E vec" and "msix_enabled (xdev s)" and "0 < user_max (xdev s)"
    and "fst (irq_msix_channel_setup E (pci_keep_intx_enabled E s)) = Inl rv"
  defines "k \<equiv> [vec (h2c_channel_max (xdev s) + c2h_channel_max (xdev s)), 2, 0]"
  shows "fst (irq_setup E s) = Inl rv \<and> irq_held k (irq_teardown E (snd (irq_setup E s))) = irq_held k s - 1"
proof -
  define s0 where "s0 = pci_keep_intx_enabled E s"
  define s1 where "s1 = snd (request_engine_irqs E (channel_vectors s0) s0)"
  have x0: "xdev s0 = xdev s" by (simp add: s0_def)
  have f: "irq_setup E s = (Inl rv, s1)"
    using assms(2,4) unfolding irq_setup_def Let_def s0_def [symmetric]
    by (simp add: irq_msix_channel_setup_def x0 case_res_Inl s1_def)
  note fr = request_engine_frame [OF assms(1), where es = "channel_vectors s0" and s = s0, folded s1_def]
  have c: "irq_held k (irq_msix_channel_teardown s1) = irq_held k s"
    using fr(5) assms(2) by (simp add: irq_msix_channel_teardown_def Let_def k_def free_engine_held_user s0_def)
  have u: "sum_list (map (\<lambda>i. of_bool ([vec (h2c_channel_max (xdev s) + c2h_channel_max (xdev s) + i), 2, int i] = k))
      [0..<n]) = (1 :: int)" if "0 < n" for n
    using that
  proof (induction n)
    case (Suc n)
    then show ?case by (cases n) (auto simp: k_def)
  qed simp
  have "irq_teardown E s1 = irq_msix_user_teardown E (irq_msix_channel_teardown s1)"
    using assms(2) by (simp add: irq_teardown_def fr x0)
  then have "irq_held k (irq_teardown E s1) = irq_held k s - 1"
    using assms(2,3) u by (simp add: user_teardown_held [OF assms(1)] fr x0 c)
  with f show ?thesis by simp
qed

definition refuse_env :: env where
  "refuse_env = env0\<lparr>kernel := (\<lambda>_ f as. if f = ''pci_irq_vector'' then hd as + 32
     else if f = ''request_irq'' then - 16 else 0)\<rparr>"

theorem irq_teardown_after_failed_setup_witness:
  "fst (irq_setup refuse_env msix_world) = Inl (EOTHER 16)
   \<and> irq_held [34, 2, 0] (irq_teardown refuse_env (snd (irq_setup refuse_env msix_world))) = - 1"
proof -
  have v: "stable_vectors refuse_env (\<lambda>j. int j + 32)" by (simp add: stable_vectors_def refuse_env_def)
  have f: "fst (irq_msix_channel_setup refuse_env (pci_keep_intx_enabled refuse_env msix_world)) = Inl (EOTHER 16)"
    by code_simp
  have w: "msix_enabled (xdev msix_world)" "0 < user_max (xdev msix_world)"
    "h2c_channel_max (xdev msix_world) = 1" "c2h_channel_max (xdev msix_world) = 1" "trace msix_world = []"
    by (simp_all add: msix_world_def)
  from irq_teardown_after_failed_setup [OF v w(1,2) f] show ?thesis by (simp add: w irq_held_start)
qed

end
