(* ===== verification/Bars.thy ===== *)
theory Bars
  imports Irq
begin

text \<open>
  Mapping the base address registers of the device (\<open>libxdma.c\<close>, \<open>unmap_bars\<close> to \<open>map_bars\<close>) and
  finding out which one holds the DMA configuration, which the user logic and which the bypass.
\<close>

definition set_bar :: "nat \<Rightarrow> u64 \<Rightarrow> world \<Rightarrow> world" where
  "set_bar i p s = upd_xdev (\<lambda>d. d\<lparr>bar := (bar d)(i := p)\<rparr>) s"

definition unmap_bar :: "nat \<Rightarrow> world \<Rightarrow> world" where
  "unmap_bar i s =
     (if bar (xdev s) i \<noteq> 0
      then set_bar i 0 (emit (Kernel ''pci_iounmap'' [uint (bar (xdev s) i)] 0) s) else s)"

definition unmap_bars :: "world \<Rightarrow> world" where
  "unmap_bars s = fold unmap_bar [0..<XDMA_BAR_NUM] s"

definition INT_MAX :: int where "INT_MAX = 2 ^ 31 - 1"

text \<open>The length of a BAR is an unsigned 64-bit number.\<close>

definition bar_length :: "env \<Rightarrow> nat \<Rightarrow> world \<Rightarrow> int" where
  "bar_length E i s = uint (word_of_int (kernel E (trace s) ''pci_resource_len'' [int i]) :: u64)"

definition map_single_bar :: "env \<Rightarrow> nat \<Rightarrow> world \<Rightarrow> int \<times> world" where
  "map_single_bar E i s =
     (let bar_len = bar_length E i s; s = set_bar i 0 s
      in if bar_len = 0 then (0, s)
         else let map_len = (if INT_MAX < bar_len then INT_MAX else bar_len);
                  (p, s) = kcall E ''pci_iomap'' [int i, map_len] s;
                  s = set_bar i (word_of_int p) s
              in if bar (xdev s) i = 0 then (- 1, s) else (map_len, s))"

definition is_config_bar :: "env \<Rightarrow> nat \<Rightarrow> world \<Rightarrow> bool \<times> world" where
  "is_config_bar E i s =
     (let (irq_id, s) = read_register E (bar (xdev s) i + XDMA_OFS_INT_CTRL + ireg ''identifier'') s;
          (cfg_id, s) = read_register E (bar (xdev s) i + XDMA_OFS_CONFIG + creg ''identifier'') s
      in (irq_id AND 0xffff0000 = IRQ_BLOCK_ID \<and> cfg_id AND 0xffff0000 = CONFIG_BLOCK_ID, s))"

definition identify_bars :: "nat list \<Rightarrow> nat \<Rightarrow> world \<Rightarrow> world" where
  "identify_bars ids pos s =
     (let n = length ids
      in if n = 2
         then if pos = 0 then upd_xdev (\<lambda>d. d\<lparr>bypass_bar_idx := int (ids ! 1)\<rparr>) s
              else if pos = 1 then upd_xdev (\<lambda>d. d\<lparr>user_bar_idx := int (ids ! 0)\<rparr>) s
              else s
         else if n = 3 \<or> n = 4
         then if pos = 1 \<or> pos = 2
              then upd_xdev (\<lambda>d. d\<lparr>user_bar_idx := int (ids ! 0), bypass_bar_idx := int (ids ! (n - 1))\<rparr>) s
              else s
         else s)"

text \<open>The loop over the BARs with the list of those present and the position of the configuration BAR.\<close>

fun map_loop :: "env \<Rightarrow> nat list \<Rightarrow> nat list \<Rightarrow> nat \<Rightarrow> world \<Rightarrow> (nat list \<times> nat) res \<times> world" where
  "map_loop E [] ids pos s = (Inr (ids, pos), s)"
| "map_loop E (i # is) ids pos s =
     (let (len, s) = map_single_bar E i s
      in if len = 0 then map_loop E is ids pos s
         else if len < 0 then (Inl EINVAL, s)
         else let (cfg, s) = (if XDMA_BAR_SIZE \<le> len \<and> config_bar_idx (xdev s) < 0
                              then is_config_bar E i s else (False, s));
                  s = (if cfg then upd_xdev (\<lambda>d. d\<lparr>config_bar_idx := int i\<rparr>) s else s)
              in map_loop E is (ids @ [i]) (if cfg then length ids else pos) s)"

definition map_bars :: "env \<Rightarrow> world \<Rightarrow> unit res \<times> world" where
  "map_bars E s =
     (case map_loop E [0..<XDMA_BAR_NUM] [] 0 s of
        (Inl rv, s) \<Rightarrow> (Inl rv, unmap_bars s)
      | (Inr (ids, pos), s) \<Rightarrow>
          if config_bar_idx (xdev s) < 0 then (Inl EINVAL, unmap_bars s)
          else (Inr (), identify_bars ids pos s))"


section \<open>Properties\<close>

lemma set_bar_frame [simp]:
  "bar (xdev (set_bar i p s)) = (bar (xdev s))(i := p)"
  "config_bar_idx (xdev (set_bar i p s)) = config_bar_idx (xdev s)"
  "user_bar_idx (xdev (set_bar i p s)) = user_bar_idx (xdev s)"
  "bypass_bar_idx (xdev (set_bar i p s)) = bypass_bar_idx (xdev s)"
  "trace (set_bar i p s) = trace s" "get_eng (set_bar i p s) e = get_eng s e"
  by (simp_all add: set_bar_def)

lemma unmap_bars_zero: "i < XDMA_BAR_NUM \<Longrightarrow> bar (xdev (unmap_bars s)) i = 0"
proof -
  have "bar (xdev (fold unmap_bar is s)) i = (if i \<in> set is then 0 else bar (xdev s) i)" for "is"
    by (induction "is" arbitrary: s) (auto simp: unmap_bar_def)
  then show "i < XDMA_BAR_NUM \<Longrightarrow> ?thesis" by (simp add: unmap_bars_def)
qed

text \<open>The roles a device gives its BARs: the configuration BAR is mapped, and user and bypass BARs are
  absent or mapped.\<close>

definition bar_roles :: "xdma_dev \<Rightarrow> bool" where
  "bar_roles d \<longleftrightarrow> 0 \<le> config_bar_idx d \<and> config_bar_idx d < int XDMA_BAR_NUM
     \<and> bar d (nat (config_bar_idx d)) \<noteq> 0
     \<and> (user_bar_idx d = - 1 \<or> 0 \<le> user_bar_idx d \<and> user_bar_idx d < int XDMA_BAR_NUM \<and> bar d (nat (user_bar_idx d)) \<noteq> 0)
     \<and> (bypass_bar_idx d = - 1 \<or> 0 \<le> bypass_bar_idx d \<and> bypass_bar_idx d < int XDMA_BAR_NUM
          \<and> bar d (nat (bypass_bar_idx d)) \<noteq> 0)"

definition scan_inv :: "nat list \<Rightarrow> nat \<Rightarrow> xdma_dev \<Rightarrow> bool" where
  "scan_inv ids pos d \<longleftrightarrow> distinct ids \<and> (\<forall>i\<in>set ids. i < XDMA_BAR_NUM \<and> bar d i \<noteq> 0)
     \<and> (config_bar_idx d < 0 \<or> pos < length ids \<and> config_bar_idx d = int (ids ! pos))
     \<and> user_bar_idx d = - 1 \<and> bypass_bar_idx d = - 1"

lemma map_single_bar_effect:
  assumes "map_single_bar E i s = (len, s')"
  shows "\<exists>p. bar (xdev s') = (bar (xdev s))(i := p) \<and> (len > 0 \<longrightarrow> p \<noteq> 0)"
    and "config_bar_idx (xdev s') = config_bar_idx (xdev s)"
    and "user_bar_idx (xdev s') = user_bar_idx (xdev s)" "bypass_bar_idx (xdev s') = bypass_bar_idx (xdev s)"
  using assms by (auto simp: map_single_bar_def Let_def split_beta split: if_splits)

lemma is_config_bar_frame [simp]: "xdev (snd (is_config_bar E i s)) = xdev s"
  by (simp add: is_config_bar_def split_beta Let_def)

lemma map_loop_inv:
  "map_loop E is ids pos s = (Inr (ids', pos'), s') \<Longrightarrow> scan_inv ids pos (xdev s) \<Longrightarrow> distinct (ids @ is) \<Longrightarrow>
   \<forall>i\<in>set is. i < XDMA_BAR_NUM \<Longrightarrow> scan_inv ids' pos' (xdev s')"
proof (induction "is" arbitrary: ids pos s)
  case (Cons i "is")
  obtain len s1 where m: "map_single_bar E i s = (len, s1)" by fastforce
  note eff = map_single_bar_effect [OF m]
  obtain p where p: "bar (xdev s1) = (bar (xdev s))(i := p)" "len > 0 \<longrightarrow> p \<noteq> 0" using eff(1) by blast
  have i: "i \<notin> set ids" "distinct ids" "i < XDMA_BAR_NUM" using Cons.prems(3,4) by auto
  have inv1: "scan_inv ids pos (xdev s1)"
    using Cons.prems(2) i by (auto simp: scan_inv_def p eff)
  consider "len = 0" | "len < 0" | "len > 0" by linarith
  then show ?case
  proof cases
    case 1
    with Cons.prems inv1 show ?thesis by (intro Cons.IH [of ids pos s1]) (auto simp: m)
  next
    case 2
    with Cons.prems(1) show ?thesis by (simp add: m)
  next
    case 3
    define c where "c = (if XDMA_BAR_SIZE \<le> len \<and> config_bar_idx (xdev s1) < 0
        then is_config_bar E i s1 else (False, s1))"
    define s2 where "s2 = (if fst c then upd_xdev (\<lambda>d. d\<lparr>config_bar_idx := int i\<rparr>) (snd c) else snd c)"
    have x: "xdev (snd c) = xdev s1" by (simp add: c_def)
    have cf: "fst c \<Longrightarrow> config_bar_idx (xdev s1) < 0" by (auto simp: c_def split: if_splits)
    have "scan_inv (ids @ [i]) (if fst c then length ids else pos) (xdev s2)"
      using inv1 i p 3 cf by (auto simp: scan_inv_def s2_def x nth_append)
    moreover have "map_loop E is (ids @ [i]) (if fst c then length ids else pos) s2 = (Inr (ids', pos'), s')"
      using Cons.prems(1) 3 unfolding s2_def c_def by (simp add: m split_beta Let_def split del: if_split)
    ultimately show ?thesis
      using Cons.prems(3,4) by (intro Cons.IH [of "ids @ [i]" _ s2]) auto
  qed
qed simp



definition bar_env :: env where
  "bar_env = env0\<lparr>kernel := (\<lambda>_ f as. if f = ''pci_resource_len'' then (if hd as \<le> 2 then 0x10000 else 0)
       else if f = ''pci_iomap'' then 0x100000 * (hd as + 1) else 0),
     ioread32 := (\<lambda>_ a. if a = 0x202000 then 0x1fc20006 else if a = 0x203000 then 0x1fc30006 else 0)\<rparr>"


definition last_env :: env where
  "last_env = bar_env\<lparr>ioread32 := (\<lambda>_ a. if a = 0x302000 then 0x1fc20006 else if a = 0x303000 then 0x1fc30006 else 0)\<rparr>"

text \<open>On a device with three BARs of which the last is the configuration BAR, mapping succeeds and
  the bypass BAR is the configuration BAR itself, so the bypass character device would write into
  the DMA registers.\<close>

theorem map_bars_bypass_alias:
  "fst (map_bars last_env world0) = Inr () \<and> config_bar_idx (xdev (snd (map_bars last_env world0))) = 2
   \<and> bypass_bar_idx (xdev (snd (map_bars last_env world0))) = 2"
  by code_simp

end
