(* ===== verification/Threads.thy ===== *)
theory Threads
  imports Service
begin

text \<open>
  The completion threads of polled mode (\<open>xdma_thread.c\<close>): assignment of engines to threads, the
  work pass of a thread, starting and stopping the pool.  A thread of the array \<open>cs_threads\<close> is its
  index; \<open>thread_cnt\<close> is the length of the list.
\<close>

section \<open>Work items\<close>

definition xdma_thread_cmpl_status_pend :: "eref \<Rightarrow> world \<Rightarrow> bool" where
  "xdma_thread_cmpl_status_pend e s \<longleftrightarrow> transfer_list (get_eng s e) \<noteq> []"

text \<open>
  The head of the queue is taken with \<open>list_entry\<close> and never null: on an empty queue the word read as
  \<open>desc_cmpl_th\<close> is whatever lies there, which only the environment knows.
\<close>

definition xdma_thread_cmpl_status_proc :: "env \<Rightarrow> eref \<Rightarrow> world \<Rightarrow> world option" where
  "xdma_thread_cmpl_status_proc E e s =
     (let th = (case transfer_list (get_eng s e) of
                  x # _ \<Rightarrow> word_of_int (desc_cmpl_th (get_xfer s x))
                | [] \<Rightarrow> word_of_int (kernel E (trace s) ''stray desc_cmpl_th'' []))
      in do { (rv, s) \<leftarrow> engine_service_poll E (Some e) th s; Some s })"

definition xthread_work_pending :: "xdma_kthread \<Rightarrow> world \<Rightarrow> bool" where
  "xthread_work_pending th s \<longleftrightarrow> (\<exists>e\<in>set (work_list th). xdma_thread_cmpl_status_pend e s)"

primrec run_items :: "env \<Rightarrow> eref list \<Rightarrow> world \<Rightarrow> world option" where
  "run_items E [] s = Some s"
| "run_items E (e # es) s = do { s \<leftarrow> xdma_thread_cmpl_status_proc E e s; run_items E es s }"

definition upd_thread :: "nat \<Rightarrow> (xdma_kthread \<Rightarrow> xdma_kthread) \<Rightarrow> world \<Rightarrow> world" where
  "upd_thread i f s = s\<lparr>threads := (threads s)[i := f (threads s ! i)]\<rparr>"

text \<open>
  One pass of the loop of \<open>xthread_main\<close>; a thread with nothing pending first sleeps until it is
  scheduled, which the caller of the model decides by running the pass or not.
\<close>

definition xthread_pass :: "env \<Rightarrow> nat \<Rightarrow> world \<Rightarrow> world option" where
  "xthread_pass E i s =
     (let s = upd_thread i (\<lambda>th. th\<lparr>sched_flag := False\<rparr>) s; th = threads s ! i
      in if work_cnt th \<noteq> 0 then run_items E (work_list th) s else Some s)"

definition xdma_kthread_wakeup :: "nat \<Rightarrow> world \<Rightarrow> world" where
  "xdma_kthread_wakeup i s = emit (WakeThread i) (upd_thread i (\<lambda>th. th\<lparr>sched_flag := True\<rparr>) s)"

section \<open>Assigning engines\<close>

text \<open>The loop over the threads: current index, running choice \<open>cur\<close> (\<open>idx\<close>) and the load \<open>v\<close> it compares with.\<close>

fun pick_thread :: "xdma_kthread list \<Rightarrow> nat \<Rightarrow> nat \<Rightarrow> nat \<Rightarrow> nat \<Rightarrow> nat" where
  "pick_thread [] cnt i cur v = cur"
| "pick_thread (th # ths) cnt i cur v =
     (if cur = cnt then pick_thread ths cnt (i + 1) i (work_cnt th)
      else if work_cnt th = 0 then i
      else if work_cnt th < v then pick_thread ths cnt (i + 1) i v
      else pick_thread ths cnt (i + 1) cur v)"

definition xdma_thread_add_work :: "eref \<Rightarrow> world \<Rightarrow> world" where
  "xdma_thread_add_work e s =
     (let n = length (threads s); i = pick_thread (threads s) n 0 n 0;
          s = upd_thread i (\<lambda>th. th\<lparr>work_list := work_list th @ [e], work_cnt := work_cnt th + 1\<rparr>) s
      in upd_eng e (\<lambda>g. g\<lparr>intr_work_cpu := i, cmplthp := Some i\<rparr>) s)"

definition xdma_thread_remove_work :: "eref \<Rightarrow> world \<Rightarrow> world" where
  "xdma_thread_remove_work e s =
     (let th = cmplthp (get_eng s e);
          s = upd_eng e (\<lambda>g. g\<lparr>cmplthp := None\<rparr>) s
      in case th of
           None \<Rightarrow> s
         | Some i \<Rightarrow> upd_thread i (\<lambda>th. th\<lparr>work_list := remove1 e (work_list th),
                                            work_cnt := work_cnt th - 1\<rparr>) s)"

section \<open>Starting and stopping\<close>

definition kthread_zero :: xdma_kthread where
  "kthread_zero = \<lparr>tcpu = 0, tid = 0, work_cnt = 0, work_list = [], sched_flag = False, task_up = False\<rparr>"

text \<open>Starting thread \<open>i\<close>; a negative answer of the kernel is the error pointer.\<close>

definition xdma_kthread_start :: "env \<Rightarrow> xdma_kthread \<Rightarrow> nat \<Rightarrow> world \<Rightarrow> unit res \<times> xdma_kthread \<times> world" where
  "xdma_kthread_start E th i s =
     (if task_up th then (Inl EINVAL, th, s)
      else let th = th\<lparr>tid := i, work_list := []\<rparr>;
               (r, s) = kcall E ''kthread_create_on_node'' [tcpu th] s
           in if r < 0 then (Inl EFAULT, th, s) else (Inr (), th\<lparr>task_up := True\<rparr>, s))"

definition xdma_kthread_stop :: "env \<Rightarrow> xdma_kthread \<Rightarrow> world \<Rightarrow> unit res \<times> xdma_kthread \<times> world" where
  "xdma_kthread_stop E th s =
     (if \<not> task_up th then (Inr (), th, s)
      else let th = th\<lparr>sched_flag := True\<rparr>;
               (r, s) = kcall E ''kthread_stop'' [int (tid th)] s
           in if r < 0 then (Inl (EOTHER (nat (- r))), th, s)
              else (Inr (), th\<lparr>task_up := False\<rparr>, s))"

text \<open>The loop over the online cpus; \<open>ths\<close> are the threads started so far.\<close>

fun start_threads ::
  "env \<Rightarrow> nat \<Rightarrow> int list \<Rightarrow> xdma_kthread list \<Rightarrow> world \<Rightarrow> xdma_kthread list res \<times> world" where
  "start_threads E num [] ths s = (Inr ths, s)"
| "start_threads E num (cpu # cpus) ths s =
     (case xdma_kthread_start E (kthread_zero\<lparr>tcpu := cpu\<rparr>) (length ths) s of
        (Inl rv, _, s) \<Rightarrow> (Inl rv, s)
      | (Inr _, th, s) \<Rightarrow>
          if Suc (length ths) = num then (Inr (ths @ [th]), s)
          else start_threads E num cpus (ths @ [th]) s)"

definition xdma_threads_create :: "env \<Rightarrow> int list \<Rightarrow> nat \<Rightarrow> world \<Rightarrow> unit res \<times> world" where
  "xdma_threads_create E cpus num s =
     (if threads s \<noteq> [] then (Inr (), s)
      else if \<not> kzalloc E (trace s) then (Inl ENOMEM, s)
      else case start_threads E num cpus [] (emit (KAlloc num) s) of
             (Inl rv, s) \<Rightarrow> (Inl rv, (emit (KFree num) s)\<lparr>threads := []\<rparr>)
           | (Inr ths, s) \<Rightarrow> (Inr (), s\<lparr>threads := ths\<rparr>))"

definition xdma_threads_destroy :: "env \<Rightarrow> world \<Rightarrow> world" where
  "xdma_threads_destroy E s =
     (if threads s = [] then s
      else let s' = fold (\<lambda>th s. snd (snd (xdma_kthread_stop E th s))) (threads s) s
           in (emit (KFree (length (threads s))) s')\<lparr>threads := []\<rparr>)"

section \<open>Properties\<close>

lemma pick_thread_range:
  "cur < cnt \<Longrightarrow> i + length ths = cnt \<Longrightarrow> pick_thread ths cnt i cur v < cnt"
  by (induction ths cnt i cur v rule: pick_thread.induct) auto

lemma pick_thread_idle:
  assumes "i + length ths = cnt" "length pre = i" "cur < i" "\<exists>th\<in>set ths. work_cnt th = 0"
  shows "work_cnt ((pre @ ths) ! pick_thread ths cnt i cur v) = 0"
  using assms
proof (induction ths arbitrary: pre i cur v)
  case (Cons th ths)
  show ?case
  proof (cases "work_cnt th = 0")
    case True
    then show ?thesis using Cons.prems by (simp add: nth_append)
  next
    case False
    then have ex: "\<exists>th\<in>set ths. work_cnt th = 0" using Cons.prems(4) by auto
    have "pick_thread (th # ths) cnt i cur v = pick_thread ths cnt (i + 1) (if work_cnt th < v then i else cur) v"
      using False Cons.prems by simp
    moreover have "work_cnt (((pre @ [th]) @ ths) ! pick_thread ths cnt (i + 1) (if work_cnt th < v then i else cur) v) = 0"
      using Cons.prems ex by (intro Cons.IH) auto
    ultimately show ?thesis by simp
  qed
qed simp

text \<open>An engine is always assigned to one of the existing threads, and to an idle one whenever
  there is an idle thread.\<close>

theorem pick_thread_spec:
  assumes "ths \<noteq> []"
  defines "i \<equiv> pick_thread ths (length ths) 0 (length ths) 0"
  shows "i < length ths \<and> ((\<exists>th\<in>set ths. work_cnt th = 0) \<longrightarrow> work_cnt (ths ! i) = 0)"
proof -
  obtain th ths' where ths: "ths = th # ths'" using assms(1) by (cases ths) auto
  have i: "i = pick_thread ths' (length ths) 1 0 (work_cnt th)" by (simp add: i_def ths)
  have "i < length ths" unfolding i by (rule pick_thread_range) (simp_all add: ths)
  moreover have "work_cnt (ths ! i) = 0" if "\<exists>t\<in>set ths. work_cnt t = 0"
  proof (cases "\<exists>t\<in>set ths'. work_cnt t = 0")
    case True
    then show ?thesis
      using pick_thread_idle [of 1 ths' "length ths" "[th]" 0 "work_cnt th"] by (simp add: ths i)
  next
    case False
    with that have th: "work_cnt th = 0" by (auto simp: ths)
    have "pick_thread us cnt j 0 0 = 0" if "\<forall>t\<in>set us. work_cnt t \<noteq> 0" "cnt \<noteq> 0" for us cnt j
      using that by (induction us arbitrary: j) auto
    then have "i = 0" using False by (auto simp: i th ths)
    then show ?thesis by (simp add: ths th)
  qed
  ultimately show ?thesis by blast
qed

theorem pick_thread_spec_witness:
  "work_cnt ([kthread_zero\<lparr>work_cnt := 2\<rparr>, kthread_zero] !
     pick_thread [kthread_zero\<lparr>work_cnt := 2\<rparr>, kthread_zero] 2 0 2 0) = 0"
  using pick_thread_spec [of "[kthread_zero\<lparr>work_cnt := 2\<rparr>, kthread_zero]"]
  by (simp add: kthread_zero_def numeral_2_eq_2)

text \<open>Among busy threads the choice is not the least loaded one: the load compared with is never
  updated, so with loads 3, 1 and 2 the third thread is chosen.\<close>

theorem pick_thread_not_least:
  "map work_cnt ths = [3, 1, 2] \<Longrightarrow> pick_thread ths (length ths) 0 (length ths) 0 = 2"
proof -
  assume a: "map work_cnt ths = [3, 1, 2]"
  then obtain x y z where "ths = [x, y, z]" "work_cnt x = 3" "work_cnt y = 1" "work_cnt z = 2"
    by (auto simp: map_eq_Cons_conv)
  then show ?thesis by simp
qed

theorem pick_thread_not_least_witness:
  "pick_thread [kthread_zero\<lparr>work_cnt := 3\<rparr>, kthread_zero\<lparr>work_cnt := 1\<rparr>, kthread_zero\<lparr>work_cnt := 2\<rparr>]
     3 0 3 0 = 2"
  using pick_thread_not_least [of "[kthread_zero\<lparr>work_cnt := 3\<rparr>, kthread_zero\<lparr>work_cnt := 1\<rparr>,
      kthread_zero\<lparr>work_cnt := 2\<rparr>]"] by (simp add: eval_nat_numeral)

text \<open>The count of a thread is the length of its list, and an engine is on the list of its thread.\<close>

definition threads_ok :: "world \<Rightarrow> bool" where
  "threads_ok s \<longleftrightarrow> (\<forall>th\<in>set (threads s). work_cnt th = length (work_list th))
     \<and> (\<forall>e i. cmplthp (get_eng s e) = Some i \<longrightarrow> i < length (threads s) \<and> e \<in> set (work_list (threads s ! i)))"

lemma upd_thread_frame [simp]:
  "threads (upd_thread i f s) = (threads s)[i := f (threads s ! i)]"
  "get_eng (upd_thread i f s) e = get_eng s e" "get_xfer (upd_thread i f s) x = get_xfer s x"
  "trace (upd_thread i f s) = trace s" "xfers (upd_thread i f s) = xfers s" "xdev (upd_thread i f s) = xdev s"
  by (simp_all add: upd_thread_def)

text \<open>Assigning an engine that has no thread keeps the thread lists consistent, and removing it
  again restores every thread and leaves the engine without one.\<close>

theorem thread_work_roundtrip:
  assumes "threads_ok s" and "threads s \<noteq> []" and "cmplthp (get_eng s e) = None"
    and "\<forall>th\<in>set (threads s). e \<notin> set (work_list th)"
  shows "threads_ok (xdma_thread_add_work e s)
    \<and> (\<exists>i<length (threads s). cmplthp (get_eng (xdma_thread_add_work e s) e) = Some i)
    \<and> threads (xdma_thread_remove_work e (xdma_thread_add_work e s)) = threads s
    \<and> cmplthp (get_eng (xdma_thread_remove_work e (xdma_thread_add_work e s)) e) = None"
proof -
  define i where "i = pick_thread (threads s) (length (threads s)) 0 (length (threads s)) 0"
  obtain th ths where "threads s = th # ths" using assms(2) by (cases "threads s") auto
  then have i: "i < length (threads s)"
    unfolding i_def by (simp add: pick_thread_range)
  let ?t = "threads s ! i"
  have add: "threads (xdma_thread_add_work e s) =
      (threads s)[i := ?t\<lparr>work_list := work_list ?t @ [e], work_cnt := work_cnt ?t + 1\<rparr>]"
    "\<And>e'. cmplthp (get_eng (xdma_thread_add_work e s) e') =
       (if e' = e then Some i else cmplthp (get_eng s e'))"
    by (simp_all add: xdma_thread_add_work_def i_def Let_def)
  have e: "e \<notin> set (work_list ?t)" using assms(4) i by simp
  have "threads_ok (xdma_thread_add_work e s)"
    using assms(1) i unfolding threads_ok_def add
    by (auto simp: nth_list_update set_update_subset_insert [THEN subsetD] dest!: set_update_subset_insert [THEN subsetD] split: if_splits)
  moreover have "threads (xdma_thread_remove_work e (xdma_thread_add_work e s)) = threads s"
    using i e by (simp add: xdma_thread_remove_work_def add Let_def remove1_append)
  moreover have "cmplthp (get_eng (xdma_thread_remove_work e (xdma_thread_add_work e s)) e) = None"
    by (simp add: xdma_thread_remove_work_def Let_def split: option.split)
  ultimately show ?thesis using i by (simp add: add)
qed

theorem thread_work_roundtrip_witness:
  "threads (xdma_thread_remove_work (H2C 0) (xdma_thread_add_work (H2C 0)
     (world0\<lparr>threads := [kthread_zero, kthread_zero]\<rparr>))) = [kthread_zero, kthread_zero]"
proof -
  let ?s = "world0\<lparr>threads := [kthread_zero, kthread_zero]\<rparr>"
  have "threads_ok ?s" by (simp add: threads_ok_def engine_zero_def kthread_zero_def)
  with thread_work_roundtrip [of ?s "H2C 0"] show ?thesis
    by (simp add: engine_zero_def kthread_zero_def)
qed

end
