(* ===== verification/Engine_Setup.thy ===== *)
theory Engine_Setup
  imports Bars Threads
begin

text \<open>
  Creating and destroying the DMA engines of a device (\<open>libxdma.c\<close>): their resources, the
  initial register contents, probing for the channels present.
\<close>

section \<open>Resources\<close>

definition dma_free_coherent :: "int \<Rightarrow> u64 \<Rightarrow> world \<Rightarrow> world" where
  "dma_free_coherent sz p s = emit (Kernel ''dma_free_coherent'' [sz, uint p] 0) s"

text \<open>An allocation returns the address, 0 on failure, and the bus address.\<close>

definition dma_alloc_coherent :: "env \<Rightarrow> int \<Rightarrow> world \<Rightarrow> u64 \<times> u64 \<times> world" where
  "dma_alloc_coherent E sz s =
     (let (p, s) = kcall E ''dma_alloc_coherent'' [sz] s
      in (word_of_int p, word_of_int (kernel E (trace s) ''dma handle'' [p]), s))"

definition engine_alignments :: "env \<Rightarrow> eref \<Rightarrow> world \<Rightarrow> world" where
  "engine_alignments E e s =
     (let (w, s) = eng_read E e ''alignments'' s;
          align_bytes = drop_bit 16 (w AND 0x00ff0000);
          granularity_bytes = drop_bit 8 (w AND 0x0000ff00);
          address_bits = w AND 0x000000ff
      in upd_eng e (\<lambda>g. if w \<noteq> 0
           then g\<lparr>addr_align := ucast align_bytes, len_granularity := ucast granularity_bytes,
                  addr_bits := ucast address_bits\<rparr>
           else g\<lparr>addr_align := 1, len_granularity := 1, addr_bits := 64\<rparr>) s)"

definition engine_free_resource :: "eref \<Rightarrow> world \<Rightarrow> world" where
  "engine_free_resource e s =
     (let s = (if poll_mode_addr_virt (get_eng s e) \<noteq> 0
               then upd_eng e (\<lambda>g. g\<lparr>poll_mode_addr_virt := 0\<rparr>)
                      (dma_free_coherent 32 (poll_mode_addr_virt (get_eng s e)) s) else s);
          s = (if desc (get_eng s e) \<noteq> 0
               then upd_eng e (\<lambda>g. g\<lparr>desc := 0\<rparr>)
                      (dma_free_coherent (uint (desc_max (get_eng s e)) * 32) (desc (get_eng s e)) s) else s)
      in if cyclic_result (get_eng s e) \<noteq> 0
         then upd_eng e (\<lambda>g. g\<lparr>cyclic_result := 0\<rparr>)
                (dma_free_coherent (uint (desc_max (get_eng s e)) * 32) (cyclic_result (get_eng s e)) s)
         else s)"

definition credit_reg :: "world \<Rightarrow> string \<Rightarrow> u64" where
  "credit_reg s f = bar (xdev s) (nat (config_bar_idx (xdev s))) + 0x6 * TARGET_SPACING + screg f"

definition credit_bit :: "xdma_engine \<Rightarrow> u32" where
  "credit_bit g = push_bit 16 (push_bit (channel g) 1)"

definition engine_destroy :: "env \<Rightarrow> eref \<Rightarrow> world \<Rightarrow> world" where
  "engine_destroy E e s =
     (let s = eng_write 0 e ''interrupt_enable_mask'' s;
          s = (if st_credit E (get_eng s e)
               then write_register (credit_bit (get_eng s e)) (credit_reg s ''credit_mode_enable_w1c'') s else s);
          s = (if poll_mode E \<noteq> 0 then xdma_thread_remove_work e s else s);
          s = engine_free_resource e s;
          s = upd_eng e (\<lambda>_. engine_zero) s
      in upd_xdev (\<lambda>d. d\<lparr>engines_num := engines_num d - 1\<rparr>) s)"

definition engine_writeback_setup :: "eref \<Rightarrow> world \<Rightarrow> world" where
  "engine_writeback_setup e s =
     (let g = get_eng s e;
          s = mem_write 0 (poll_mode_addr_virt g) s;
          s = eng_write (PCI_DMA_L (poll_mode_bus g)) e ''poll_mode_wb_lo'' s
      in eng_write (PCI_DMA_H (poll_mode_bus g)) e ''poll_mode_wb_hi'' s)"

text \<open>The write-back setup cannot fail on an existing engine, so the register setup cannot either.\<close>

definition engine_init_regs :: "env \<Rightarrow> eref \<Rightarrow> world \<Rightarrow> world" where
  "engine_init_regs E e s =
     (let s = eng_write XDMA_CTRL_NON_INCR_ADDR e ''control_w1c'' s;
          s = engine_alignments E e s;
          v = XDMA_CTRL_IE_DESC_ALIGN_MISMATCH OR XDMA_CTRL_IE_MAGIC_STOPPED OR
              XDMA_CTRL_IE_READ_ERROR OR XDMA_CTRL_IE_DESC_ERROR;
          s = (if poll_mode E \<noteq> 0 then engine_writeback_setup e s else s);
          v = (if poll_mode E \<noteq> 0 then v else v OR XDMA_CTRL_IE_DESC_STOPPED OR XDMA_CTRL_IE_DESC_COMPLETED);
          s = eng_write v e ''interrupt_enable_mask'' s;
          s = upd_eng e (\<lambda>g. g\<lparr>interrupt_enable_mask_value := v\<rparr>) s
      in if st_credit E (get_eng s e)
         then write_register (credit_bit (get_eng s e)) (credit_reg s ''credit_mode_enable_w1s'') s else s)"

definition engine_alloc_resource :: "env \<Rightarrow> eref \<Rightarrow> world \<Rightarrow> unit res \<times> world" where
  "engine_alloc_resource E e s =
     (let (p, b, s) = dma_alloc_coherent E (uint (desc_max (get_eng s e)) * 32) s;
          s = upd_eng e (\<lambda>g. g\<lparr>desc := p, desc_bus := b\<rparr>) s
      in if p = 0 then (Inl ENOMEM, engine_free_resource e s)
         else let (ok, s) = (if poll_mode E \<noteq> 0
                             then let (p, b, s) = dma_alloc_coherent E 32 s
                                  in (p \<noteq> 0, upd_eng e (\<lambda>g. g\<lparr>poll_mode_addr_virt := p, poll_mode_bus := b\<rparr>) s)
                             else (True, s))
              in if \<not> ok then (Inl ENOMEM, engine_free_resource e s)
                 else if c2h_st (get_eng s e)
                 then let (p, b, s) = dma_alloc_coherent E (uint (desc_max (get_eng s e)) * 32) s;
                          s = upd_eng e (\<lambda>g. g\<lparr>cyclic_result := p, cyclic_result_bus := b\<rparr>) s
                      in if p = 0 then (Inl ENOMEM, engine_free_resource e s) else (Inr (), s)
                 else (Inr (), s))"

section \<open>Initialisation\<close>

text \<open>\<open>%d\<close> and the engine name, cut to the 15 characters that fit with the terminator.\<close>

fun dec_nat :: "nat \<Rightarrow> string" where
  "dec_nat n = (if n < 10 then [hexdigit n] else dec_nat (n div 10) @ [hexdigit (n mod 10)])"

declare dec_nat.simps [simp del]

definition dec_int :: "int \<Rightarrow> string" where
  "dec_int i = (if i < 0 then ''-'' @ dec_nat (nat (- i)) else dec_nat (nat i))"

definition engine_name :: "int \<Rightarrow> dma_data_direction \<Rightarrow> nat \<Rightarrow> bool \<Rightarrow> string" where
  "engine_name i dir ch st =
     take 15 (dec_int i @ ''-'' @ (if dir = DMA_TO_DEVICE then ''H2C'' else ''C2H'') @ dec_nat ch @ ''-'' @
              (if st then ''ST'' else ''MM''))"

definition engine_set_fields ::
  "env \<Rightarrow> eref \<Rightarrow> u64 \<Rightarrow> dma_data_direction \<Rightarrow> nat \<Rightarrow> world \<Rightarrow> world" where
  "engine_set_fields E e off dir ch s =
     (let n = engines_num (xdev s); b = bar (xdev s) (nat (config_bar_idx (xdev s)));
          s = upd_eng e (\<lambda>g. g\<lparr>emagic := MAGIC_ENGINE, channel := ch, irq_bitmask := push_bit n 1,
                bypass_offset := of_nat n * BYPASS_MODE_SPACING, regs := b + off,
                sgdma_regs := b + off + SGDMA_OFFSET_FROM_CHANNEL\<rparr>) s;
          (val, s) = eng_read E e ''identifier'' s;
          s = upd_eng e (\<lambda>g. let st = (val AND 0x8000 \<noteq> 0 \<or> streaming g)
                in g\<lparr>streaming := st, edir := dir, ename := engine_name (idx (xdev s)) dir ch st\<rparr>) s
      in upd_eng e (\<lambda>g. g\<lparr>desc_max := (if st_credit E g then XDMA_ENGINE_CREDIT_XFER_MAX_DESC
                                           else XDMA_ENGINE_XFER_MAX_DESC)\<rparr>) s)"

text \<open>The device's side: the interrupt bit joins the mask of its direction, the engine is counted.\<close>

definition engine_count :: "dma_data_direction \<Rightarrow> xdma_dev \<Rightarrow> xdma_dev" where
  "engine_count dir d =
     (let n = engines_num d
      in (if dir = DMA_TO_DEVICE then d\<lparr>mask_irq_h2c := mask_irq_h2c d OR push_bit n 1\<rparr>
          else d\<lparr>mask_irq_c2h := mask_irq_c2h d OR push_bit n 1\<rparr>)\<lparr>engines_num := n + 1\<rparr>)"

definition engine_init_fields ::
  "env \<Rightarrow> eref \<Rightarrow> u64 \<Rightarrow> dma_data_direction \<Rightarrow> nat \<Rightarrow> world \<Rightarrow> world" where
  "engine_init_fields E e off dir ch s = upd_xdev (engine_count dir) (engine_set_fields E e off dir ch s)"

definition engine_init ::
  "env \<Rightarrow> eref \<Rightarrow> u64 \<Rightarrow> dma_data_direction \<Rightarrow> nat \<Rightarrow> world \<Rightarrow> unit res \<times> world" where
  "engine_init E e off dir ch s =
     (case engine_alloc_resource E e (engine_init_fields E e off dir ch s) of
        (Inl rv, s) \<Rightarrow> (Inl rv, s)
      | (Inr _, s) \<Rightarrow>
          let s = engine_init_regs E e s
          in (Inr (), if poll_mode E \<noteq> 0 then xdma_thread_add_work e s else s))"

section \<open>Probing\<close>

text \<open>The two identifier fields; a null register block is refused.\<close>

definition get_engine_channel_id :: "env \<Rightarrow> u64 \<Rightarrow> world \<Rightarrow> int \<times> world" where
  "get_engine_channel_id E r s =
     (if r = 0 then (- 22, s)
      else let (v, s) = read_register E (r + ereg ''identifier'') s in (uint (drop_bit 8 (v AND 0xf00)), s))"

definition get_engine_id :: "env \<Rightarrow> u64 \<Rightarrow> world \<Rightarrow> int \<times> world" where
  "get_engine_id E r s =
     (if r = 0 then (- 22, s)
      else let (v, s) = read_register E (r + ereg ''identifier'') s in (uint (drop_bit 16 (v AND 0xffff0000)), s))"

fun engine_dir :: "eref \<Rightarrow> dma_data_direction" where
  "engine_dir (H2C i) = DMA_TO_DEVICE"
| "engine_dir (C2H i) = DMA_FROM_DEVICE"

fun engine_channel :: "eref \<Rightarrow> nat" where
  "engine_channel (H2C i) = i"
| "engine_channel (C2H i) = i"

definition engine_off :: "eref \<Rightarrow> u64" where
  "engine_off e = of_nat (engine_channel e) * CHANNEL_SPACING +
     (if engine_dir e = DMA_TO_DEVICE then 0 else H2C_CHANNEL_OFFSET)"

definition engine_id_expected :: "eref \<Rightarrow> u32" where
  "engine_id_expected e = (if engine_dir e = DMA_TO_DEVICE then XDMA_ID_H2C else XDMA_ID_C2H)"

definition probe_for_engine :: "env \<Rightarrow> eref \<Rightarrow> world \<Rightarrow> unit res \<times> world" where
  "probe_for_engine E e s =
     (let r = bar (xdev s) (nat (config_bar_idx (xdev s))) + engine_off e;
          (engine_id, s) = get_engine_id E r s;
          (channel_id, s) = get_engine_channel_id E r s
      in if engine_id \<noteq> uint (engine_id_expected e) \<or> channel_id \<noteq> int (engine_channel e)
         then (Inl EINVAL, s)
         else engine_init E e (engine_off e) (engine_dir e) (engine_channel e) s)"

text \<open>How many channels of one direction answer, probing \<open>n\<close> more from \<open>i\<close> on.\<close>

fun probe_loop :: "env \<Rightarrow> (nat \<Rightarrow> eref) \<Rightarrow> nat \<Rightarrow> nat \<Rightarrow> world \<Rightarrow> nat \<times> world" where
  "probe_loop E mk i 0 s = (i, s)"
| "probe_loop E mk i (Suc n) s =
     (case probe_for_engine E (mk i) s of
        (Inl _, s) \<Rightarrow> (i, s)
      | (Inr _, s) \<Rightarrow> probe_loop E mk (i + 1) n s)"

definition probe_engines :: "env \<Rightarrow> world \<Rightarrow> world" where
  "probe_engines E s =
     (let (h, s) = probe_loop E H2C 0 (h2c_channel_max (xdev s)) s;
          s = upd_xdev (\<lambda>d. d\<lparr>h2c_channel_max := h\<rparr>) s;
          (c, s) = probe_loop E C2H 0 (c2h_channel_max (xdev s)) s
      in upd_xdev (\<lambda>d. d\<lparr>c2h_channel_max := c\<rparr>) s)"

definition remove_if_present :: "env \<Rightarrow> eref \<Rightarrow> world \<Rightarrow> world" where
  "remove_if_present E e s = (if emagic (get_eng s e) = MAGIC_ENGINE then engine_destroy E e s else s)"

definition remove_engines :: "env \<Rightarrow> world \<Rightarrow> world" where
  "remove_engines E s =
     (let s = fold (remove_if_present E) (h2c_engines s) s
      in fold (remove_if_present E) (c2h_engines s) s)"

definition engine_addrmode_set :: "env \<Rightarrow> eref \<Rightarrow> int res \<Rightarrow> world \<Rightarrow> unit res \<times> world" where
  "engine_addrmode_set E e arg s =
     (case arg of
        Inl rv \<Rightarrow> (Inl rv, engine_alignments E e s)
      | Inr dst \<Rightarrow>
          let s = upd_eng e (\<lambda>g. g\<lparr>non_incr_addr := (dst \<noteq> 0)\<rparr>) s;
              s = eng_write XDMA_CTRL_NON_INCR_ADDR e
                    (if dst \<noteq> 0 then ''control_w1s'' else ''control_w1c'') s
          in (Inr (), engine_alignments E e s))"


section \<open>Coherent memory\<close>

text \<open>How often the block at an address is held: successful allocations minus releases.\<close>

definition coh_delta :: "u64 \<Rightarrow> event \<Rightarrow> int" where
  "coh_delta p ev = (case ev of Kernel f as r \<Rightarrow>
       if f = ''dma_alloc_coherent'' then of_bool (word_of_int r = p)
       else if f = ''dma_free_coherent'' \<and> drop 1 as = [uint p] then - 1 else 0
     | _ \<Rightarrow> 0)"

definition coh_held :: "u64 \<Rightarrow> world \<Rightarrow> int" where
  "coh_held p s = balance (coh_delta p) s"

lemma coh_held_frame [simp]:
  "coh_held p (upd_eng e f s) = coh_held p s" "coh_held p (upd_xdev h s) = coh_held p s"
  "coh_held p (dma_free_coherent sz q s) = coh_held p s - of_bool (q = p)"
  by (auto simp: coh_held_def dma_free_coherent_def coh_delta_def dest: word_uint_eqI)

lemma coh_held_alloc [simp]:
  "coh_held p (snd (snd (dma_alloc_coherent E sz s))) = coh_held p s + of_bool (fst (dma_alloc_coherent E sz s) = p)"
  by (simp add: coh_held_def dma_alloc_coherent_def split_beta Let_def coh_delta_def)

lemma alloc_frame [simp]:
  "xdev (snd (snd (dma_alloc_coherent E sz s))) = xdev s"
  "get_eng (snd (snd (dma_alloc_coherent E sz s))) e = get_eng s e"
  "get_eng (dma_free_coherent sz q s) e = get_eng s e" "xdev (dma_free_coherent sz q s) = xdev s"
  by (simp_all add: dma_alloc_coherent_def split_beta Let_def dma_free_coherent_def)

lemma engine_free_resource_effect:
  "get_eng (engine_free_resource e s) e = (get_eng s e)\<lparr>poll_mode_addr_virt := 0, desc := 0, cyclic_result := 0\<rparr>"
  "p \<noteq> 0 \<Longrightarrow> coh_held p (engine_free_resource e s) = coh_held p s
     - of_bool (poll_mode_addr_virt (get_eng s e) = p) - of_bool (desc (get_eng s e) = p)
     - of_bool (cyclic_result (get_eng s e) = p)"
  by (auto simp: engine_free_resource_def Let_def)

text \<open>The resources of a new engine are all or nothing.  If one allocation fails, the pointers are
  cleared and every block obtained before is released; if all succeed, releasing the engine gives
  back exactly what was allocated.\<close>

theorem engine_alloc_resource_balanced:
  assumes "poll_mode_addr_virt (get_eng s e) = 0" and "cyclic_result (get_eng s e) = 0" and "p \<noteq> 0"
    and "engine_alloc_resource E e s = (rv, s')"
  shows "case rv of
      Inl err \<Rightarrow> err = ENOMEM \<and> coh_held p s' = coh_held p s \<and> desc (get_eng s' e) = 0
        \<and> poll_mode_addr_virt (get_eng s' e) = 0 \<and> cyclic_result (get_eng s' e) = 0
    | Inr _ \<Rightarrow> coh_held p (engine_free_resource e s') = coh_held p s \<and> desc (get_eng s' e) \<noteq> 0"
  using assms
  by (auto simp: engine_alloc_resource_def Let_def split_beta engine_free_resource_effect split: if_splits)


definition page_env :: env where
  "page_env = env0\<lparr>kernel := (\<lambda>tr f as. if f = ''dma_alloc_coherent'' then 0x1000 * (int (length tr) + 1) else 0)\<rparr>"

theorem engine_alloc_resource_balanced_witness:
  "fst (engine_alloc_resource page_env (H2C 0) world0) = Inr ()
   \<and> coh_held 0x1000 (engine_free_resource (H2C 0) (snd (engine_alloc_resource page_env (H2C 0) world0))) = 0"
proof -
  have r: "fst (engine_alloc_resource page_env (H2C 0) world0) = Inr ()" by code_simp
  then have "engine_alloc_resource page_env (H2C 0) world0 =
      (Inr (), snd (engine_alloc_resource page_env (H2C 0) world0))" by (metis prod.collapse)
  from engine_alloc_resource_balanced [where p = "0x1000", OF _ _ _ this] r show ?thesis
    by (simp add: engine_zero_def coh_held_def balance_def)
qed

section \<open>What initialisation touches\<close>

text \<open>
  The fields that identify an engine, the device without its engines, and the relation of two worlds
  that differ in engine \<open>e\<close> at most, and there not in its identity.
\<close>

definition eng_ident :: "xdma_engine \<Rightarrow> u64 \<times> dma_data_direction \<times> nat \<times> u32 \<times> u64 \<times> u32" where
  "eng_ident g = (emagic g, edir g, channel g, irq_bitmask g, regs g, desc_max g)"

definition dev_rest :: "xdma_dev \<Rightarrow> xdma_dev" where
  "dev_rest d = d\<lparr>engine_h2c := (\<lambda>_. engine_zero), engine_c2h := (\<lambda>_. engine_zero)\<rparr>"

definition touches :: "eref \<Rightarrow> world \<Rightarrow> world \<Rightarrow> bool" where
  "touches e s s' \<longleftrightarrow> (\<forall>e'. e' \<noteq> e \<longrightarrow> get_eng s' e' = get_eng s e')
     \<and> eng_ident (get_eng s' e) = eng_ident (get_eng s e) \<and> dev_rest (xdev s') = dev_rest (xdev s)
     \<and> xdev_list s' = xdev_list s \<and> xfers s' = xfers s"

lemma dev_rest_upd_eng [simp]: "dev_rest (xdev (upd_eng e f s)) = dev_rest (xdev s)"
  by (cases e) (simp_all add: dev_rest_def upd_eng.simps)

lemma touches_refl [simp]: "touches e s s"
  by (simp add: touches_def)

lemma touches_trans: "touches e s s1 \<Longrightarrow> touches e s1 s2 \<Longrightarrow> touches e s s2"
  by (simp add: touches_def)

lemma touches_emit [simp]: "touches e s (emit ev s1) = touches e s s1"
  by (simp add: touches_def)

lemma touches_upd [simp]: "(\<And>g. eng_ident (f g) = eng_ident g) \<Longrightarrow> touches e s (upd_eng e f s1) = touches e s s1"
  by (simp add: touches_def)

lemma eng_ident_upd [simp]:
  "eng_ident (g\<lparr>desc := p, desc_bus := b\<rparr>) = eng_ident g" "eng_ident (g\<lparr>desc := p\<rparr>) = eng_ident g"
  "eng_ident (g\<lparr>poll_mode_addr_virt := p, poll_mode_bus := b\<rparr>) = eng_ident g"
  "eng_ident (g\<lparr>poll_mode_addr_virt := p\<rparr>) = eng_ident g" "eng_ident (g\<lparr>cyclic_result := p\<rparr>) = eng_ident g"
  "eng_ident (g\<lparr>cyclic_result := p, cyclic_result_bus := b\<rparr>) = eng_ident g"
  "eng_ident (g\<lparr>interrupt_enable_mask_value := v\<rparr>) = eng_ident g"
  "eng_ident (g\<lparr>addr_align := x, len_granularity := y, addr_bits := z\<rparr>) = eng_ident g"
  "eng_ident (g\<lparr>intr_work_cpu := i\<rparr>) = eng_ident g" "eng_ident (g\<lparr>cmplthp := t\<rparr>) = eng_ident g"
  by (simp_all add: eng_ident_def)

lemma touches_io [simp]:
  "touches e s (write_register v a s1) = touches e s s1" "touches e s (mem_write v a s1) = touches e s s1"
  "touches e s (eng_write v e' f s1) = touches e s s1" "touches e s (snd (eng_read E e' f s1)) = touches e s s1"
  "touches e s (snd (snd (dma_alloc_coherent E sz s1))) = touches e s s1"
  "touches e s (dma_free_coherent sz q s1) = touches e s s1"
  "touches e s (upd_thread i th s1) = touches e s s1"
  by (simp_all add: write_register_def mem_write_def eng_write_def eng_read_def dma_alloc_coherent_def
      dma_free_coherent_def split_beta Let_def) (simp add: touches_def upd_thread_def)

lemma touches_free: "touches e s (engine_free_resource e s1) = touches e s s1"
  by (simp add: engine_free_resource_def Let_def)

lemma touches_alloc: "touches e s (snd (engine_alloc_resource E e s))"
  by (simp add: engine_alloc_resource_def Let_def split_beta touches_free)

lemma touches_regs: "touches e s (engine_init_regs E e s)"
  by (simp add: engine_init_regs_def engine_writeback_setup_def engine_alignments_def Let_def split_beta)

lemma touches_add: "touches e s (xdma_thread_add_work e s)"
  by (simp add: xdma_thread_add_work_def Let_def)


section \<open>The engines of a probed device\<close>

lemma eng_ident_eq:
  assumes "eng_ident g = eng_ident h"
  shows "emagic g = emagic h" "edir g = edir h" "channel g = channel h" "irq_bitmask g = irq_bitmask h"
    "regs g = regs h" "desc_max g = desc_max h"
  using assms by (simp_all add: eng_ident_def)

lemma dev_rest_eq:
  assumes "dev_rest d = dev_rest d'"
  shows "engines_num d = engines_num d'" "mask_irq_h2c d = mask_irq_h2c d'" "mask_irq_c2h d = mask_irq_c2h d'"
    "bar d = bar d'" "config_bar_idx d = config_bar_idx d'" "h2c_channel_max d = h2c_channel_max d'"
    "c2h_channel_max d = c2h_channel_max d'" "dflags d = dflags d'" "user_max d = user_max d'"
    "self d = self d'" "pdev d = pdev d'" "idx d = idx d'" "msix_enabled d = msix_enabled d'"
    "msi_enabled d = msi_enabled d'" "got_regions d = got_regions d'" "regions_in_use d = regions_in_use d'"
    "irq_line d = irq_line d'" "user_irq d = user_irq d'"
proof -
  have f: "f (dev_rest d) = f (dev_rest d')" for f :: "xdma_dev \<Rightarrow> 'a" by (simp add: assms)
  show "engines_num d = engines_num d'" "mask_irq_h2c d = mask_irq_h2c d'" "mask_irq_c2h d = mask_irq_c2h d'"
    "bar d = bar d'" "config_bar_idx d = config_bar_idx d'" "h2c_channel_max d = h2c_channel_max d'"
    "c2h_channel_max d = c2h_channel_max d'" "dflags d = dflags d'" "user_max d = user_max d'"
    "self d = self d'" "pdev d = pdev d'" "idx d = idx d'" "msix_enabled d = msix_enabled d'"
    "msi_enabled d = msi_enabled d'" "got_regions d = got_regions d'" "regions_in_use d = regions_in_use d'"
    "irq_line d = irq_line d'" "user_irq d = user_irq d'"
    using arg_cong [OF assms, of engines_num] arg_cong [OF assms, of mask_irq_h2c]
      arg_cong [OF assms, of mask_irq_c2h] arg_cong [OF assms, of bar] arg_cong [OF assms, of config_bar_idx]
      arg_cong [OF assms, of h2c_channel_max] arg_cong [OF assms, of c2h_channel_max]
      arg_cong [OF assms, of dflags] arg_cong [OF assms, of user_max] arg_cong [OF assms, of self]
      arg_cong [OF assms, of pdev] arg_cong [OF assms, of idx] arg_cong [OF assms, of msix_enabled]
      arg_cong [OF assms, of msi_enabled] arg_cong [OF assms, of got_regions]
      arg_cong [OF assms, of regions_in_use] arg_cong [OF assms, of irq_line] arg_cong [OF assms, of user_irq]
    by (simp_all add: dev_rest_def)
qed

text \<open>What an initialised engine looks like, with interrupt bit \<open>k\<close>.\<close>

definition engine_wf :: "world \<Rightarrow> nat \<Rightarrow> eref \<Rightarrow> bool" where
  "engine_wf s k e \<longleftrightarrow> (let g = get_eng s e in
     emagic g = MAGIC_ENGINE \<and> edir g = engine_dir e \<and> channel g = engine_channel e
     \<and> irq_bitmask g = push_bit k 1
     \<and> regs g = bar (xdev s) (nat (config_bar_idx (xdev s))) + engine_off e
     \<and> (desc_max g = XDMA_ENGINE_XFER_MAX_DESC \<or> desc_max g = XDMA_ENGINE_CREDIT_XFER_MAX_DESC))"

lemma engine_set_fields_effect:
  fixes E :: env and e :: eref and s :: world
  defines "s' \<equiv> engine_set_fields E e (engine_off e) (engine_dir e) (engine_channel e) s"
  shows "engine_wf s' (engines_num (xdev s)) e" and "e' \<noteq> e \<Longrightarrow> get_eng s' e' = get_eng s e'"
    and "dev_rest (xdev s') = dev_rest (xdev s)" and "xdev_list s' = xdev_list s" and "xfers s' = xfers s"
  unfolding s'_def engine_set_fields_def Let_def split_beta
  by (simp_all add: eng_read_def engine_wf_def Let_def split_beta)

lemma engine_count_rest [simp]:
  "dev_rest (engine_count dir d) = engine_count dir (dev_rest d)"
  "engine_h2c (engine_count dir d) = engine_h2c d" "engine_c2h (engine_count dir d) = engine_c2h d"
  by (simp_all add: engine_count_def dev_rest_def Let_def)

lemma engine_count_dev [simp]:
  "engines_num (engine_count dir d) = engines_num d + 1" "bar (engine_count dir d) = bar d"
  "config_bar_idx (engine_count dir d) = config_bar_idx d"
  by (simp_all add: engine_count_def Let_def)

text \<open>Initialising an engine, whatever its outcome: the engine is well formed with the next free
  interrupt bit, the other engines are untouched, and the device has counted it.\<close>

lemma engine_init_effect:
  assumes "engine_init E e (engine_off e) (engine_dir e) (engine_channel e) s = (rv, s')"
  shows "engine_wf s' (engines_num (xdev s)) e" and "e' \<noteq> e \<Longrightarrow> get_eng s' e' = get_eng s e'"
    and "dev_rest (xdev s') = engine_count (engine_dir e) (dev_rest (xdev s))" and "xdev_list s' = xdev_list s"
proof -
  define s1 where "s1 = engine_init_fields E e (engine_off e) (engine_dir e) (engine_channel e) s"
  note f = engine_set_fields_effect [where E = E and e = e and s = s]
  have 1: "engine_wf s1 (engines_num (xdev s)) e" "\<And>e'. e' \<noteq> e \<Longrightarrow> get_eng s1 e' = get_eng s e'"
    "dev_rest (xdev s1) = engine_count (engine_dir e) (dev_rest (xdev s))" "xdev_list s1 = xdev_list s"
    using f by (simp_all add: s1_def engine_init_fields_def engine_wf_def Let_def)
  define s2 where "s2 = snd (engine_alloc_resource E e s1)"
  have t2: "touches e s1 s2" by (simp add: s2_def touches_alloc)
  have "touches e s1 s'"
  proof (cases "fst (engine_alloc_resource E e s1)")
    case (Inl r)
    with assms t2 show ?thesis
      by (simp add: engine_init_def s1_def [symmetric] case_res_Inl s2_def)
  next
    case (Inr u)
    have "touches e s1 (engine_init_regs E e s2)" using touches_trans [OF t2 touches_regs] .
    moreover have "touches e s1 (xdma_thread_add_work e (engine_init_regs E e s2))"
      using touches_trans [OF calculation touches_add] .
    ultimately show ?thesis
      using assms Inr by (auto simp: engine_init_def s1_def [symmetric] case_res_Inr s2_def Let_def split: if_splits)
  qed
  then have t: "\<And>e'. e' \<noteq> e \<Longrightarrow> get_eng s' e' = get_eng s1 e'" "eng_ident (get_eng s' e) = eng_ident (get_eng s1 e)"
    "dev_rest (xdev s') = dev_rest (xdev s1)" "xdev_list s' = xdev_list s1" by (simp_all add: touches_def)
  show "engine_wf s' (engines_num (xdev s)) e"
    using 1(1) by (simp add: engine_wf_def Let_def eng_ident_eq [OF t(2)] dev_rest_eq [OF t(3)])
  show "e' \<noteq> e \<Longrightarrow> get_eng s' e' = get_eng s e'" by (simp add: t(1) 1(2))
  show "dev_rest (xdev s') = engine_count (engine_dir e) (dev_rest (xdev s))" by (simp add: t(3) 1(3))
  show "xdev_list s' = xdev_list s" by (simp add: t(4) 1(4))
qed


definition irq_mask_of :: "xdma_dev \<Rightarrow> eref \<Rightarrow> u32" where
  "irq_mask_of d e = (if engine_dir e = DMA_TO_DEVICE then mask_irq_h2c d else mask_irq_c2h d)"

lemma irq_mask_of_max [simp]:
  "irq_mask_of (d\<lparr>h2c_channel_max := h\<rparr>) e = irq_mask_of d e" "irq_mask_of (d\<lparr>c2h_channel_max := c\<rparr>) e = irq_mask_of d e"
  by (simp_all add: irq_mask_of_def)

text \<open>The engines probed so far: their bits increase and are below the count, and are in the mask.\<close>

definition probed :: "eref list \<Rightarrow> world \<Rightarrow> bool" where
  "probed es s \<longleftrightarrow> (\<exists>ks. sorted_wrt (<) ks \<and> (\<forall>k\<in>set ks. k < engines_num (xdev s)) \<and> list_all2 (engine_wf s) ks es)
     \<and> (\<forall>e\<in>set es. irq_bitmask (get_eng s e) AND irq_mask_of (xdev s) e = irq_bitmask (get_eng s e))"

lemma engine_wf_cong:
  "get_eng s' e = get_eng s e \<Longrightarrow> bar (xdev s') = bar (xdev s) \<Longrightarrow> config_bar_idx (xdev s') = config_bar_idx (xdev s) \<Longrightarrow>
   engine_wf s' k e = engine_wf s k e"
  by (simp add: engine_wf_def Let_def)

lemma mask_grows:
  "a AND irq_mask_of d e = a \<Longrightarrow> a AND irq_mask_of (engine_count dir d) e = a"
proof -
  assume "a AND irq_mask_of d e = a"
  then have "bit a n \<Longrightarrow> bit (irq_mask_of d e) n" for n by (metis bit_and_iff)
  then show "a AND irq_mask_of (engine_count dir d) e = a"
    by (intro bit_word_eqI) (auto simp: irq_mask_of_def engine_count_def Let_def bit_simps)
qed

lemma probed_keep:
  assumes "probed es s" and "\<And>e. e \<in> set es \<Longrightarrow> get_eng s' e = get_eng s e"
    and "xdev s' = xdev s \<or> dev_rest (xdev s') = engine_count dir (dev_rest (xdev s))"
  shows "probed es s'"
  using assms(3)
proof
  assume x: "xdev s' = xdev s"
  have "engine_wf s' k e = engine_wf s k e" if "e \<in> set es" for k e
    using assms(2) [OF that] by (intro engine_wf_cong) (simp_all add: x)
  then have "list_all2 (engine_wf s') ks es = list_all2 (engine_wf s) ks es" for ks
    by (intro list.rel_cong) auto
  with assms(1,2) show ?thesis by (simp add: probed_def x)
next
  assume x: "dev_rest (xdev s') = engine_count dir (dev_rest (xdev s))"
  then have d: "dev_rest (xdev s') = dev_rest (engine_count dir (xdev s))" by simp
  note eq = dev_rest_eq [OF d]
  have "engine_wf s' k e = engine_wf s k e" if "e \<in> set es" for k e
    using assms(2) [OF that] by (intro engine_wf_cong) (simp_all add: eq)
  then have l: "list_all2 (engine_wf s') ks es = list_all2 (engine_wf s) ks es" for ks
    by (intro list.rel_cong) auto
  have "irq_mask_of (xdev s') e = irq_mask_of (engine_count dir (xdev s)) e" for e
    by (simp add: irq_mask_of_def eq)
  with assms(1,2) l show ?thesis by (auto simp: probed_def eq mask_grows less_SucI)
qed

lemma probed_xdev: "xdev s' = xdev s \<Longrightarrow> probed es s' = probed es s"
  using probed_keep [of es s s'] probed_keep [of es s' s] get_eng_xdev [of s' s] get_eng_xdev [of s s']
  by metis

lemma probed_add:
  assumes "probed es s" and "e \<notin> set es"
    and "engine_init E e (engine_off e) (engine_dir e) (engine_channel e) s = (rv, s')"
  shows "probed (es @ [e]) s'"
proof -
  note i = engine_init_effect [OF assms(3)]
  have "probed es s'"
    using assms(2) by (intro probed_keep [OF assms(1), where dir = "engine_dir e"] i(2) disjI2 i(3)) auto
  moreover have d: "dev_rest (xdev s') = dev_rest (engine_count (engine_dir e) (xdev s))" by (simp add: i(3))
  note eq = dev_rest_eq [OF d]
  have wf: "irq_bitmask (get_eng s' e) = push_bit (engines_num (xdev s)) 1"
    using i(1) by (simp add: engine_wf_def Let_def)
  have "irq_bitmask (get_eng s' e) AND irq_mask_of (xdev s') e = irq_bitmask (get_eng s' e)"
    unfolding wf
    by (intro bit_word_eqI) (auto simp: irq_mask_of_def eq engine_count_def Let_def bit_simps)
  moreover obtain ks where "sorted_wrt (<) ks" "\<forall>k\<in>set ks. k < engines_num (xdev s)" "list_all2 (engine_wf s) ks es"
    using assms(1) by (auto simp: probed_def)
  moreover from this have "list_all2 (engine_wf s') ks es"
  proof -
    have "engine_wf s' k e' = engine_wf s k e'" if "e' \<in> set es" for k e'
      using that assms(2) by (intro engine_wf_cong i(2)) (auto simp: eq)
    then have "list_all2 (engine_wf s') ks es = list_all2 (engine_wf s) ks es" by (intro list.rel_cong) auto
    with \<open>list_all2 (engine_wf s) ks es\<close> show ?thesis by simp
  qed
  ultimately show ?thesis
    using i(1) unfolding probed_def
    by (auto simp: eq sorted_wrt_append less_SucI intro!: exI [of _ "ks @ [engines_num (xdev s)]"] list_all2_appendI)
qed

lemma engine_id_frame [simp]:
  "xdev (snd (get_engine_id E r s)) = xdev s" "xdev (snd (get_engine_channel_id E r s)) = xdev s"
  "xdev_list (snd (get_engine_id E r s)) = xdev_list s" "xdev_list (snd (get_engine_channel_id E r s)) = xdev_list s"
  by (simp_all add: get_engine_id_def get_engine_channel_id_def split_beta Let_def)

lemma probe_for_engine_cases:
  obtains (absent) s1 where "xdev s1 = xdev s" "xdev_list s1 = xdev_list s" "probe_for_engine E e s = (Inl EINVAL, s1)"
  | (present) s1 where "xdev s1 = xdev s" "xdev_list s1 = xdev_list s"
      "probe_for_engine E e s = engine_init E e (engine_off e) (engine_dir e) (engine_channel e) s1"
proof -
  define r where "r = bar (xdev s) (nat (config_bar_idx (xdev s))) + engine_off e"
  define s1 where "s1 = snd (get_engine_channel_id E r (snd (get_engine_id E r s)))"
  have "xdev s1 = xdev s" "xdev_list s1 = xdev_list s" by (simp_all add: s1_def)
  moreover have "probe_for_engine E e s = (Inl EINVAL, s1)
      \<or> probe_for_engine E e s = engine_init E e (engine_off e) (engine_dir e) (engine_channel e) s1"
    by (simp add: probe_for_engine_def Let_def split_beta r_def [symmetric] s1_def)
  ultimately show thesis using that by blast
qed

lemma probe_loop_probed:
  assumes "probed es s" and "\<And>j. i \<le> j \<Longrightarrow> mk j \<notin> set es" and "inj mk" and "probe_loop E mk i n s = (m, s')"
  shows "probed (es @ map mk [i..<m]) s' \<and> i \<le> m \<and> m \<le> i + n
    \<and> h2c_channel_max (xdev s') = h2c_channel_max (xdev s) \<and> c2h_channel_max (xdev s') = c2h_channel_max (xdev s)
    \<and> xdev_list s' = xdev_list s \<and> self (xdev s') = self (xdev s) \<and> pdev (xdev s') = pdev (xdev s)
    \<and> user_max (xdev s') = user_max (xdev s)"
  using assms(1,2,4)
proof (induction n arbitrary: es i s)
  case 0
  then show ?case by simp
next
  case (Suc n)
  have out: "mk i \<notin> set es" using Suc.prems(2) by simp
  show ?case
  proof (cases rule: probe_for_engine_cases [of s E "mk i"])
    case (absent s1)
    with Suc.prems(3) have "m = i" "s' = s1" by simp_all
    moreover have "probed es s1"
      using probed_xdev [OF absent(1)] Suc.prems(1) by simp
    ultimately show ?thesis using absent by simp
  next
    case (present s1)
    obtain rv s2 where r: "engine_init E (mk i) (engine_off (mk i)) (engine_dir (mk i)) (engine_channel (mk i)) s1 = (rv, s2)"
      by fastforce
    note e = engine_init_effect [OF r]
    have p1: "probed es s1"
      using probed_xdev [OF present(1)] Suc.prems(1) by simp
    have p2: "probed (es @ [mk i]) s2" by (rule probed_add [OF p1 out r])
    have d: "dev_rest (xdev s2) = dev_rest (engine_count (engine_dir (mk i)) (xdev s1))" by (simp add: e(3))
    have mx: "h2c_channel_max (xdev s2) = h2c_channel_max (xdev s)" "c2h_channel_max (xdev s2) = c2h_channel_max (xdev s)"
      "self (xdev s2) = self (xdev s)" "pdev (xdev s2) = pdev (xdev s)" "user_max (xdev s2) = user_max (xdev s)"
      using dev_rest_eq(6,7,9,10,11) [OF d] present(1) by (simp_all add: engine_count_def Let_def)
    show ?thesis
    proof (cases rv)
      case (Inl err)
      with Suc.prems(3) present r have "m = i" "s' = s2" by simp_all
      moreover have "probed es s2"
        using out by (intro probed_keep [OF p1, where dir = "engine_dir (mk i)"] e(2) disjI2 e(3)) auto
      ultimately show ?thesis using mx e(4) present(2) by simp
    next
      case (Inr u)
      with Suc.prems(3) present r have l: "probe_loop E mk (i + 1) n s2 = (m, s')" by simp
      have o: "mk j \<notin> set (es @ [mk i])" if "i + 1 \<le> j" for j
        using Suc.prems(2) [of j] that assms(3) by (auto dest: injD)
      note IH = Suc.IH [OF p2 o l]
      have "es @ map mk [i..<m] = (es @ [mk i]) @ map mk [i + 1..<m]"
        using IH by (simp add: upt_conv_Cons)
      with IH mx e(4) present(2) show ?thesis by simp
    qed
  qed
qed


lemma probed_own_bits:
  assumes "probed es s"
  shows "own_bits s es"
proof -
  obtain ks where ks: "sorted_wrt (<) ks" "list_all2 (engine_wf s) ks es"
    using assms by (auto simp: probed_def)
  have b: "irq_bitmask (get_eng s (es ! i)) = push_bit (ks ! i) 1" if "i < length es" for i
    using list_all2_nthD2 [OF ks(2) that] by (simp add: engine_wf_def Let_def)
  have len: "length ks = length es" using ks(2) by (rule list_all2_lengthD)
  have "push_bit a 1 AND push_bit b 1 = (0 :: u32)" if "a < b" for a b
    using that by (intro bit_word_eqI) (auto simp: bit_simps)
  with ks(1) b len show ?thesis
    unfolding own_bits_def sorted_wrt_iff_nth_less by auto
qed

lemma probed_wf: "probed es s \<Longrightarrow> e \<in> set es \<Longrightarrow> \<exists>k. engine_wf s k e"
  by (metis in_set_conv_nth list_all2_nthD2 probed_def)

lemma engine_wf_upd_xdev:
  "(\<And>d. engine_h2c (f d) = engine_h2c d) \<Longrightarrow> (\<And>d. engine_c2h (f d) = engine_c2h d) \<Longrightarrow> (\<And>d. bar (f d) = bar d) \<Longrightarrow>
   (\<And>d. config_bar_idx (f d) = config_bar_idx d) \<Longrightarrow> engine_wf (upd_xdev f t) = engine_wf t"
  by (intro ext) (simp add: engine_wf_def)

lemma probe_engines_effect:
  fixes E :: env and s :: world
  assumes "engines_num (xdev s) = 0"
  defines "s' \<equiv> probe_engines E s"
  shows "probed (h2c_engines s' @ c2h_engines s') s'"
    and "h2c_channel_max (xdev s') \<le> h2c_channel_max (xdev s)" "c2h_channel_max (xdev s') \<le> c2h_channel_max (xdev s)"
    and "xdev_list s' = xdev_list s" "self (xdev s') = self (xdev s)" "pdev (xdev s') = pdev (xdev s)"
    and "user_max (xdev s') = user_max (xdev s)"
proof -
  obtain h s1 where l1: "probe_loop E H2C 0 (h2c_channel_max (xdev s)) s = (h, s1)" by fastforce
  define s2 where "s2 = upd_xdev (\<lambda>d. d\<lparr>h2c_channel_max := h\<rparr>) s1"
  obtain c s3 where l2: "probe_loop E C2H 0 (c2h_channel_max (xdev s1)) s2 = (c, s3)" by fastforce
  have s': "s' = upd_xdev (\<lambda>d. d\<lparr>c2h_channel_max := c\<rparr>) s3"
    by (simp add: s'_def probe_engines_def l1 s2_def [symmetric] l2)
  have inj: "inj H2C" "inj C2H" by (simp_all add: inj_def)
  have "probed [] s" by (simp add: probed_def)
  from probe_loop_probed [OF this _ inj(1) l1] have 1: "probed (map H2C [0..<h]) s1" "h \<le> h2c_channel_max (xdev s)"
    "c2h_channel_max (xdev s1) = c2h_channel_max (xdev s)" "xdev_list s1 = xdev_list s"
    "self (xdev s1) = self (xdev s)" "pdev (xdev s1) = pdev (xdev s)" "user_max (xdev s1) = user_max (xdev s)"
    by simp_all
  have "probed (map H2C [0..<h]) s2"
    using 1(1) by (simp add: probed_def s2_def engine_wf_upd_xdev)
  from probe_loop_probed [OF this _ inj(2) l2] have 2: "probed (map H2C [0..<h] @ map C2H [0..<c]) s3"
    "c \<le> c2h_channel_max (xdev s1)" "h2c_channel_max (xdev s3) = h2c_channel_max (xdev s2)"
    "xdev_list s3 = xdev_list s2" "self (xdev s3) = self (xdev s2)" "pdev (xdev s3) = pdev (xdev s2)"
    "user_max (xdev s3) = user_max (xdev s2)" by auto
  have e: "h2c_engines s' @ c2h_engines s' = map H2C [0..<h] @ map C2H [0..<c]"
    by (simp add: h2c_engines_def c2h_engines_def s' 2(3)) (simp add: s2_def)
  show "probed (h2c_engines s' @ c2h_engines s') s'"
    unfolding e using 2(1) by (simp add: probed_def s' engine_wf_upd_xdev)
  show "h2c_channel_max (xdev s') \<le> h2c_channel_max (xdev s)" "c2h_channel_max (xdev s') \<le> c2h_channel_max (xdev s)"
    "xdev_list s' = xdev_list s" "self (xdev s') = self (xdev s)" "pdev (xdev s') = pdev (xdev s)"
    "user_max (xdev s') = user_max (xdev s)"
    using 1 2 by (simp_all add: s' s2_def)
qed


definition probe_env :: env where
  "probe_env = page_env\<lparr>ioread32 := (\<lambda>_ a. if a = 0x11000 then 0x1fc10006 else if a = 0x10000 then 0x1fc00006 else 0)\<rparr>"

definition fresh_world :: world where
  "fresh_world = upd_xdev (\<lambda>d. d\<lparr>config_bar_idx := 1, bar := (\<lambda>_. 0x10000)\<rparr>) world0"


end
