(* ===== verification/Request.thy ===== *)
theory Request
  imports Descriptors
begin

text \<open>
  Turning a scatter-gather list into software descriptors (\<open>xdma_init_request\<close>) and software
  descriptors into a chain of hardware descriptors in the engine's pool (\<open>transfer_build\<close>,
  \<open>transfer_init\<close>).  A scatter-gather table is the list of its DMA-mapped entries, address and
  length.
\<close>

type_synonym sgl = "(u64 \<times> u32) list"

record xdma_request_cb =
  ep_addr :: u64
  aperture :: u32
  total_len :: u32
  offset :: u32
  sg_idx :: u32
  sg_offset :: u32
  rcb :: "cbref option"
  sw_desc_idx :: u32
  sw_desc_cnt :: u32
  sdesc :: "sw_desc list"

definition request_zero :: xdma_request_cb where
  "request_zero = \<lparr>ep_addr = 0, aperture = 0, total_len = 0, offset = 0, sg_idx = 0,
     sg_offset = 0, rcb = None, sw_desc_idx = 0, sw_desc_cnt = 0, sdesc = []\<rparr>"

section \<open>Building a request\<close>

text \<open>
  The first loop of \<open>xdma_init_request\<close>: descriptors needed beyond one per entry.  The division
  faults when \<open>desc_blen_max\<close> is zero; that is \<open>None\<close>.
\<close>

fun sg_extra :: "u32 \<Rightarrow> sgl \<Rightarrow> int \<Rightarrow> int option" where
  "sg_extra blen [] extra = Some extra"
| "sg_extra blen ((a, len) # sg) extra =
     (if blen < len
      then if blen = 0 then None
           else sg_extra blen sg (extra + uint ((len + blen - 1) div blen))
      else sg_extra blen sg extra)"

text \<open>The inner \<open>while (tlen)\<close> loop: split one entry; it does not return when \<open>blen = 0 < tlen\<close>.\<close>

partial_function (option) split_sg :: "u32 \<Rightarrow> u64 \<Rightarrow> u32 \<Rightarrow> sw_desc list option" where
  "split_sg blen addr tlen =
     (if tlen = 0 then Some []
      else if blen < tlen
      then do {
        ds \<leftarrow> split_sg blen (addr + ucast blen) (tlen - blen);
        Some (\<lparr>sd_addr = addr, sd_len = blen\<rparr> # ds)
      }
      else Some [\<lparr>sd_addr = addr, sd_len = tlen\<rparr>])"

fun fill_sdesc :: "u32 \<Rightarrow> sgl \<Rightarrow> u32 \<times> sw_desc list \<Rightarrow> (u32 \<times> sw_desc list) option" where
  "fill_sdesc blen [] acc = Some acc"
| "fill_sdesc blen ((addr, tlen) # sg) (tot, ds) =
     do {
       ds' \<leftarrow> split_sg blen addr tlen;
       fill_sdesc blen sg (tot + tlen, ds @ ds')
     }"

definition xdma_request_alloc :: "env \<Rightarrow> int \<Rightarrow> world \<Rightarrow> xdma_request_cb option \<times> world" where
  "xdma_request_alloc E sdesc_nr s =
     (if kzalloc E (trace s) then (Some request_zero, emit (KAlloc (nat sdesc_nr)) s)
      else if vmalloc E (trace s) then (Some request_zero, emit (KAlloc (nat sdesc_nr)) s)
      else (None, s))"

definition xdma_request_free :: "xdma_request_cb \<Rightarrow> world \<Rightarrow> world" where
  "xdma_request_free req s = emit (KFree (length (sdesc req))) s"

definition xdma_init_request ::
  "env \<Rightarrow> sgl \<Rightarrow> u64 \<Rightarrow> world \<Rightarrow> (xdma_request_cb option \<times> world) option" where
  "xdma_init_request E sgt ep s =
     do {
       extra \<leftarrow> sg_extra (desc_blen_max E) sgt 0;
       let max = int (length sgt) + extra;
       case xdma_request_alloc E max s of
         (None, s) \<Rightarrow> Some (None, s)
       | (Some req, s) \<Rightarrow> do {
           let req = req\<lparr>ep_addr := ep\<rparr>;
           (tot, ds) \<leftarrow> fill_sdesc (desc_blen_max E) sgt (total_len req, []);
           let req = req\<lparr>total_len := tot, sdesc := ds\<rparr>;
           if max < int (length ds) then Some (None, xdma_request_free req s)
           else Some (Some (req\<lparr>sw_desc_cnt := of_nat (length ds)\<rparr>), s)
         }
     }"

section \<open>Splitting is exact\<close>

declare split_sg.simps [code]

text \<open>The bus byte addresses a list of software descriptors touches, in transfer order.\<close>

definition sd_bytes :: "sw_desc \<Rightarrow> u64 list" where
  "sd_bytes d = map (\<lambda>k. sd_addr d + of_nat k) [0..<unat (sd_len d)]"

definition sg_bytes :: "u64 \<times> u32 \<Rightarrow> u64 list" where
  "sg_bytes p = map (\<lambda>k. fst p + of_nat k) [0..<unat (snd p)]"

text \<open>The list \<open>split_sg\<close> returns, as a function on natural numbers.\<close>

fun chunks :: "nat \<Rightarrow> nat \<Rightarrow> nat list" where
  "chunks blen n = (if blen = 0 \<or> n = 0 then [] else if blen < n then blen # chunks blen (n - blen) else [n])"

declare chunks.simps [simp del]

lemma chunks_sum: "0 < blen \<Longrightarrow> sum_list (chunks blen n) = n"
  by (induction blen n rule: chunks.induct) (subst chunks.simps, auto)

lemma chunks_bound: "c \<in> set (chunks blen n) \<Longrightarrow> 0 < c \<and> c \<le> blen"
  by (induction blen n rule: chunks.induct) (subst (asm) (2) chunks.simps, auto split: if_splits)

lemma chunks_length: "0 < blen \<Longrightarrow> length (chunks blen n) = (n + blen - 1) div blen"
proof (induction blen n rule: chunks.induct)
  case (1 blen n)
  consider "n = 0" | "0 < n" "n \<le> blen" | "blen < n" by linarith
  then show ?case
  proof cases
    case 1
    with "1.prems" show ?thesis by (simp add: chunks.simps)
  next
    case 2
    then have "(n + blen - 1) div blen = Suc ((n - 1) div blen)"
      using div_add_self2 [of blen "n - 1"] by simp
    with 2 show ?thesis by (simp add: chunks.simps)
  next
    case 3
    then obtain m where m: "n = m + blen" "0 < m" by (metis less_imp_add_positive add.commute)
    then have "(n + blen - 1) div blen = Suc ((m + blen - 1) div blen)"
      using div_add_self2 [of blen "m + blen - 1"] "1.prems" by simp
    with 1 3 m show ?thesis by (subst chunks.simps) simp
  qed
qed

lemma split_sg_Some:
  assumes "0 < blen"
  shows "\<exists>ds. split_sg blen addr tlen = Some ds
           \<and> map (unat \<circ> sd_len) ds = chunks (unat blen) (unat tlen)
           \<and> concat (map sd_bytes ds) = sg_bytes (addr, tlen)"
proof (induction "unat tlen" arbitrary: addr tlen rule: less_induct)
  case less
  consider "tlen = 0" | "0 < tlen" "\<not> blen < tlen" | "blen < tlen"
    by (metis word_neq_0_conv)
  then show ?case
  proof cases
    case 1
    then show ?thesis
      by (subst split_sg.simps) (simp add: chunks.simps sg_bytes_def)
  next
    case 2
    then show ?thesis using assms
      by (subst split_sg.simps) (auto simp: chunks.simps sg_bytes_def sd_bytes_def
          word_less_nat_alt)
  next
    case 3
    have d: "unat (tlen - blen) = unat tlen - unat blen" and lt: "unat blen < unat tlen"
      using 3 by (simp_all add: word_less_nat_alt unat_sub_if')
    with assms have "unat (tlen - blen) < unat tlen" by (simp add: word_less_nat_alt)
    from less [OF this, of "addr + ucast blen"] obtain ds where ds:
      "split_sg blen (addr + ucast blen) (tlen - blen) = Some ds"
      "map (unat \<circ> sd_len) ds = chunks (unat blen) (unat tlen - unat blen)"
      "concat (map sd_bytes ds) = sg_bytes (addr + ucast blen, tlen - blen)"
      unfolding d by blast
    have s: "split_sg blen addr tlen = Some (\<lparr>sd_addr = addr, sd_len = blen\<rparr> # ds)"
      using 3 ds(1) by (subst split_sg.simps) auto
    have c: "chunks (unat blen) (unat tlen) = unat blen # chunks (unat blen) (unat tlen - unat blen)"
      using lt assms by (subst chunks.simps) (simp add: word_less_nat_alt)
    have up: "[0..<unat tlen] = [0..<unat blen] @ map (\<lambda>k. unat blen + k) [0..<unat tlen - unat blen]"
      using lt map_add_upt [of "unat blen" "unat tlen - unat blen"]
        upt_add_eq_append [of 0 "unat blen" "unat tlen - unat blen"]
      by (simp add: add.commute)
    have "sg_bytes (addr, tlen) =
        sd_bytes \<lparr>sd_addr = addr, sd_len = blen\<rparr> @ sg_bytes (addr + ucast blen, tlen - blen)"
      unfolding sg_bytes_def sd_bytes_def using up
      by (simp add: d o_def add.assoc of_nat_unat)
    with s c ds show ?thesis by simp
  qed
qed

lemma fill_sdesc_Some:
  assumes "0 < blen"
  shows "\<exists>ds'. fill_sdesc blen sg (tot, ds) = Some (tot + sum_list (map snd sg), ds @ ds')
           \<and> map (unat \<circ> sd_len) ds' = concat (map (chunks (unat blen) \<circ> unat \<circ> snd) sg)
           \<and> concat (map sd_bytes ds') = concat (map sg_bytes sg)"
proof (induction sg arbitrary: tot ds)
  case Nil
  then show ?case by simp
next
  case (Cons p sg)
  obtain a l where p: "p = (a, l)" by fastforce
  obtain d1 where d1: "split_sg blen a l = Some d1"
    "map (unat \<circ> sd_len) d1 = chunks (unat blen) (unat l)"
    "concat (map sd_bytes d1) = sg_bytes (a, l)"
    using split_sg_Some [OF assms] by blast
  obtain ds' where "fill_sdesc blen sg (tot + l, ds @ d1)
       = Some (tot + l + sum_list (map snd sg), (ds @ d1) @ ds')"
    "map (unat \<circ> sd_len) ds' = concat (map (chunks (unat blen) \<circ> unat \<circ> snd) sg)"
    "concat (map sd_bytes ds') = concat (map sg_bytes sg)"
    using Cons by blast
  with d1 show ?case by (intro exI [of _ "d1 @ ds'"]) (simp add: p add.assoc o_def)
qed

text \<open>Without wrap-around of \<open>len + desc_blen_max - 1\<close>, the pre-computed array size is enough.\<close>

definition sg_fits :: "u32 \<Rightarrow> sgl \<Rightarrow> bool" where
  "sg_fits blen sg \<longleftrightarrow> (\<forall>(a, len) \<in> set sg. unat len + unat blen - 1 < 2 ^ 32)"

lemma extra_word:
  assumes "0 < blen" and "unat len + unat blen - 1 < 2 ^ 32"
  shows "uint ((len + blen - 1) div blen :: u32) = int ((unat len + unat blen - 1) div unat blen)"
proof -
  have b: "0 < unat blen" using assms(1) by (simp add: word_less_nat_alt)
  have "unat (len + blen - 1) = unat len + unat blen - 1"
  proof -
    have "len + blen - 1 = (of_nat (unat len + unat blen - 1) :: u32)"
      using b by (simp add: of_nat_diff)
    then show ?thesis using assms(2) by (simp add: unat_of_nat)
  qed
  then show ?thesis by (simp add: uint_nat unat_div)
qed

lemma sg_extra_Some:
  assumes "0 < blen" and "sg_fits blen sg"
  shows "\<exists>x. sg_extra blen sg extra = Some x
           \<and> int (length (concat (map (chunks (unat blen) \<circ> unat \<circ> snd) sg))) + extra
               \<le> int (length sg) + x"
  using assms(2)
proof (induction sg arbitrary: extra)
  case Nil
  then show ?case by simp
next
  case (Cons p sg)
  obtain a l where p: "p = (a, l)" by fastforce
  from Cons.prems have fits: "sg_fits blen sg" "unat l + unat blen - 1 < 2 ^ 32"
    by (auto simp: sg_fits_def p)
  have b: "0 < unat blen" using assms(1) by (simp add: word_less_nat_alt)
  show ?case
  proof (cases "blen < l")
    case True
    from Cons.IH [OF fits(1), of "extra + uint ((l + blen - 1) div blen)"] obtain x where x:
      "sg_extra blen sg (extra + uint ((l + blen - 1) div blen)) = Some x"
      "int (length (concat (map (chunks (unat blen) \<circ> unat \<circ> snd) sg)))
         + (extra + uint ((l + blen - 1) div blen)) \<le> int (length sg) + x" by blast
    with True assms(1) show ?thesis
      by (simp add: p chunks_length [OF b] extra_word [OF assms(1) fits(2)] word_gt_0 o_def)
  next
    case False
    then have "length (chunks (unat blen) (unat l)) \<le> 1"
      by (subst chunks.simps) (simp add: word_less_nat_alt)
    moreover from Cons.IH [OF fits(1)] obtain x where
      "sg_extra blen sg extra = Some x"
      "int (length (concat (map (chunks (unat blen) \<circ> unat \<circ> snd) sg))) + extra
         \<le> int (length sg) + x" by blast
    ultimately show ?thesis using False by (simp add: p o_def)
  qed
qed

definition chunk_count :: "u32 \<Rightarrow> sgl \<Rightarrow> nat" where
  "chunk_count blen sg = length (concat (map (chunks (unat blen) \<circ> unat \<circ> snd) sg))"



text \<open>C35: the size computation is done in 32 bits.  For an entry of \<open>0xFFFFFFFF\<close> bytes with the
  default limit it wraps, one slot is allocated for seventeen descriptors, and the overrun is only
  noticed by the check after the loop has written past the array.\<close>

theorem xdma_init_request_wrap:
  "sg_extra 0x0FFFFFFF [(0, 0xFFFFFFFF)] 0 = Some 0
   \<and> chunk_count 0x0FFFFFFF [(0, 0xFFFFFFFF)] = 17
   \<and> (\<exists>s'. xdma_init_request env0 [(0, 0xFFFFFFFF)] 0 world0 = Some (None, s')
          \<and> trace s' = [KAlloc 1, KFree 17])"
proof -
  have x: "sg_extra 0x0FFFFFFF [(0, 0xFFFFFFFF)] 0 = Some 0" by code_simp
  have c: "chunk_count 0x0FFFFFFF [(0, 0xFFFFFFFF)] = 17"
    by (simp add: chunk_count_def chunks_length)
  obtain ds where ds: "fill_sdesc 0x0FFFFFFF [(0, 0xFFFFFFFF)] (0, []) = Some (0xFFFFFFFF, ds)"
    "map (unat \<circ> sd_len) ds =
       concat (map (chunks (unat (0x0FFFFFFF :: u32)) \<circ> unat \<circ> snd) [(0 :: u64, 0xFFFFFFFF :: u32)])"
    using fill_sdesc_Some [of "0x0FFFFFFF" "[(0, 0xFFFFFFFF)]" 0 "[]"]
    by (auto simp: word_less_nat_alt)
  have "length ds = 17"
    using arg_cong [OF ds(2), of length] c unfolding chunk_count_def length_map by (rule trans)
  with ds(1) x have "xdma_init_request env0 [(0, 0xFFFFFFFF)] 0 world0 =
      Some (None, emit (KFree 17) (emit (KAlloc 1) world0))"
    by (simp add: xdma_init_request_def xdma_request_alloc_def xdma_request_free_def env0_def
        request_zero_def del: fill_sdesc.simps)
  with x c show ?thesis by (simp add: world0_def)
qed

end
