(* ===== verification/Transfer_Build.thy ===== *)
theory Transfer_Build
  imports Request
begin

text \<open>
  From software descriptors to the engine's descriptor pool: \<open>transfer_build\<close> and
  \<open>transfer_init\<close> of \<open>libxdma.c\<close>.
\<close>

section \<open>Operations\<close>

definition upd_desc :: "eref \<Rightarrow> nat \<Rightarrow> (xdma_desc \<Rightarrow> xdma_desc) \<Rightarrow> world \<Rightarrow> world" where
  "upd_desc e k f = upd_eng e (\<lambda>g. g\<lparr>desc_mem := (desc_mem g)(k := f (desc_mem g k))\<rparr>)"

text \<open>One iteration of the loop of \<open>transfer_build\<close>, with the running bus address of the result.\<close>

definition transfer_build_step ::
  "eref \<Rightarrow> xref \<Rightarrow> nat \<Rightarrow> xdma_request_cb \<times> u64 \<times> world \<Rightarrow> xdma_request_cb \<times> u64 \<times> world" where
  "transfer_build_step e x j = (\<lambda>(req, bus, s).
     let d = sdesc req ! (unat (sw_desc_idx req) + j);
         t = get_xfer s x; g = get_eng s e;
         s = upd_desc e (desc_virt t + j)
               (\<lambda>h. xdma_desc_set h (sd_addr d) (ep_addr req) (sd_len d) (xdir t)) s;
         s = upd_xfer x (\<lambda>t. t\<lparr>xlen := xlen t + sd_len d\<rparr>) s;
         req = (if non_incr_addr g then req
                else req\<lparr>ep_addr := ep_addr req + ucast (sd_len d)\<rparr>)
     in if c2h_st g
        then (req, bus + 32,
              upd_desc e (desc_virt t + j)
                (\<lambda>h. h\<lparr>src_addr_lo := PCI_DMA_L bus, src_addr_hi := PCI_DMA_H bus\<rparr>)
                (emit (MemZero (res_virt t + 32 * of_nat j) 32) s))
        else (req, bus, s))"

definition transfer_build ::
  "eref \<Rightarrow> xdma_request_cb \<Rightarrow> xref \<Rightarrow> u32 \<Rightarrow> world \<Rightarrow> xdma_request_cb \<times> world" where
  "transfer_build e req x dmax s =
     (case fold (transfer_build_step e x) [0..<unat dmax] (req, res_bus (get_xfer s x), s) of
        (req, bus, s) \<Rightarrow> (req\<lparr>sw_desc_idx := sw_desc_idx req + dmax\<rparr>, s))"

text \<open>A loop writing the descriptors \<open>dv\<close>, \<open>dv + 1\<close>, ... of the pool.\<close>

definition pool_loop :: "nat \<Rightarrow> (nat \<Rightarrow> xdma_desc \<Rightarrow> xdma_desc) \<Rightarrow> nat \<Rightarrow> desc_pool \<Rightarrow> desc_pool" where
  "pool_loop dv f n m = fold (\<lambda>i m. m(dv + i := f i (m (dv + i)))) [0..<n] m"

text \<open>
  The descriptor count: what is left of the request, at most the pool, and never past the end of
  the pool.
\<close>

definition transfer_desc_count :: "xdma_engine \<Rightarrow> xdma_request_cb \<Rightarrow> u32" where
  "transfer_desc_count g req =
     (let dmax = min (sw_desc_cnt req - sw_desc_idx req) (desc_max g)
      in if word_of_int (desc_idx g) + dmax \<ge> desc_max g
         then desc_max g - word_of_int (desc_idx g) else dmax)"

definition transfer_start :: "xdma_engine \<Rightarrow> xdma_transfer" where
  "transfer_start g =
     transfer_zero\<lparr>xdir := edir g, desc_virt := nat (desc_idx g),
       res_virt := cyclic_result g + 32 * word_of_int (desc_idx g),
       xdesc_bus := desc_bus g + 32 * word_of_int (desc_idx g),
       res_bus := cyclic_result_bus g + 32 * word_of_int (desc_idx g),
       desc_index := desc_idx g\<rparr>"

text \<open>The control bits and the adjacent counts of the finished chain.\<close>

definition transfer_finish_pool :: "bool \<Rightarrow> nat \<Rightarrow> nat \<Rightarrow> desc_pool \<Rightarrow> desc_pool" where
  "transfer_finish_pool flush dv n m =
     (let last = n - 1;
          ctl = XDMA_DESC_STOPPED OR XDMA_DESC_EOP OR XDMA_DESC_COMPLETED;
          m = m(dv + last := snd (xdma_desc_control_set (m (dv + last)) ctl));
          m = (if flush
               then pool_loop dv (\<lambda>_ h. snd (xdma_desc_control_set h XDMA_DESC_COMPLETED)) last m
               else m)
      in pool_loop dv (\<lambda>i h. xdma_desc_adjacent h
           (xdma_get_next_adj (of_nat n - of_nat i - 1) (next_lo h))) n m)"

definition transfer_init ::
  "eref \<Rightarrow> xdma_request_cb \<Rightarrow> xref \<Rightarrow> world \<Rightarrow> xdma_request_cb \<times> world" where
  "transfer_init e req x s =
     (let g = get_eng s e;
          n = transfer_desc_count g req;
          s = upd_xfer x (\<lambda>_. transfer_start g) s;
          dv = desc_virt (get_xfer s x);
          s = upd_eng e (\<lambda>g. g\<lparr>desc_mem :=
                transfer_desc_init dv (xdesc_bus (get_xfer s x)) (unat n) (desc_mem g)\<rparr>) s;
          (req, s) = transfer_build e req x n s;
          s = upd_xfer x (\<lambda>t. t\<lparr>desc_adjacent := uint n,
                desc_cmpl_th := (if eop_flush g then 1 else uint n), desc_num := uint n\<rparr>) s;
          s = upd_eng e (\<lambda>g. g\<lparr>desc_mem := transfer_finish_pool (eop_flush g) dv (unat n) (desc_mem g),
                desc_idx := (desc_idx g + uint n) mod uint (desc_max g),
                desc_used := desc_used g + uint n\<rparr>) s
      in (req, s))"

section \<open>The build loop\<close>

lemma upd_desc_frame [simp]:
  "xfers (upd_desc e k f s) = xfers s" "trace (upd_desc e k f s) = trace s"
  "threads (upd_desc e k f s) = threads s" "get_xfer (upd_desc e k f s) x = get_xfer s x"
  by (simp_all add: upd_desc_def)

lemma get_eng_upd_desc [simp]:
  "get_eng (upd_desc e k f s) e' = (if e' = e
     then (get_eng s e)\<lparr>desc_mem := (desc_mem (get_eng s e))(k := f (desc_mem (get_eng s e) k))\<rparr>
     else get_eng s e')"
  by (simp add: upd_desc_def)

lemma pool_loop_apply:
  "pool_loop dv f n m k = (if dv \<le> k \<and> k < dv + n then f (k - dv) (m k) else m k)"
  unfolding pool_loop_def by (induction n) auto

lemma pool_loop_0 [simp]: "pool_loop dv f 0 m = m"
  by (simp add: pool_loop_def)

lemma pool_loop_Suc:
  "pool_loop dv f (Suc n) m = (pool_loop dv f n m)(dv + n := f n (pool_loop dv f n m (dv + n)))"
  by (simp add: pool_loop_def)

text \<open>The end point address of the \<open>j\<close>-th descriptor and the descriptor \<open>transfer_build\<close> writes.\<close>

definition ep_after :: "bool \<Rightarrow> u64 \<Rightarrow> sw_desc list \<Rightarrow> u64" where
  "ep_after fixed ep ds = (if fixed then ep else ep + sum_list (map (ucast \<circ> sd_len) ds))"

definition built_desc :: "xdma_engine \<Rightarrow> dma_data_direction \<Rightarrow> u64 \<Rightarrow> u64 \<Rightarrow> sw_desc list \<Rightarrow> nat \<Rightarrow> xdma_desc \<Rightarrow> xdma_desc" where
  "built_desc g dir rbus ep ds j h =
     (let h = xdma_desc_set h (sd_addr (ds ! j)) (ep_after (non_incr_addr g) ep (take j ds))
                (sd_len (ds ! j)) dir;
          bus = rbus + 32 * of_nat j
      in if c2h_st g
         then h\<lparr>src_addr_lo := PCI_DMA_L bus, src_addr_hi := PCI_DMA_H bus\<rparr> else h)"

definition build_zeros :: "xdma_engine \<Rightarrow> u64 \<Rightarrow> nat \<Rightarrow> event list" where
  "build_zeros g rv n =
     (if c2h_st g
      then map (\<lambda>j. MemZero (rv + 32 * of_nat j) 32) [0..<n] else [])"

lemma ep_after_Suc:
  "j < length ds \<Longrightarrow> ep_after fixed ep (take (Suc j) ds) =
     (if fixed then ep else ep_after fixed ep (take j ds) + ucast (sd_len (ds ! j)))"
  by (simp add: ep_after_def take_Suc_conv_app_nth add.assoc)

text \<open>The state after \<open>n\<close> iterations, part by part.\<close>

definition build_inv ::
  "eref \<Rightarrow> xref \<Rightarrow> xdma_request_cb \<Rightarrow> world \<Rightarrow> nat \<Rightarrow> xdma_request_cb \<times> u64 \<times> world \<Rightarrow> bool" where
  "build_inv e x req s n r \<longleftrightarrow>
     (case r of (req', bus', s') \<Rightarrow>
        let g = get_eng s e; t = get_xfer s x; ds = drop (unat (sw_desc_idx req)) (sdesc req)
        in req' = req\<lparr>ep_addr := ep_after (non_incr_addr g) (ep_addr req) (take n ds)\<rparr>
         \<and> bus' = res_bus t + (if c2h_st g then 32 * of_nat n else 0)
         \<and> get_eng s' e = g\<lparr>desc_mem := pool_loop (desc_virt t)
               (built_desc g (xdir t) (res_bus t) (ep_addr req) ds) n (desc_mem g)\<rparr>
         \<and> get_xfer s' x = t\<lparr>xlen := xlen t + sum_list (map sd_len (take n ds))\<rparr>
         \<and> (\<forall>e'. e' \<noteq> e \<longrightarrow> get_eng s' e' = get_eng s e')
         \<and> (\<forall>y. y \<noteq> x \<longrightarrow> get_xfer s' y = get_xfer s y)
         \<and> trace s' = trace s @ build_zeros g (res_virt t) n)"

lemma build_inv_step:
  assumes "build_inv e x req s n r" and "n < length (drop (unat (sw_desc_idx req)) (sdesc req))"
  shows "build_inv e x req s (Suc n) (transfer_build_step e x n r)"
proof -
  obtain req' bus' s' where r: "r = (req', bus', s')" by (cases r) auto
  let ?g = "get_eng s e" and ?t = "get_xfer s x"
  let ?ds = "drop (unat (sw_desc_idx req)) (sdesc req)"
  have nth: "sdesc req ! (unat (sw_desc_idx req) + n) = ?ds ! n"
    using assms(2) by simp
  have inv: "req' = req\<lparr>ep_addr := ep_after (non_incr_addr ?g) (ep_addr req) (take n ?ds)\<rparr>"
    "bus' = res_bus ?t + (if c2h_st ?g then 32 * of_nat n else 0)"
    "get_eng s' e = ?g\<lparr>desc_mem := pool_loop (desc_virt ?t)
        (built_desc ?g (xdir ?t) (res_bus ?t) (ep_addr req) ?ds) n (desc_mem ?g)\<rparr>"
    "get_xfer s' x = ?t\<lparr>xlen := xlen ?t + sum_list (map sd_len (take n ?ds))\<rparr>"
    "\<forall>e'. e' \<noteq> e \<longrightarrow> get_eng s' e' = get_eng s e'"
    "\<forall>y. y \<noteq> x \<longrightarrow> get_xfer s' y = get_xfer s y"
    "trace s' = trace s @ build_zeros ?g (res_virt ?t) n"
    using assms(1) unfolding build_inv_def r Let_def by auto
  have ep: "ep_after (non_incr_addr ?g) (ep_addr req) (take (Suc n) ?ds) =
      (if non_incr_addr ?g then ep_addr req
       else ep_after (non_incr_addr ?g) (ep_addr req) (take n ?ds) + ucast (sd_len (?ds ! n)))"
    using assms(2) by (rule ep_after_Suc)
  have len: "sum_list (map sd_len (take (Suc n) ?ds)) =
      sum_list (map sd_len (take n ?ds)) + sd_len (?ds ! n)"
    using assms(2) by (simp add: take_Suc_conv_app_nth)
  show ?thesis
  proof (cases "c2h_st ?g")
    case True
    then show ?thesis
      unfolding build_inv_def r transfer_build_step_def Let_def using inv
      by (simp add: nth ep len build_zeros_def built_desc_def pool_loop_Suc Let_def add.assoc)
        (simp add: ep_after_def algebra_simps)
  next
    case False
    then show ?thesis
      unfolding build_inv_def r transfer_build_step_def Let_def using inv
      by (simp add: nth ep len build_zeros_def built_desc_def pool_loop_Suc Let_def add.assoc)
        (simp add: ep_after_def)
  qed
qed

lemma transfer_build_inv:
  assumes "unat (sw_desc_idx req) + n \<le> length (sdesc req)"
  shows "build_inv e x req s n
           (fold (transfer_build_step e x) [0..<n] (req, res_bus (get_xfer s x), s))"
  using assms
proof (induction n)
  case 0
  then show ?case by (simp add: build_inv_def Let_def ep_after_def build_zeros_def)
next
  case (Suc n)
  then show ?case by (simp add: build_inv_step)
qed


section \<open>The finished chain\<close>

lemma ring_count:
  "i < (d :: nat) \<Longrightarrow> (if d \<le> i + min a d then d - i else min a d) = min a (d - i)"
  by (auto simp: min_def)

lemma transfer_desc_count_unat:
  assumes "0 \<le> desc_idx g" "desc_idx g < uint (desc_max g)" "desc_max g < 2 ^ 31"
    and "sw_desc_idx req < sw_desc_cnt req"
  shows "unat (transfer_desc_count g req) =
      min (unat (sw_desc_cnt req) - unat (sw_desc_idx req)) (unat (desc_max g) - nat (desc_idx g))"
proof -
  let ?m = "min (sw_desc_cnt req - sw_desc_idx req) (desc_max g)"
  let ?i = "word_of_int (desc_idx g) :: u32"
  have i: "unat ?i = nat (desc_idx g)"
    using assms(1,2) uint_lt2p [of "desc_max g"]
    by (simp add: unat_eq_nat_uint word_uint_eq_iff uint_word_of_int)
  have d: "unat (sw_desc_cnt req - sw_desc_idx req) = unat (sw_desc_cnt req) - unat (sw_desc_idx req)"
    using assms(4) by (simp add: unat_sub_if' word_less_nat_alt)
  have m: "unat ?m = min (unat (sw_desc_cnt req) - unat (sw_desc_idx req)) (unat (desc_max g))"
    by (simp add: min_def word_le_nat_alt d)
  have dm: "nat (desc_idx g) < unat (desc_max g)"
    using assms(1,2) by (simp only: nat_less_iff unat_eq_nat_uint nat_less_eq_zless)
  have dm31: "unat (desc_max g) < 2 ^ 31" using assms(3) by (simp add: word_less_nat_alt)
  have "unat ?m \<le> unat (desc_max g)" unfolding m by simp
  with dm dm31 have "nat (desc_idx g) + unat ?m < 2 ^ 32" by simp
  then have sum: "unat (?i + ?m) = nat (desc_idx g) + unat ?m"
    unfolding unat_word_ariths i by simp
  have sub: "unat (desc_max g - ?i) = unat (desc_max g) - nat (desc_idx g)"
    using dm i by (simp add: unat_sub_if')
  show ?thesis
    unfolding transfer_desc_count_def Let_def word_le_nat_alt sum if_distrib [of unat] m sub
    using dm by (rule ring_count)
qed

definition last_ctl :: u32 where
  "last_ctl = XDMA_DESC_STOPPED OR XDMA_DESC_EOP OR XDMA_DESC_COMPLETED"

lemma ctl_consts:
  "last_ctl = 0x13" "XDMA_DESC_COMPLETED = 2"
  by (simp_all add: last_ctl_def XDMA_DESC_STOPPED_def XDMA_DESC_EOP_def XDMA_DESC_COMPLETED_def)

lemma transfer_finish_pool_outside:
  "0 < n \<Longrightarrow> k < dv \<or> dv + n \<le> k \<Longrightarrow> transfer_finish_pool flush dv n m k = m k"
  by (auto simp: transfer_finish_pool_def Let_def pool_loop_apply)

lemma transfer_finish_pool_inside:
  assumes "i < n"
    and h_def: "h = (if Suc i = n then snd (xdma_desc_control_set (m (dv + i)) last_ctl)
               else if flush then snd (xdma_desc_control_set (m (dv + i)) XDMA_DESC_COMPLETED)
               else m (dv + i))"
  shows "transfer_finish_pool flush dv n m (dv + i) =
     xdma_desc_adjacent h (xdma_get_next_adj (of_nat n - of_nat i - 1) (next_lo h))"
  using assms(1)
  by (auto simp: h_def transfer_finish_pool_def Let_def pool_loop_apply last_ctl_def)

lemma xdma_get_next_adj_less: "xdma_get_next_adj r a < 64"
  by (auto simp: word_less_nat_alt xdma_get_next_adj_unat min_less_iff_disj)

lemma adjacent_rest: "\<exists>c. xdma_desc_adjacent d a = d\<lparr>control := c\<rparr>"
  unfolding xdma_desc_adjacent_def Let_def by blast

lemma finish_pool_views:
  assumes "i < n"
    and d_def: "d = transfer_finish_pool flush dv n m (dv + i)"
  shows "\<exists>c. d = (m (dv + i))\<lparr>control := c\<rparr>"
    and "ctl_magic d = 0xAD4B"
    and "ctl_bits d = (if Suc i = n then 0x13 else if flush then 2 else ctl_bits (m (dv + i)))"
    and "ctl_adjacent (m (dv + i)) = 0 \<Longrightarrow>
         ctl_adjacent d = xdma_get_next_adj (of_nat n - of_nat i - 1) (next_lo (m (dv + i)))"
proof -
  let ?d = "m (dv + i)"
  define h where "h = (if Suc i = n then snd (xdma_desc_control_set ?d last_ctl)
      else if flush then snd (xdma_desc_control_set ?d XDMA_DESC_COMPLETED) else ?d)"
  have d: "d = xdma_desc_adjacent h (xdma_get_next_adj (of_nat n - of_nat i - 1) (next_lo h))"
    unfolding d_def by (rule transfer_finish_pool_inside) (fact assms(1), fact h_def)
  have "\<exists>c. h = ?d\<lparr>control := c\<rparr>"
    unfolding h_def using control_set_rest [of ?d] by (auto intro: exI [of _ "control ?d"])
  then obtain c where hc: "h = ?d\<lparr>control := c\<rparr>" ..
  obtain c' where dc: "d = h\<lparr>control := c'\<rparr>" unfolding d using adjacent_rest by metis
  then show "\<exists>c. d = ?d\<lparr>control := c\<rparr>" using hc by auto
  show "ctl_magic d = 0xAD4B"
    unfolding d by (intro ctl_magic_xdma_desc_adjacent xdma_get_next_adj_less)
  have fits: "last_ctl AND NOT LS_BYTE_MASK = 0" "XDMA_DESC_COMPLETED AND NOT LS_BYTE_MASK = 0"
    by (simp_all add: ctl_consts LS_BYTE_MASK_def)
  show "ctl_bits d = (if Suc i = n then 0x13 else if flush then 2 else ctl_bits ?d)"
    unfolding d ctl_bits_xdma_desc_adjacent h_def
    using control_set_bits [OF fits(1), of ?d] control_set_bits [OF fits(2), of ?d]
    by (simp add: ctl_consts)
  assume "ctl_adjacent ?d = 0"
  then have "ctl_adjacent h = 0" by (simp add: h_def control_set_views)
  moreover have "next_lo h = next_lo ?d" by (simp add: hc)
  ultimately show "ctl_adjacent d = xdma_get_next_adj (of_nat n - of_nat i - 1) (next_lo ?d)"
    unfolding d by (simp add: ctl_adjacent_xdma_desc_adjacent and_low6 xdma_get_next_adj_less)
qed


text \<open>A ring position inside the pool and software descriptors left in the request.\<close>

definition init_ready :: "xdma_engine \<Rightarrow> xdma_request_cb \<Rightarrow> bool" where
  "init_ready g req \<longleftrightarrow> 0 \<le> desc_idx g \<and> desc_idx g < uint (desc_max g) \<and> desc_max g < 2 ^ 31
     \<and> sw_desc_idx req < sw_desc_cnt req \<and> length (sdesc req) = unat (sw_desc_cnt req)"

definition init_count :: "xdma_engine \<Rightarrow> xdma_request_cb \<Rightarrow> nat" where
  "init_count g req =
     min (unat (sw_desc_cnt req) - unat (sw_desc_idx req)) (unat (desc_max g) - nat (desc_idx g))"

lemma init_ready_count:
  assumes "init_ready g req"
  shows "unat (transfer_desc_count g req) = init_count g req"
    and "0 < init_count g req"
    and "nat (desc_idx g) + init_count g req \<le> unat (desc_max g)"
    and "unat (sw_desc_idx req) + init_count g req \<le> length (sdesc req)"
proof -
  note r = assms [unfolded init_ready_def]
  have i: "nat (desc_idx g) < unat (desc_max g)"
    using r by (simp only: unat_eq_nat_uint nat_less_eq_zless)
  have c: "unat (sw_desc_idx req) < unat (sw_desc_cnt req)" using r by (simp add: word_less_nat_alt)
  show "unat (transfer_desc_count g req) = init_count g req"
    unfolding init_count_def using r by (intro transfer_desc_count_unat) auto
  show "0 < init_count g req" "nat (desc_idx g) + init_count g req \<le> unat (desc_max g)"
    "unat (sw_desc_idx req) + init_count g req \<le> length (sdesc req)"
    using i c r by (auto simp: init_count_def)
qed

text \<open>The whole effect of \<open>transfer_init\<close>, part by part.\<close>

lemma transfer_init_effect:
  assumes "init_ready (get_eng s e) req"
  defines "g \<equiv> get_eng s e"
  defines "n \<equiv> init_count g req" and "dv \<equiv> nat (desc_idx g)" and "t \<equiv> transfer_start g"
    and "ds \<equiv> drop (unat (sw_desc_idx req)) (sdesc req)"
  shows "fst (transfer_init e req x s) =
      req\<lparr>ep_addr := ep_after (non_incr_addr g) (ep_addr req) (take n ds),
          sw_desc_idx := sw_desc_idx req + of_nat n\<rparr>" (is ?req)
    and "get_eng (snd (transfer_init e req x s)) e =
      g\<lparr>desc_mem := transfer_finish_pool (eop_flush g) dv n
          (pool_loop dv (built_desc g (edir g) (res_bus t) (ep_addr req) ds) n
            (transfer_desc_init dv (xdesc_bus t) n (desc_mem g))),
        desc_idx := (desc_idx g + int n) mod uint (desc_max g),
        desc_used := desc_used g + int n\<rparr>" (is ?eng)
    and "get_xfer (snd (transfer_init e req x s)) x =
      t\<lparr>xlen := sum_list (map sd_len (take n ds)), desc_adjacent := int n,
        desc_cmpl_th := (if eop_flush g then 1 else int n), desc_num := int n\<rparr>" (is ?xfer)
    and "e' \<noteq> e \<Longrightarrow> get_eng (snd (transfer_init e req x s)) e' = get_eng s e'"
    and "y \<noteq> x \<Longrightarrow> get_xfer (snd (transfer_init e req x s)) y = get_xfer s y"
    and "trace (snd (transfer_init e req x s)) = trace s @ build_zeros g (res_virt t) n"
proof -
  have n: "unat (transfer_desc_count g req) = n"
    and le: "unat (sw_desc_idx req) + n \<le> length (sdesc req)"
    using init_ready_count [OF assms(1)] unfolding n_def g_def by blast+
  have w: "transfer_desc_count g req = of_nat n" unfolding n [symmetric] by simp
  have u: "uint (transfer_desc_count g req) = int n" unfolding n [symmetric] by simp
  define s1 where "s1 = upd_eng e (\<lambda>g. g\<lparr>desc_mem :=
      transfer_desc_init dv (xdesc_bus t) n (desc_mem g)\<rparr>) (upd_xfer x (\<lambda>_. t) s)"
  obtain req' bus' s' where f: "fold (transfer_build_step e x) [0..<n]
      (req, res_bus (get_xfer s1 x), s1) = (req', bus', s')" by (metis prod_cases3)
  have inv: "build_inv e x req s1 n (req', bus', s')"
    using transfer_build_inv [OF le, of e x s1] unfolding f .
  have t: "desc_virt t = dv" "xdir t = edir g" "xlen t = 0"
    by (simp_all add: t_def dv_def transfer_start_def transfer_zero_def)
  have s1: "get_xfer s1 x = t" "get_eng s1 e = g\<lparr>desc_mem :=
      transfer_desc_init dv (xdesc_bus t) n (desc_mem g)\<rparr>" "trace s1 = trace s"
    "\<And>e'. e' \<noteq> e \<Longrightarrow> get_eng s1 e' = get_eng s e'" "\<And>y. y \<noteq> x \<Longrightarrow> get_xfer s1 y = get_xfer s y"
    by (simp_all add: s1_def g_def)
  have built: "built_desc (g\<lparr>desc_mem := m\<rparr>) = built_desc g" for m
    by (simp add: built_desc_def fun_eq_iff)
  have zeros: "build_zeros (g\<lparr>desc_mem := m\<rparr>) = build_zeros g" for m
    by (simp add: build_zeros_def fun_eq_iff)
  have init: "transfer_init e req x s =
     (req'\<lparr>sw_desc_idx := sw_desc_idx req' + of_nat n\<rparr>,
      upd_eng e (\<lambda>g. g\<lparr>desc_mem := transfer_finish_pool (eop_flush g) dv n (desc_mem g),
                desc_idx := (desc_idx g + int n) mod uint (desc_max g),
                desc_used := desc_used g + int n\<rparr>)
        (upd_xfer x (\<lambda>t. t\<lparr>desc_adjacent := int n,
                desc_cmpl_th := (if eop_flush g then 1 else int n), desc_num := int n\<rparr>) s'))"
    using f t(1) unfolding transfer_init_def transfer_build_def Let_def g_def [symmetric] n u
    by (simp add: w s1_def flip: t_def)
  note i = inv [unfolded build_inv_def Let_def prod.case s1 t built zeros, folded ds_def]
  show ?req ?eng ?xfer unfolding init using i by simp_all
  show "e' \<noteq> e \<Longrightarrow> get_eng (snd (transfer_init e req x s)) e' = get_eng s e'"
    "y \<noteq> x \<Longrightarrow> get_xfer (snd (transfer_init e req x s)) y = get_xfer s y"
    "trace (snd (transfer_init e req x s)) = trace s @ build_zeros g (res_virt t) n"
    unfolding init using i s1 by simp_all
qed


lemma ctl_fresh: "control h = DESC_MAGIC \<Longrightarrow> ctl_adjacent h = 0 \<and> ctl_bits h = 0"
  by (simp add: ctl_adjacent_def ctl_bits_def DESC_MAGIC_def)

lemma built_desc_fields:
  "control (built_desc g dir rb ep ds j h) = control h"
  "next_lo (built_desc g dir rb ep ds j h) = next_lo h"
  "next_hi (built_desc g dir rb ep ds j h) = next_hi h"
  "bytes (built_desc g dir rb ep ds j h) = sd_len (ds ! j)"
  "desc_src (built_desc g dir rb ep ds j h) =
     (if c2h_st g then rb + 32 * of_nat j
      else if dir = DMA_TO_DEVICE then sd_addr (ds ! j)
      else ep_after (non_incr_addr g) ep (take j ds))"
  "desc_dst (built_desc g dir rb ep ds j h) =
     (if dir = DMA_TO_DEVICE then ep_after (non_incr_addr g) ep (take j ds) else sd_addr (ds ! j))"
  by (simp_all add: built_desc_def Let_def xdma_desc_set_def desc_views)

text \<open>What descriptor \<open>i\<close> of a chain of \<open>n\<close> built for the rest of \<open>req\<close> has to hold.\<close>

definition serves :: "xdma_engine \<Rightarrow> xdma_request_cb \<Rightarrow> nat \<Rightarrow> nat \<Rightarrow> xdma_desc \<Rightarrow> bool" where
  "serves g req n i d \<longleftrightarrow>
     (let ds = drop (unat (sw_desc_idx req)) (sdesc req);
          ep = ep_after (non_incr_addr g) (ep_addr req) (take i ds);
          host = sd_addr (ds ! i); start = 32 * word_of_int (desc_idx g)
      in desc_src d = (if c2h_st g then cyclic_result_bus g + start + 32 * of_nat i
                       else if edir g = DMA_TO_DEVICE then host else ep)
       \<and> desc_dst d = (if edir g = DMA_TO_DEVICE then ep else host)
       \<and> bytes d = sd_len (ds ! i)
       \<and> desc_next d = (if Suc i < n then desc_bus g + start + 32 * of_nat (Suc i) else 0)
       \<and> ctl_magic d = 0xAD4B
       \<and> ctl_bits d = (if Suc i = n then 0x13 else if eop_flush g then 2 else 0)
       \<and> ctl_adjacent d = xdma_get_next_adj (of_nat n - of_nat i - 1) (next_lo d))"

text \<open>C8: one call of \<open>transfer_init\<close> leaves in the pool, from the ring position on, a chain the
  device can walk: descriptor \<open>i\<close> carries the \<open>i\<close>-th remaining software descriptor (host address,
  end point address advanced by the lengths before it unless the address is fixed, byte count),
  points to the bus address of the next one (the last to null), has the magic, the stop, end of
  packet and completed bits exactly on the last descriptor (completed everywhere when flushing on
  end of packet), and the prefetch count \<open>xdma_get_next_adj\<close> computes.  Nothing outside the chain
  is written, and the chain lies inside the pool.\<close>

theorem transfer_init_chain:
  fixes x :: xref
  assumes "init_ready (get_eng s e) req"
  defines "g \<equiv> get_eng s e"
  defines "n \<equiv> init_count g req" and "dv \<equiv> nat (desc_idx g)"
    and "pool \<equiv> desc_mem (get_eng (snd (transfer_init e req x s)) e)"
  shows "0 < n \<and> dv + n \<le> unat (desc_max g)
    \<and> (\<forall>i<n. serves g req n i (pool (dv + i)))
    \<and> (\<forall>k. k < dv \<or> dv + n \<le> k \<longrightarrow> pool k = desc_mem g k)"
proof -
  note cnt = init_ready_count [OF assms(1), folded g_def, folded n_def dv_def]
  define ds where "ds = drop (unat (sw_desc_idx req)) (sdesc req)"
  define m1 where "m1 = transfer_desc_init dv (xdesc_bus (transfer_start g)) n (desc_mem g)"
  define m2 where "m2 = pool_loop dv (built_desc g (edir g) (res_bus (transfer_start g))
      (ep_addr req) ds) n m1"
  have pool: "pool = transfer_finish_pool (eop_flush g) dv n m2"
    unfolding pool_def m1_def m2_def n_def dv_def ds_def g_def
    by (simp add: transfer_init_effect(2) [OF assms(1)])
  have start: "xdesc_bus (transfer_start g) = desc_bus g + 32 * word_of_int (desc_idx g)"
    "res_bus (transfer_start g) = cyclic_result_bus g + 32 * word_of_int (desc_idx g)"
    by (simp_all add: transfer_start_def)
  have "pool k = desc_mem g k" if "k < dv \<or> dv + n \<le> k" for k
    unfolding pool transfer_finish_pool_outside [OF cnt(2) that] m2_def pool_loop_apply m1_def
    using that cnt(2) by (auto simp: transfer_desc_init_outside)
  moreover have "serves g req n i (pool (dv + i))" if i: "i < n" for i
  proof -
    have m2: "m2 (dv + i) = built_desc g (edir g) (res_bus (transfer_start g)) (ep_addr req) ds i
        (m1 (dv + i))" using i by (simp add: m2_def pool_loop_apply)
    note m1 = transfer_desc_init_inside [OF i, of dv "xdesc_bus (transfer_start g)" "desc_mem g",
        folded m1_def]
    obtain c where c: "pool (dv + i) = (m2 (dv + i))\<lparr>control := c\<rparr>"
      unfolding pool using finish_pool_views(1) [OF i refl] by metis
    have ctl: "ctl_adjacent (m2 (dv + i)) = 0" "ctl_bits (m2 (dv + i)) = 0"
      using ctl_fresh by (simp_all add: m2 m1 built_desc_fields)
    have views: "desc_src (pool (dv + i)) = desc_src (m2 (dv + i))"
      "desc_dst (pool (dv + i)) = desc_dst (m2 (dv + i))"
      "bytes (pool (dv + i)) = bytes (m2 (dv + i))" "desc_next (pool (dv + i)) = desc_next (m2 (dv + i))"
      "next_lo (pool (dv + i)) = next_lo (m2 (dv + i))"
      unfolding c by (simp_all add: desc_src_def desc_dst_def desc_next_def)
    have nx: "desc_next (m2 (dv + i)) =
        (if Suc i < n then xdesc_bus (transfer_start g) + 32 * of_nat (Suc i) else 0)"
      unfolding desc_next_def m2 built_desc_fields m1 by simp
    show ?thesis
      using finish_pool_views(2,3) [OF i refl, of "eop_flush g" dv m2, folded pool, unfolded ctl]
        finish_pool_views(4) [OF i refl, of m2 dv "eop_flush g", OF ctl(1), folded pool]
      unfolding serves_def views nx ds_def [symmetric] Let_def
      by (simp add: ctl m2 built_desc_fields start)
  qed
  ultimately show ?thesis using cnt by blast
qed

text \<open>A request of three software descriptors on an H2C engine with a pool of eight, at ring
  position six: the base of the witnesses below.\<close>

definition demo_req :: xdma_request_cb where
  "demo_req = request_zero\<lparr>ep_addr := 0x100, sw_desc_cnt := 3,
     sdesc := [\<lparr>sd_addr = 0x1000, sd_len = 16\<rparr>, \<lparr>sd_addr = 0x2000, sd_len = 32\<rparr>,
               \<lparr>sd_addr = 0x3000, sd_len = 8\<rparr>]\<rparr>"

definition demo_world :: world where
  "demo_world = upd_eng (H2C 0) (\<lambda>g. g\<lparr>emagic := MAGIC_ENGINE, edir := DMA_TO_DEVICE,
     desc_max := 8, desc_idx := 6, desc_bus := 0x8000\<rparr>) world0"

lemma demo_ready: "init_ready (get_eng demo_world (H2C 0)) demo_req"
  "init_count (get_eng demo_world (H2C 0)) demo_req = 2"
  "desc_idx (get_eng demo_world (H2C 0)) = 6" "desc_max (get_eng demo_world (H2C 0)) = 8"
  "non_incr_addr (get_eng demo_world (H2C 0)) = False"
  by (simp_all add: init_ready_def init_count_def demo_world_def demo_req_def request_zero_def
      engine_zero_def)

theorem transfer_init_chain_witness:
  "serves (get_eng demo_world (H2C 0)) demo_req 2 1
     (desc_mem (get_eng (snd (transfer_init (H2C 0) demo_req (0, 0) demo_world)) (H2C 0)) 7)"
  using transfer_init_chain [where x = "(0, 0)", OF demo_ready(1)]
  by (auto simp: demo_ready dest: spec [of _ 1])

text \<open>The bookkeeping of \<open>transfer_init\<close>: the transfer records the chain (start, count,
  completion threshold, total length, state new), the request advances by the descriptors consumed
  and the end point address by their bytes, the ring position moves on modulo the pool size and
  stays inside it, the used count grows by the chain length, and no other engine or transfer
  changes.\<close>

theorem transfer_init_bookkeeping:
  fixes x :: xref
  assumes "init_ready (get_eng s e) req"
  defines "g \<equiv> get_eng s e"
  defines "n \<equiv> init_count g req" and "ds \<equiv> drop (unat (sw_desc_idx req)) (sdesc req)"
    and "s' \<equiv> snd (transfer_init e req x s)"
  shows "desc_num (get_xfer s' x) = int n \<and> desc_index (get_xfer s' x) = desc_idx g
    \<and> xlen (get_xfer s' x) = sum_list (map sd_len (take n ds))
    \<and> desc_cmpl_th (get_xfer s' x) = (if eop_flush g then 1 else int n)
    \<and> xstate (get_xfer s' x) = TRANSFER_STATE_NEW \<and> xdir (get_xfer s' x) = edir g
    \<and> fst (transfer_init e req x s) =
        req\<lparr>ep_addr := ep_after (non_incr_addr g) (ep_addr req) (take n ds),
            sw_desc_idx := sw_desc_idx req + of_nat n\<rparr>
    \<and> desc_idx (get_eng s' e) = (desc_idx g + int n) mod uint (desc_max g)
    \<and> 0 \<le> desc_idx (get_eng s' e) \<and> desc_idx (get_eng s' e) < uint (desc_max (get_eng s' e))
    \<and> desc_used (get_eng s' e) = desc_used g + int n
    \<and> (\<forall>e'. e' \<noteq> e \<longrightarrow> get_eng s' e' = get_eng s e')
    \<and> (\<forall>y. y \<noteq> x \<longrightarrow> get_xfer s' y = get_xfer s y)"
proof -
  have "0 < uint (desc_max g)" using assms(1) by (simp add: init_ready_def g_def)
  then show ?thesis
    using transfer_init_effect [OF assms(1), where x = x]
    unfolding g_def n_def ds_def s'_def
    by (simp add: transfer_start_def transfer_zero_def)
qed

theorem transfer_init_bookkeeping_witness:
  "desc_num (get_xfer (snd (transfer_init (H2C 0) demo_req (0, 0) demo_world)) (0, 0)) = 2
   \<and> desc_idx (get_eng (snd (transfer_init (H2C 0) demo_req (0, 0) demo_world)) (H2C 0)) = 0
   \<and> ep_addr (fst (transfer_init (H2C 0) demo_req (0, 0) demo_world)) = 0x130"
proof -
  let ?r = "transfer_init (H2C 0) demo_req (0, 0) demo_world"
  let ?ds = "drop (unat (sw_desc_idx demo_req)) (sdesc demo_req)"
  have ep: "ep_after False (ep_addr demo_req) (take 2 ?ds) = 0x130"
    by (simp add: demo_req_def request_zero_def ep_after_def)
  note b = transfer_init_bookkeeping [where x = "(0, 0)", OF demo_ready(1), unfolded demo_ready]
  from b have "desc_num (get_xfer (snd ?r) (0, 0)) = int 2"
    and "desc_idx (get_eng (snd ?r) (H2C 0)) = (6 + int 2) mod uint (8 :: u32)"
    and "fst ?r = demo_req\<lparr>ep_addr := ep_after False (ep_addr demo_req) (take 2 ?ds),
            sw_desc_idx := sw_desc_idx demo_req + of_nat 2\<rparr>"
    by blast+
  then show ?thesis unfolding ep by simp
qed

end
