(* ===== verification/Xfer.thy ===== *)
theory Xfer
  imports Transfer_Build Threads
begin

text \<open>
  Submitting transfers (\<open>libxdma.c\<close>): queueing and aborting on an engine, the synchronous
  \<open>xdma_xfer_submit\<close>, the asynchronous pair \<open>xdma_xfer_submit_nowait\<close> and
  \<open>xdma_xfer_completion\<close>, and the cyclic performance run.
\<close>

section \<open>Scatter-gather tables\<close>

text \<open>
  The entries as the DMA layer maps them, the number of entries given and the number mapped
  (zero when not mapped).  The mapping calls are kernel services.
\<close>

record sg_table =
  sgl_ents :: sgl
  orig_nents :: nat
  sg_nents :: nat

definition dir_code :: "dma_data_direction \<Rightarrow> int" where
  "dir_code d = (case d of DMA_BIDIRECTIONAL \<Rightarrow> 0 | DMA_TO_DEVICE \<Rightarrow> 1 | DMA_FROM_DEVICE \<Rightarrow> 2 | DMA_NONE \<Rightarrow> 3)"

definition sg_map :: "env \<Rightarrow> sg_table \<Rightarrow> dma_data_direction \<Rightarrow> world \<Rightarrow> nat \<times> world" where
  "sg_map E sgt dir s =
     (let (r, s) = kcall E ''dma_map_sg'' [int (orig_nents sgt), dir_code dir] s in (nat r, s))"

definition sg_unmap :: "nat \<Rightarrow> dma_data_direction \<Rightarrow> world \<Rightarrow> world" where
  "sg_unmap n dir s = emit (Kernel ''dma_unmap_sg'' [int n, dir_code dir] 0) s"

definition mapped :: "sg_table \<Rightarrow> sgl" where
  "mapped sgt = take (sg_nents sgt) (sgl_ents sgt)"

section \<open>The device list\<close>

definition xdev_find_by_pdev :: "nat \<Rightarrow> world \<Rightarrow> nat option" where
  "xdev_find_by_pdev p s = map_option (fst \<circ> snd) (find (\<lambda>d. fst d = p) (xdev_list s))"

definition debug_check_dev_hndl :: "nat \<Rightarrow> nat \<Rightarrow> world \<Rightarrow> unit res" where
  "debug_check_dev_hndl p hndl s =
     (if p = 0 then Inl EINVAL
      else case xdev_find_by_pdev p s of
             None \<Rightarrow> Inl EINVAL
           | Some h \<Rightarrow> if h \<noteq> hndl then Inl EINVAL else Inr ())"

section \<open>Queue operations\<close>

fun transfer_abort :: "eref option \<Rightarrow> xref option \<Rightarrow> world \<Rightarrow> unit res \<times> world" where
  "transfer_abort None xo s = (Inl EINVAL, s)"
| "transfer_abort (Some e) None s = (Inl EINVAL, s)"
| "transfer_abort (Some e) (Some x) s =
     (if desc_num (get_xfer s x) = 0 then (Inl EINVAL, s)
      else let s = (if list_head (transfer_list (get_eng s e)) = Some x
                    then upd_eng e (\<lambda>g. g\<lparr>transfer_list := tl (transfer_list g)\<rparr>) s else s);
               s = (if xstate (get_xfer s x) = TRANSFER_STATE_SUBMITTED
                    then upd_xfer x (\<lambda>t. t\<lparr>xstate := TRANSFER_STATE_ABORTED\<rparr>) s else s)
           in (Inr (), s))"

fun transfer_queue :: "env \<Rightarrow> eref option \<Rightarrow> xref option \<Rightarrow> world \<Rightarrow> unit res \<times> world" where
  "transfer_queue E None xo s = (Inl EINVAL, s)"
| "transfer_queue E (Some e) None s = (Inl EINVAL, s)"
| "transfer_queue E (Some e) (Some x) s =
     (if desc_num (get_xfer s x) = 0 then (Inl EINVAL, s)
      else if xdma_device_flag_check s XDEV_FLAG_OFFLINE then (Inl EBUSY, s)
      else if shutdown (get_eng s e) AND ENGINE_SHUTDOWN_REQUEST \<noteq> 0 then (Inl EBUSY, s)
      else let s = upd_xfer x (\<lambda>t. t\<lparr>xstate := TRANSFER_STATE_SUBMITTED\<rparr>) s;
               s = upd_eng e (\<lambda>g. g\<lparr>transfer_list := transfer_list g @ [x]\<rparr>) s
           in (Inr (), if running (get_eng s e) then s else snd (engine_start E (Some e) s)))"

text \<open>The table travels with the last transfer of a request; its new state is returned.\<close>

definition transfer_destroy :: "eref \<Rightarrow> xref \<Rightarrow> sg_table \<Rightarrow> world \<Rightarrow> sg_table \<times> world" where
  "transfer_destroy e x sgt s =
     (let t = get_xfer s x;
          s = upd_eng e (\<lambda>g. g\<lparr>desc_mem := xdma_desc_done (desc_virt t) (nat (desc_num t)) (desc_mem g)\<rparr>) s
      in if last_in_request t \<and> xflags t AND XFER_FLAG_NEED_UNMAP \<noteq> 0 \<and> sg_nents sgt \<noteq> 0
         then (sgt\<lparr>sg_nents := 0\<rparr>, sg_unmap (sg_nents sgt) (xdir t) s)
         else (sgt, s))"

definition engine_cyclic_stop :: "env \<Rightarrow> eref \<Rightarrow> world \<Rightarrow> xref option \<times> world" where
  "engine_cyclic_stop E e s =
     (case transfer_list (get_eng s e) of
        [] \<Rightarrow> (None, s)
      | x # _ \<Rightarrow>
          (case xdma_engine_stop E (Some e) s of
             (Inl rv, s) \<Rightarrow> (None, s)
           | (Inr _, s) \<Rightarrow>
               if cyclic (get_xfer s x)
               then let g = get_eng s e;
                        size = (case xdma_perf g of Some p \<Rightarrow> uint (transfer_size p) | None \<Rightarrow> 0);
                        s = (if perf_buf_virt g \<noteq> 0
                             then emit (Kernel ''dma_free_coherent'' [size, uint (perf_buf_virt g)] 0) s else s)
                    in (Some x, upd_eng e (\<lambda>g. g\<lparr>perf_buf_virt := 0,
                                   transfer_list := remove1 x (transfer_list g)\<rparr>) s)
               else (Some x, s)))"

section \<open>Waiting\<close>

text \<open>
  While the submitter sleeps, the engine is serviced: by its completion thread in polled mode, by the
  interrupt work otherwise.  The environment says how many services happen before the wait ends by
  wake-up, time-out or signal.
\<close>

definition service_once :: "env \<Rightarrow> eref \<Rightarrow> world \<Rightarrow> world option" where
  "service_once E e s = (case cmplthp (get_eng s e) of
     Some i \<Rightarrow> xthread_pass E i s | None \<Rightarrow> engine_service_work E e s)"

primrec wait_runs :: "env \<Rightarrow> eref \<Rightarrow> xref \<Rightarrow> nat \<Rightarrow> world \<Rightarrow> world option" where
  "wait_runs E e x 0 s = Some s"
| "wait_runs E e x (Suc k) s =
     (if xstate (get_xfer s x) \<noteq> TRANSFER_STATE_SUBMITTED then Some s
      else do { s \<leftarrow> service_once E e s; wait_runs E e x k s })"

definition xfer_wait :: "env \<Rightarrow> eref \<Rightarrow> xref \<Rightarrow> world \<Rightarrow> world option" where
  "xfer_wait E e x s =
     (let s = (case cmplthp (get_eng s e) of Some i \<Rightarrow> xdma_kthread_wakeup i s | None \<Rightarrow> s)
      in wait_runs E e x (services E (trace s)) s)"

text \<open>The default branch of the switch after the wait: the transfer is still in flight.\<close>

definition xfer_timeout :: "env \<Rightarrow> eref \<Rightarrow> xref \<Rightarrow> world \<Rightarrow> world" where
  "xfer_timeout E e x s =
     (case engine_status_read E (Some e) False True s of
        (Inl rv, s) \<Rightarrow> s
      | (Inr _, s) \<Rightarrow>
          (case transfer_abort (Some e) (Some x) s of
             (Inl rv, s) \<Rightarrow> s
           | (Inr _, s) \<Rightarrow> snd (xdma_engine_stop E (Some e) s)))"

text \<open>Summing the lengths the device wrote back, \<open>result[i].length\<close> for \<open>i < n\<close>.\<close>

primrec result_lengths :: "env \<Rightarrow> nat \<Rightarrow> u64 \<Rightarrow> world \<Rightarrow> int \<times> world" where
  "result_lengths E 0 p s = (0, s)"
| "result_lengths E (Suc n) p s =
     (let (v, s) = mem_read E (p + 4) s; (k, s) = result_lengths E n (p + 32) s in (uint v + k, s))"

section \<open>Synchronous submission\<close>

definition select_engine :: "world \<Rightarrow> bool \<Rightarrow> nat \<Rightarrow> eref res" where
  "select_engine s write ch =
     (if write
      then if h2c_channel_max (xdev s) \<le> ch then Inl EINVAL else Inr (H2C ch)
      else if c2h_channel_max (xdev s) \<le> ch then Inl EINVAL else Inr (C2H ch))"

definition write_dir :: "bool \<Rightarrow> dma_data_direction" where
  "write_dir w = (if w then DMA_TO_DEVICE else DMA_FROM_DEVICE)"

definition check_engine :: "world \<Rightarrow> eref \<Rightarrow> bool \<Rightarrow> unit res" where
  "check_engine s e write =
     (if emagic (get_eng s e) \<noteq> MAGIC_ENGINE then Inl EINVAL
      else if xdma_device_flag_check s XDEV_FLAG_OFFLINE then Inl EBUSY
      else if edir (get_eng s e) \<noteq> write_dir write then Inl EINVAL
      else Inr ())"

definition submit_check :: "nat \<Rightarrow> nat \<Rightarrow> bool \<Rightarrow> world \<Rightarrow> eref res" where
  "submit_check hndl ch write s =
     (if hndl = 0 then Inl EINVAL
      else case debug_check_dev_hndl (pdev (xdev s)) hndl s of
             Inl rv \<Rightarrow> Inl rv
           | Inr _ \<Rightarrow>
               (case select_engine s write ch of
                  Inl rv \<Rightarrow> Inl rv
                | Inr e \<Rightarrow> (case check_engine s e write of Inl rv \<Rightarrow> Inl rv | Inr _ \<Rightarrow> Inr e)))"

definition submit_map ::
  "env \<Rightarrow> sg_table \<Rightarrow> bool \<Rightarrow> bool \<Rightarrow> world \<Rightarrow> unit res \<times> sg_table \<times> world" where
  "submit_map E sgt dma_mapped write s =
     (if \<not> dma_mapped
      then let (n, s) = sg_map E sgt (write_dir write) s
           in if n = 0 then (Inl EIO, sgt, s) else (Inr (), sgt\<lparr>sg_nents := n\<rparr>, s)
      else if sg_nents sgt = 0 then (Inl EIO, sgt, s) else (Inr (), sgt, s))"

text \<open>
  One round of the loop: build the next chain, queue it, wait, judge the outcome, release.  The
  round returns the loop state: entries left, bytes done, table, request.
\<close>

definition xfer_prepare ::
  "eref \<Rightarrow> xref \<Rightarrow> bool \<Rightarrow> int \<Rightarrow> xdma_request_cb \<Rightarrow> world \<Rightarrow> int \<times> xdma_request_cb \<times> world" where
  "xfer_prepare e x dma_mapped nents req s =
     (let (req, s) = transfer_init e req x s;
          nents = nents - desc_num (get_xfer s x);
          s = upd_xfer x (\<lambda>t. t\<lparr>xflags := (if dma_mapped then xflags t else XFER_FLAG_NEED_UNMAP),
                                 last_in_request := (nents = 0)\<rparr>) s
      in (nents, req, s))"

definition xfer_verdict ::
  "env \<Rightarrow> eref \<Rightarrow> xref \<Rightarrow> int \<Rightarrow> int \<Rightarrow> world \<Rightarrow> unit res \<times> int \<times> int \<times> world" where
  "xfer_verdict E e x nents done s =
     (case xstate (get_xfer s x) of
        TRANSFER_STATE_COMPLETED \<Rightarrow>
          if c2h_st (get_eng s e)
          then let (k, s) = result_lengths E (nat (desc_cmpl (get_xfer s x))) (res_virt (get_xfer s x)) s
               in (Inr (), if eop_flush (get_eng s e) then 0 else nents, done + k, s)
          else (Inr (), nents, done + uint (xlen (get_xfer s x)), s)
      | TRANSFER_STATE_FAILED \<Rightarrow> (Inl EIO, nents, done, s)
      | _ \<Rightarrow> (Inl ERESTARTSYS, nents, done, xfer_timeout E e x s))"

definition xfer_release :: "eref \<Rightarrow> xref \<Rightarrow> sg_table \<Rightarrow> world \<Rightarrow> sg_table \<times> world" where
  "xfer_release e x sgt s =
     transfer_destroy e x sgt (upd_eng e (\<lambda>g. g\<lparr>desc_used := desc_used g - desc_num (get_xfer s x)\<rparr>) s)"

type_synonym submit_st = "int \<times> int \<times> sg_table \<times> xdma_request_cb \<times> world"

definition submit_round ::
  "env \<Rightarrow> eref \<Rightarrow> xref \<Rightarrow> bool \<Rightarrow> submit_st \<Rightarrow> (unit res \<times> submit_st) option" where
  "submit_round E e x dma_mapped = (\<lambda>(nents, done, sgt, req, s).
     let (nents, req, s) = xfer_prepare e x dma_mapped nents req s
     in case transfer_queue E (Some e) (Some x) s of
          (Inl rv, s) \<Rightarrow> Some (Inl rv, nents, done, sgt, req, s)
        | (Inr _, s) \<Rightarrow> do {
            s \<leftarrow> xfer_wait E e x s;
            let (rv, nents, done, s) = xfer_verdict E e x nents done s;
            let (sgt, s) = xfer_release e x sgt s;
            Some (rv, nents, done, sgt, req, s)
          })"

partial_function (option) submit_loop ::
  "env \<Rightarrow> eref \<Rightarrow> xref \<Rightarrow> bool \<Rightarrow> submit_st \<Rightarrow> (unit res \<times> submit_st) option" where
  "submit_loop E e x dma_mapped st =
     (if fst st = 0 then Some (Inr (), st)
      else do {
        (rv, st) \<leftarrow> submit_round E e x dma_mapped st;
        case rv of Inl r \<Rightarrow> Some (Inl r, st) | Inr _ \<Rightarrow> submit_loop E e x dma_mapped st
      })"

definition unmap_sgl :: "bool \<Rightarrow> bool \<Rightarrow> sg_table \<Rightarrow> world \<Rightarrow> sg_table \<times> world" where
  "unmap_sgl dma_mapped write sgt s =
     (if \<not> dma_mapped \<and> sg_nents sgt \<noteq> 0
      then (sgt\<lparr>sg_nents := 0\<rparr>, sg_unmap (orig_nents sgt) (write_dir write) s)
      else (sgt, s))"

definition xfer_result :: "int \<Rightarrow> unit res \<Rightarrow> int res" where
  "xfer_result done rv = (if done \<noteq> 0 then Inr done else case rv of Inl r \<Rightarrow> Inl r | Inr _ \<Rightarrow> Inr 0)"

text \<open>The request is number \<open>rid\<close>; its transfers are \<open>(rid, 0)\<close> and \<open>(rid, 1)\<close>.\<close>

definition xdma_xfer_submit ::
  "env \<Rightarrow> nat \<Rightarrow> nat \<Rightarrow> nat \<Rightarrow> bool \<Rightarrow> u64 \<Rightarrow> sg_table \<Rightarrow> bool \<Rightarrow> world \<Rightarrow> (int res \<times> sg_table \<times> world) option" where
  "xdma_xfer_submit E rid hndl ch write ep sgt dma_mapped s =
     (case submit_check hndl ch write s of
        Inl rv \<Rightarrow> Some (Inl rv, sgt, s)
      | Inr e \<Rightarrow>
          (case submit_map E sgt dma_mapped write s of
             (Inl rv, sgt, s) \<Rightarrow> Some (Inl rv, sgt, s)
           | (Inr _, sgt, s) \<Rightarrow> do {
               (ro, s) \<leftarrow> xdma_init_request E (mapped sgt) ep s;
               case ro of
                 None \<Rightarrow> let (sgt, s) = unmap_sgl dma_mapped write sgt s in Some (Inl ENOMEM, sgt, s)
               | Some req \<Rightarrow> do {
                   (rv, nents, done, sgt, req, s) \<leftarrow>
                     submit_loop E e (rid, 0) dma_mapped (uint (sw_desc_cnt req), 0, sgt, req, s);
                   let (sgt, s) = unmap_sgl dma_mapped write sgt s;
                   Some (xfer_result done rv, sgt, xdma_request_free req s)
                 }
             }))"

declare submit_loop.simps [code]

section \<open>Asynchronous submission\<close>

text \<open>
  \<open>transfer_init\<close> cannot fail, so its error branch is dead.  The transfers of the request are used one
  after the other.  The submitted request is returned; it is what \<open>cb->req\<close> points to.
\<close>

type_synonym nowait_st = "int \<times> nat \<times> xdma_request_cb \<times> world"

definition nowait_round ::
  "env \<Rightarrow> eref \<Rightarrow> nat \<Rightarrow> cbref \<Rightarrow> bool \<Rightarrow> nowait_st \<Rightarrow> unit res \<times> nowait_st" where
  "nowait_round E e rid cb dma_mapped = (\<lambda>(nents, k, req, s).
     let (nents, req, s) = xfer_prepare e (rid, k) dma_mapped nents req s;
         s = upd_xfer (rid, k) (\<lambda>t. t\<lparr>xcb := Some cb\<rparr>) s
     in case transfer_queue E (Some e) (Some (rid, k)) s of
          (Inl rv, s) \<Rightarrow> (Inl rv, nents, k, req, s)
        | (Inr _, s) \<Rightarrow> (Inr (), nents, k + 1, req, s))"

partial_function (option) nowait_loop ::
  "env \<Rightarrow> eref \<Rightarrow> nat \<Rightarrow> cbref \<Rightarrow> bool \<Rightarrow> nowait_st \<Rightarrow> (unit res \<times> nowait_st) option" where
  "nowait_loop E e rid cb dma_mapped st =
     (if fst st = 0 then Some (Inr (), st)
      else case fst (nowait_round E e rid cb dma_mapped st) of
             Inl rv \<Rightarrow> Some (Inl rv, snd (nowait_round E e rid cb dma_mapped st))
           | Inr _ \<Rightarrow> nowait_loop E e rid cb dma_mapped (snd (nowait_round E e rid cb dma_mapped st)))"

definition xdma_xfer_submit_nowait ::
  "env \<Rightarrow> nat \<Rightarrow> cbref \<Rightarrow> nat \<Rightarrow> nat \<Rightarrow> bool \<Rightarrow> u64 \<Rightarrow> sg_table \<Rightarrow> bool \<Rightarrow> world \<Rightarrow>
   (errno \<times> xdma_request_cb option \<times> sg_table \<times> world) option" where
  "xdma_xfer_submit_nowait E rid cb hndl ch write ep sgt dma_mapped s =
     (case submit_check hndl ch write s of
        Inl rv \<Rightarrow> Some (rv, None, sgt, s)
      | Inr e \<Rightarrow>
          (case submit_map E sgt dma_mapped write s of
             (Inl rv, sgt, s) \<Rightarrow> Some (rv, None, sgt, s)
           | (Inr _, sgt, s) \<Rightarrow> do {
               (ro, s) \<leftarrow> xdma_init_request E (mapped sgt) ep s;
               case ro of
                 None \<Rightarrow> let (sgt, s) = unmap_sgl dma_mapped write sgt s in Some (ENOMEM, None, sgt, s)
               | Some req \<Rightarrow> do {
                   (rv, nents, k, req, s) \<leftarrow> nowait_loop E e rid cb dma_mapped
                     (uint (sw_desc_cnt req), 0, req\<lparr>rcb := Some cb\<rparr>, s);
                   case rv of
                     Inl rv \<Rightarrow> let (sgt, s) = unmap_sgl dma_mapped write sgt s
                               in Some (rv, None, sgt, xdma_request_free req s)
                   | Inr _ \<Rightarrow> Some (EIOCBQUEUED, Some req, sgt, s)
                 }
             }))"

section \<open>Completion of an asynchronous request\<close>

definition completion_verdict :: "env \<Rightarrow> eref \<Rightarrow> xref \<Rightarrow> int \<Rightarrow> world \<Rightarrow> unit res \<times> int \<times> world" where
  "completion_verdict E e x done s =
     (case xstate (get_xfer s x) of
        TRANSFER_STATE_COMPLETED \<Rightarrow>
          if c2h_st (get_eng s e)
          then let (k, s) = result_lengths E (nat (desc_num (get_xfer s x))) (res_virt (get_xfer s x)) s
               in (Inr (), done + k, s)
          else (Inr (), done + uint (xlen (get_xfer s x)), s)
      | TRANSFER_STATE_FAILED \<Rightarrow> (Inl EIO, done, s)
      | _ \<Rightarrow>
          let s = snd (engine_status_read E (Some e) False True s);
              s = snd (transfer_abort (Some e) (Some x) s);
              s = snd (xdma_engine_stop E (Some e) s)
          in (Inl ERESTARTSYS, done, s))"

type_synonym compl_st = "int \<times> nat \<times> int \<times> sg_table \<times> world"

definition completion_round :: "env \<Rightarrow> eref \<Rightarrow> nat \<Rightarrow> compl_st \<Rightarrow> unit res \<times> compl_st" where
  "completion_round E e rid = (\<lambda>(nents, k, done, sgt, s).
     let x = (rid, k); nents = nents - desc_num (get_xfer s x);
         (rv, done, s) = completion_verdict E e x done s;
         (sgt, s) = transfer_destroy e x sgt s;
         s = upd_eng e (\<lambda>g. g\<lparr>desc_used := desc_used g - desc_num (get_xfer s x)\<rparr>) s
     in (rv, nents, k + 1, done, sgt, s))"

partial_function (option) completion_loop ::
  "env \<Rightarrow> eref \<Rightarrow> nat \<Rightarrow> compl_st \<Rightarrow> compl_st option" where
  "completion_loop E e rid st =
     (if fst st = 0 then Some st
      else case fst (completion_round E e rid st) of
             Inl rv \<Rightarrow> Some (snd (completion_round E e rid st))
           | Inr _ \<Rightarrow> completion_loop E e rid (snd (completion_round E e rid st)))"

definition xdma_xfer_completion ::
  "env \<Rightarrow> nat \<Rightarrow> xdma_request_cb \<Rightarrow> nat \<Rightarrow> bool \<Rightarrow> sg_table \<Rightarrow> bool \<Rightarrow> world \<Rightarrow>
   (int res \<times> sg_table \<times> world) option" where
  "xdma_xfer_completion E rid req ch write sgt dma_mapped s =
     (case select_engine s write ch of
        Inl rv \<Rightarrow> Some (Inl rv, sgt, s)
      | Inr e \<Rightarrow>
          if emagic (get_eng s e) \<noteq> MAGIC_ENGINE then Some (Inl EINVAL, sgt, s)
          else do {
            (nents, k, done, sgt, s) \<leftarrow>
              completion_loop E e rid (uint (sw_desc_cnt req), 0, 0, sgt, s);
            let (sgt, s) = unmap_sgl dma_mapped write sgt s;
            Some (Inr done, sgt, xdma_request_free req s)
          })"

section \<open>The performance run\<close>

text \<open>How many descriptors of what size the loop gets; \<open>None\<close> if a buffer is larger than 4 MiB.\<close>

definition perf_geometry :: "u32 \<Rightarrow> (int \<times> int) option" where
  "perf_geometry tsize =
     (let max_consistent = 128 * 32 * 1024; size_in_desc = sint tsize; size = size_in_desc * 128
      in if (word_of_int max_consistent :: u32) < tsize then None
         else if max_consistent < size then Some (max_consistent div size_in_desc, size_in_desc)
         else Some (128, size_in_desc))"

definition perf_chain :: "eref \<Rightarrow> xref \<Rightarrow> int \<Rightarrow> world \<Rightarrow> world" where
  "perf_chain e x size_in_desc s =
     (let t = get_xfer s x; n = nat (desc_num t); dv = desc_virt t;
          s = upd_eng e (\<lambda>g. g\<lparr>desc_mem := transfer_desc_init dv (xdesc_bus t) n (desc_mem g)\<rparr>) s;
          s = upd_eng e (\<lambda>g. g\<lparr>desc_mem := pool_loop dv
                (\<lambda>_ h. xdma_desc_set h (perf_buf_bus g) 0 (word_of_int size_in_desc) (edir g)) n
                (desc_mem g)\<rparr>) s;
          s = upd_desc e dv (\<lambda>h. snd (xdma_desc_control_set h 0)) s;
          s = upd_desc e (dv + n - 1) (\<lambda>h. xdma_desc_link h (Some (xdesc_bus t))) s
      in upd_xfer x (\<lambda>t. t\<lparr>cyclic := True\<rparr>) s)"

definition perf_release :: "eref \<Rightarrow> xref \<Rightarrow> int \<Rightarrow> world \<Rightarrow> world" where
  "perf_release e x size_in_desc s =
     (let g = get_eng s e;
          s = (if perf_buf_virt g \<noteq> 0
               then emit (Kernel ''dma_free_coherent'' [size_in_desc, uint (perf_buf_virt g)] 0) s else s)
      in upd_eng e (\<lambda>g. g\<lparr>perf_buf_virt := 0\<rparr>) s)"

text \<open>Allocation of a descriptor ring when the engine has none; the flag says it has to be freed.\<close>

definition perf_ring :: "env \<Rightarrow> eref \<Rightarrow> int \<Rightarrow> world \<Rightarrow> bool res \<times> world" where
  "perf_ring E e n s =
     (if desc (get_eng s e) \<noteq> 0 then (Inr False, s)
      else let (p, s) = kcall E ''dma_alloc_coherent'' [n * 32] s;
               s = upd_eng e (\<lambda>g. g\<lparr>desc := word_of_int p,
                     desc_bus := word_of_int (kernel E (trace s) ''dma handle'' [p])\<rparr>) s
           in if desc (get_eng s e) = 0 then (Inl ENOMEM, s) else (Inr True, s))"

definition xdma_performance_submit :: "env \<Rightarrow> eref \<Rightarrow> xref \<Rightarrow> world \<Rightarrow> unit res \<times> world" where
  "xdma_performance_submit E e x s =
     (case xdma_perf (get_eng s e) of
        None \<Rightarrow> (Inl EFAULT, s)
      | Some p \<Rightarrow>
          (case perf_geometry (transfer_size p) of
             None \<Rightarrow> (Inl EINVAL, s)
           | Some (n, size_in_desc) \<Rightarrow>
               let (v, s) = kcall E ''dma_alloc_coherent'' [size_in_desc] s;
                   s = upd_eng e (\<lambda>g. g\<lparr>perf_buf_virt := word_of_int v,
                         perf_buf_bus := word_of_int (kernel E (trace s) ''dma handle'' [v])\<rparr>) s
               in if perf_buf_virt (get_eng s e) = 0 then (Inl ENOMEM, s)
                  else if \<not> kzalloc E (trace s) then (Inl ENOMEM, perf_release e x size_in_desc s)
                  else let s = upd_xfer x (\<lambda>_. transfer_zero\<lparr>xdir := edir (get_eng s e), desc_num := n\<rparr>) s
                       in case perf_ring E e n s of
                            (Inl rv, s) \<Rightarrow> (Inl rv, perf_release e x size_in_desc s)
                          | (Inr free_desc, s) \<Rightarrow>
                              let s = upd_xfer x (\<lambda>t. t\<lparr>desc_virt := 0, xdesc_bus := desc_bus (get_eng s e)\<rparr>) s;
                                  s = perf_chain e x size_in_desc s
                              in case transfer_queue E (Some e) (Some x) s of
                                   (Inr _, s) \<Rightarrow> (Inr (), s)
                                 | (Inl rv, s) \<Rightarrow>
                                     let g = get_eng s e;
                                         s = (if free_desc \<and> desc g \<noteq> 0
                                              then emit (Kernel ''dma_free_coherent'' [n * 32, uint (desc g)] 0) s
                                              else s);
                                         s = upd_eng e (\<lambda>g. g\<lparr>desc := 0\<rparr>) s
                                     in (Inl rv, perf_release e x size_in_desc s)))"

declare nowait_loop.simps [code] completion_loop.simps [code]

end
