(* ===== verification/Submit.thy ===== *)
theory Submit
  imports Xfer
begin

text \<open>
  Properties of submission: what queueing does, what the checks reject, and the end-to-end
  behaviour of the synchronous submission on a device that completes its work.
\<close>

section \<open>Queueing\<close>

lemma flag_check_frame [simp]:
  "xdma_device_flag_check (upd_eng e f s) v = xdma_device_flag_check s v"
  "xdma_device_flag_check (upd_xfer x h s) v = xdma_device_flag_check s v"
  "xdma_device_flag_check (emit ev s) v = xdma_device_flag_check s v"
  by (simp_all add: xdma_device_flag_check_def)

definition queue_open :: "world \<Rightarrow> eref \<Rightarrow> bool" where
  "queue_open s e \<longleftrightarrow> \<not> xdma_device_flag_check s XDEV_FLAG_OFFLINE
     \<and> shutdown (get_eng s e) AND ENGINE_SHUTDOWN_REQUEST = 0"

declare transfer_queue.simps(3) [simp del]

lemma transfer_queue_effect:
  fixes E :: env
  assumes "queue_open s e" and "desc_num (get_xfer s x) \<noteq> 0"
  defines "s' \<equiv> snd (transfer_queue E (Some e) (Some x) s)"
  shows "fst (transfer_queue E (Some e) (Some x) s) = Inr ()"
    and "transfer_list (get_eng s' e) = transfer_list (get_eng s e) @ [x]"
    and "running (get_eng s' e)"
    and "xfers s' = (xfers s)(x := (xfers s x)\<lparr>xstate := TRANSFER_STATE_SUBMITTED\<rparr>)"
    and "eng_static (get_eng s' e') = eng_static (get_eng s e')"
    and "\<not> running (get_eng s e) \<Longrightarrow> desc_dequeued (get_eng s' e) = 0"
    and "queue_open s' e"
    and "\<exists>tr. trace s' = trace s @ tr"
    and "\<not> running (get_eng s e) \<Longrightarrow> hw_run (control_reg (get_eng s e)) (trace s')"
    and "dflags (xdev s') = dflags (xdev s)"
proof -
  let ?s1 = "upd_eng e (\<lambda>g. g\<lparr>transfer_list := transfer_list g @ [x]\<rparr>)
      (upd_xfer x (\<lambda>t. t\<lparr>xstate := TRANSFER_STATE_SUBMITTED\<rparr>) s)"
  have r: "transfer_queue E (Some e) (Some x) s =
      (Inr (), if running (get_eng s e) then ?s1 else snd (engine_start E (Some e) ?s1))"
    using assms(1,2) by (simp add: queue_open_def Let_def transfer_queue.simps(3))
  have k1: "eng_static (get_eng ?s1 e') = eng_static (get_eng s e')" for e'
    by (simp add: eng_static_def)
  show "fst (transfer_queue E (Some e) (Some x) s) = Inr ()" by (simp add: r)
  have all: "transfer_list (get_eng s' e) = transfer_list (get_eng s e) @ [x]
    \<and> running (get_eng s' e)
    \<and> xfers s' = (xfers s)(x := (xfers s x)\<lparr>xstate := TRANSFER_STATE_SUBMITTED\<rparr>)
    \<and> (\<forall>e'. eng_static (get_eng s' e') = eng_static (get_eng s e'))
    \<and> (\<not> running (get_eng s e) \<longrightarrow> desc_dequeued (get_eng s' e) = 0)
    \<and> queue_open s' e \<and> (\<exists>tr. trace s' = trace s @ tr)
    \<and> (\<not> running (get_eng s e) \<longrightarrow> hw_run (control_reg (get_eng s e)) (trace s'))
    \<and> dflags (xdev s') = dflags (xdev s)"
  proof (cases "running (get_eng s e)")
    case True
    then have "s' = ?s1" by (simp add: s'_def r)
    with True assms(1) k1 show ?thesis by (simp add: queue_open_def)
  next
    case False
    then have s': "s' = snd (engine_start E (Some e) ?s1)" by (simp add: s'_def r)
    obtain y ys where l: "\<not> running (get_eng ?s1 e)" "transfer_list (get_eng ?s1 e) = y # ys"
      using False by (cases "transfer_list (get_eng s e)") auto
    note st = engine_start_effect [OF l, where E = E]
    obtain v where v: "get_eng s' e = (get_eng ?s1 e)\<lparr>running := True,
        shutdown := ENGINE_SHUTDOWN_NONE, desc_dequeued := 0, status := v\<rparr>"
      unfolding s' using st(2) by blast
    have d: "dflags (xdev s') = dflags (xdev s)" by (simp add: s' engine_start_dflags)
    have "eng_static (get_eng s' e') = eng_static (get_eng s e')" for e'
      using st(3) [of e'] k1 by (cases "e' = e") (simp_all add: v eng_static_def s' [symmetric])
    moreover have "queue_open s' e"
      using assms(1) d by (simp add: queue_open_def v ENGINE_SHUTDOWN_NONE_def xdma_device_flag_check_def)
    moreover have "hw_run (control_reg (get_eng s e)) (trace s')"
    proof -
      obtain ws where "io_writes (trace s') =
          ws @ [(control_reg (get_eng ?s1 e), start_word E (get_eng ?s1 e))]"
        using st(5) unfolding s' start_writes_def by simp
      then have "hw_run (control_reg (get_eng ?s1 e)) (trace s')" by (simp add: hw_run_last run_bits)
      then show ?thesis by (simp add: control_reg_def)
    qed
    ultimately show ?thesis
      using engine_start_trace [of E e ?s1] d st(4) by (simp add: v) (simp add: s')
  qed
  then show "transfer_list (get_eng s' e) = transfer_list (get_eng s e) @ [x]"
    "running (get_eng s' e)"
    "xfers s' = (xfers s)(x := (xfers s x)\<lparr>xstate := TRANSFER_STATE_SUBMITTED\<rparr>)"
    "eng_static (get_eng s' e') = eng_static (get_eng s e')"
    "\<not> running (get_eng s e) \<Longrightarrow> desc_dequeued (get_eng s' e) = 0"
    "queue_open s' e" "\<exists>tr. trace s' = trace s @ tr"
    "\<not> running (get_eng s e) \<Longrightarrow> hw_run (control_reg (get_eng s e)) (trace s')"
    "dflags (xdev s') = dflags (xdev s)"
    by blast+
qed

text \<open>C10: a transfer is queued only on an open engine (device online, no shutdown requested) and only
  with descriptors; a refusal changes nothing.  A queued transfer is submitted, stands last in the
  queue behind everything queued before, and the engine runs; an idle engine has been given RUN.\<close>

theorem transfer_queue_spec:
  fixes E :: env and e :: eref and x :: xref and s :: world
  defines "s' \<equiv> snd (transfer_queue E (Some e) (Some x) s)"
  shows "if desc_num (get_xfer s x) = 0 \<or> \<not> queue_open s e
     then (\<exists>rv. transfer_queue E (Some e) (Some x) s = (Inl rv, s))
     else fst (transfer_queue E (Some e) (Some x) s) = Inr ()
        \<and> transfer_list (get_eng s' e) = transfer_list (get_eng s e) @ [x]
        \<and> xstate (get_xfer s' x) = TRANSFER_STATE_SUBMITTED
        \<and> running (get_eng s' e)
        \<and> (running (get_eng s e) \<or> hw_run (control_reg (get_eng s e)) (trace s'))"
proof (cases "desc_num (get_xfer s x) = 0 \<or> \<not> queue_open s e")
  case True
  then show ?thesis by (auto simp: transfer_queue.simps queue_open_def)
next
  case False
  then have "queue_open s e" "desc_num (get_xfer s x) \<noteq> 0" by auto
  from transfer_queue_effect [OF this, where E = E] False show ?thesis
    by (auto simp: s'_def get_xfer_def)
qed

theorem transfer_queue_spec_witness:
  "transfer_list (get_eng (snd (transfer_queue env0 (Some (H2C 0)) (Some (2, 0))
     (upd_xfer (2, 0) (\<lambda>x. x\<lparr>desc_num := 1\<rparr>) world0))) (H2C 0)) = [(2, 0)]"
  using transfer_queue_spec [where s = "upd_xfer (2, 0) (\<lambda>x. x\<lparr>desc_num := 1\<rparr>) world0" and x = "(2, 0)" and e = "H2C 0" and E = env0]
  by (simp add: engine_zero_def queue_open_def xdma_device_flag_check_def xdev0_def)

section \<open>A device that completes its work\<close>

text \<open>
  The assumption on the device in the end-to-end property: every wait sees at least one interrupt
  service, the completed descriptor count covers any chain, and the status has no error bit.
\<close>

definition prompt :: "env \<Rightarrow> xdma_engine \<Rightarrow> bool" where
  "prompt E g \<longleftrightarrow> (\<forall>tr. 0 < services E tr)
     \<and> (\<forall>tr. desc_max g \<le> ioread32 E tr (regs g + ereg ''completed_desc_count''))
     \<and> (\<forall>tr. ioread32 E tr (regs g + ereg ''status_rc'') AND XDMA_STAT_H2C_ERR_MASK = 0
            \<and> ioread32 E tr (regs g + ereg ''status_rc'') AND XDMA_STAT_C2H_ERR_MASK = 0)"

definition memory_mapped :: "xdma_engine \<Rightarrow> bool" where
  "memory_mapped g \<longleftrightarrow> emagic g = MAGIC_ENGINE \<and> cmplthp g = None \<and> \<not> eop_flush g \<and> \<not> c2h_st g
     \<and> desc_max g < 2 ^ 31"

lemma eng_staticD:
  assumes "eng_static g' = eng_static g"
  shows "regs g' = regs g" "desc_max g' = desc_max g" "desc_idx g' = desc_idx g" "emagic g' = emagic g"
    "cmplthp g' = cmplthp g" "eop_flush g' = eop_flush g" "edir g' = edir g" "c2h_st g' = c2h_st g"
    "non_incr_addr g' = non_incr_addr g" "prompt E g' = prompt E g" "memory_mapped g' = memory_mapped g"
proof -
  show f: "regs g' = regs g" "desc_max g' = desc_max g" "desc_idx g' = desc_idx g" "emagic g' = emagic g"
    "cmplthp g' = cmplthp g" "eop_flush g' = eop_flush g" "edir g' = edir g"
    "non_incr_addr g' = non_incr_addr g"
    using arg_cong [OF assms, of regs] arg_cong [OF assms, of desc_max] arg_cong [OF assms, of desc_idx]
      arg_cong [OF assms, of emagic] arg_cong [OF assms, of cmplthp] arg_cong [OF assms, of eop_flush]
      arg_cong [OF assms, of edir] arg_cong [OF assms, of non_incr_addr]
    by (simp_all add: eng_static_def)
  show c: "c2h_st g' = c2h_st g"
    using f(7) arg_cong [OF assms, of streaming] by (simp add: c2h_st_def eng_static_def)
  show "prompt E g' = prompt E g" "memory_mapped g' = memory_mapped g"
    by (simp_all add: prompt_def memory_mapped_def f c)
qed

lemma service_count_interrupt:
  assumes "service_count E e 0 s = (n, s1)"
  shows "\<exists>tr. n = ioread32 E tr (regs (get_eng s e) + ereg ''completed_desc_count'')"
    and "\<exists>tr. status (get_eng s1 e) = ioread32 E tr (regs (get_eng s e) + ereg ''status_rc'')"
proof -
  define s0 where "s0 = snd (engine_status_read E (Some e) True False s)"
  obtain v where v: "get_eng s0 e = (get_eng s e)\<lparr>status := v\<rparr>"
    "v = ioread32 E (trace s) (regs (get_eng s e) + ereg ''status_rc'')"
    unfolding s0_def using engine_status_read_effect(2) [of E e True s] by auto
  define s2 where "s2 = (if running (get_eng s0 e) \<and> status (get_eng s0 e) AND XDMA_STAT_BUSY = 0
      then snd (engine_service_shutdown E (Some e) s0) else s0)"
  have c: "service_count E e 0 s = eng_read E e ''completed_desc_count'' s2"
    by (simp add: service_count_def Let_def s0_def [symmetric] s2_def)
  have s2: "regs (get_eng s2 e) = regs (get_eng s e)" "status (get_eng s2 e) = v"
    by (simp_all add: s2_def v(1) engine_service_shutdown_effect)
  from assms c have ns: "n = fst (eng_read E e ''completed_desc_count'' s2)"
    "s1 = snd (eng_read E e ''completed_desc_count'' s2)" by simp_all
  show "\<exists>tr. n = ioread32 E tr (regs (get_eng s e) + ereg ''completed_desc_count'')"
    by (rule exI [of _ "trace s2"]) (simp add: ns(1) s2(1))
  show "\<exists>tr. status (get_eng s1 e) = ioread32 E tr (regs (get_eng s e) + ereg ''status_rc'')"
    by (rule exI [of _ "trace s"]) (simp add: ns(2) s2(2) v(2))
qed

lemma interrupt_service_completes:
  assumes "completion_callback E" and "prompt E (get_eng s e)" and "memory_mapped (get_eng s e)"
    and "running (get_eng s e)" and "transfer_list (get_eng s e) = [x]"
    and "desc_dequeued (get_eng s e) = 0" and "\<not> cyclic (xfers s x)"
    and "0 < desc_num (xfers s x)" and "desc_num (xfers s x) \<le> uint (desc_max (get_eng s e))"
  shows "\<exists>s'. engine_service_work E e s = Some s' \<and> xstate (xfers s' x) = TRANSFER_STATE_COMPLETED
     \<and> transfer_list (get_eng s' e) = [] \<and> \<not> running (get_eng s' e) \<and> keeps s s'"
proof -
  let ?g = "get_eng s e" and ?d = "word_of_int (desc_num (xfers s x)) :: u32"
  obtain n s1 where c: "service_count E e 0 s = (n, s1)" by fastforce
  note i = service_count_interrupt [OF c]
  have dn: "uint ?d = desc_num (xfers s x)"
    using assms(8,9) uint_lt2p [of "desc_max ?g"] by (simp add: uint_word_of_int)
  have nmax: "desc_max ?g \<le> n" using i(1) assms(2) by (auto simp: prompt_def)
  have le: "?d \<le> n" using nmax assms(9) dn by (simp add: word_le_def)
  have n0: "n \<noteq> 0" using le dn assms(8) by (auto simp: word_le_def)
  have noerr: "\<not> status_error (get_eng s1 e)" using i(2) assms(2) by (auto simp: prompt_def status_error_def)
  define ds where "ds = (if ?d < n then [x] else [])"
  define rest where "rest = (if ?d < n then [] else [x])"
  have sp: "split_done (xfers s) (n - word_of_int (desc_dequeued ?g)) (transfer_list ?g)
      = (ds, if ?d < n then n - ?d else n, rest)"
    using assms(5,6,7) by (simp add: ds_def rest_def Let_def)
  have "\<not> eop_flush ?g" using assms(3) by (simp add: memory_mapped_def)
  from engine_service_outcome [OF assms(1,4) this c n0 sp] obtain s' where
    r: "engine_service E (Some e) 0 s = Some (if 0 AND WB_ERR_MASK \<noteq> 0 then Inl EPERM else Inr (), s')"
    and s': "transfer_list (get_eng s' e) = tl rest" "running (get_eng s' e) \<longleftrightarrow> tl rest \<noteq> []"
    "xstate (xfers s' x) = (if rest \<noteq> [] \<and> x = hd rest
       then fin_state (get_eng s1 e) (xfers s x) (if ?d < n then n - ?d else n)
       else if x \<in> set ds then TRANSFER_STATE_COMPLETED else xstate (xfers s x))" by blast
  have r: "engine_service E (Some e) 0 s = Some (Inr (), s')" unfolding r by simp
  have tl: "tl rest = []" by (simp add: rest_def)
  have st: "xstate (xfers s' x) = TRANSFER_STATE_COMPLETED"
  proof (cases "?d < n")
    case True
    then show ?thesis unfolding s'(3) rest_def ds_def by simp
  next
    case False
    have "\<not> n < ?d" using le by (simp add: not_less)
    with False noerr show ?thesis unfolding s'(3) rest_def ds_def fin_state_def by simp
  qed
  have k: "keeps s s'" by (rule engine_service_keeps [OF assms(1) r])
  let ?s2 = "if msix_enabled (xdev s')
      then eng_write (interrupt_enable_mask_value (get_eng s' e)) e ''interrupt_enable_mask_w1s'' s'
      else channel_interrupts_enable (irq_bitmask (get_eng s' e)) s'"
  have "engine_service_work E e s = Some ?s2"
    using r assms(3) by (simp add: engine_service_work_def memory_mapped_def del: engine_service.simps)
  moreover have "keeps s ?s2" "xfers ?s2 = xfers s'" "get_eng ?s2 e = get_eng s' e"
    using k by (simp_all add: eng_write_def channel_interrupts_enable_def write_register_def keeps_emit)
  ultimately show ?thesis using st s'(1,2) tl by metis
qed

lemma xfer_wait_completes:
  assumes "completion_callback E" and "prompt E (get_eng s e)" and "memory_mapped (get_eng s e)"
    and "running (get_eng s e)" and "transfer_list (get_eng s e) = [x]"
    and "desc_dequeued (get_eng s e) = 0" and "\<not> cyclic (xfers s x)"
    and "0 < desc_num (xfers s x)" and "desc_num (xfers s x) \<le> uint (desc_max (get_eng s e))"
    and "xstate (xfers s x) = TRANSFER_STATE_SUBMITTED"
  shows "\<exists>s'. xfer_wait E e x s = Some s' \<and> xstate (xfers s' x) = TRANSFER_STATE_COMPLETED
     \<and> transfer_list (get_eng s' e) = [] \<and> \<not> running (get_eng s' e) \<and> keeps s s'"
proof -
  from interrupt_service_completes [OF assms(1-9)] obtain s' where s':
    "engine_service_work E e s = Some s'" "xstate (xfers s' x) = TRANSFER_STATE_COMPLETED"
    "transfer_list (get_eng s' e) = []" "\<not> running (get_eng s' e)" "keeps s s'" by blast
  have cm: "cmplthp (get_eng s e) = None" using assms(3) by (simp add: memory_mapped_def)
  obtain k where k: "services E (trace s) = Suc k"
    using assms(2) by (metis prompt_def gr0_implies_Suc)
  have "wait_runs E e x k s' = Some s'" using s'(2) by (cases k) (simp_all add: get_xfer_def)
  then have "xfer_wait E e x s = Some s'"
    using s'(1) assms(10) by (simp add: xfer_wait_def cm k service_once_def get_xfer_def)
  with s' show ?thesis by blast
qed

section \<open>The submission loop\<close>

lemma transfer_build_dflags:
  "dflags (xdev (snd (snd (fold (transfer_build_step e x) js r)))) = dflags (xdev (snd (snd r)))"
proof (induction js arbitrary: r)
  case (Cons j js)
  have "dflags (xdev (snd (snd (transfer_build_step e x j r)))) = dflags (xdev (snd (snd r)))"
    by (simp add: transfer_build_step_def Let_def upd_desc_def split: prod.split)
  with Cons show ?case by simp
qed simp

lemma transfer_init_dflags: "dflags (xdev (snd (transfer_init e req x s))) = dflags (xdev s)"
proof -
  have b: "dflags (xdev (snd (transfer_build e req x n s))) = dflags (xdev s)" for req n s
    using transfer_build_dflags [of e x "[0..<unat n]" "(req, res_bus (get_xfer s x), s)"]
    by (auto simp: transfer_build_def split: prod.split)
  show ?thesis
    unfolding transfer_init_def Let_def by (simp add: split_beta b)
qed

lemma unat_sum_list:
  "sum_list (map (unat \<circ> f) xs) < 2 ^ 32 \<Longrightarrow> unat (sum_list (map f xs) :: u32) = sum_list (map (unat \<circ> f) xs)"
proof (induction xs)
  case (Cons a xs)
  then show ?case by (simp add: unat_word_ariths)
qed simp

definition bytes_left :: "xdma_request_cb \<Rightarrow> nat" where
  "bytes_left req = sum_list (map (unat \<circ> sd_len) (drop (unat (sw_desc_idx req)) (sdesc req)))"

definition submit_inv :: "env \<Rightarrow> eref \<Rightarrow> submit_st \<Rightarrow> bool" where
  "submit_inv E e = (\<lambda>(nents, done, sgt, req, s).
     prompt E (get_eng s e) \<and> memory_mapped (get_eng s e) \<and> queue_open s e
     \<and> transfer_list (get_eng s e) = [] \<and> \<not> running (get_eng s e)
     \<and> 0 \<le> desc_idx (get_eng s e) \<and> desc_idx (get_eng s e) < uint (desc_max (get_eng s e))
     \<and> length (sdesc req) = unat (sw_desc_cnt req) \<and> sw_desc_idx req \<le> sw_desc_cnt req
     \<and> nents = int (unat (sw_desc_cnt req) - unat (sw_desc_idx req)) \<and> bytes_left req < 2 ^ 32)"

lemma queue_open_keeps: "keeps s s' \<Longrightarrow> queue_open s e \<Longrightarrow> queue_open s' e"
  by (simp add: keeps_def queue_open_def xdma_device_flag_check_def)

lemma xfer_staticD:
  assumes "xfer_static t' = xfer_static t"
  shows "desc_num t' = desc_num t" "xlen t' = xlen t" "cyclic t' = cyclic t"
  using arg_cong [OF assms, of desc_num] arg_cong [OF assms, of xlen] arg_cong [OF assms, of cyclic]
  by (simp_all add: xfer_static_def)

lemma xfer_release_effect:
  fixes e x sgt s
  defines "s' \<equiv> snd (xfer_release e x sgt s)"
  shows "eng_static (get_eng s' e) = eng_static (get_eng s e)"
    and "transfer_list (get_eng s' e) = transfer_list (get_eng s e)"
    and "running (get_eng s' e) = running (get_eng s e)"
    and "queue_open s' e = queue_open s e"
    and "desc_used (get_eng s' e) = desc_used (get_eng s e) - desc_num (get_xfer s x)"
    and "\<forall>i. desc_virt (get_xfer s x) \<le> i \<and> i < desc_virt (get_xfer s x) + nat (desc_num (get_xfer s x)) \<longrightarrow>
           desc_mem (get_eng s' e) i = desc_zero"
  by (auto simp: s'_def xfer_release_def transfer_destroy_def Let_def sg_unmap_def eng_static_def
      queue_open_def xdma_desc_done_def)

text \<open>The state a round starts its wait in.\<close>

lemma xfer_prepare_effect:
  fixes e :: eref and x :: xref
  assumes "submit_inv E e (nents, done, sgt, req, s)" and "nents \<noteq> 0"
  defines "n \<equiv> init_count (get_eng s e) req"
  shows "\<exists>req' s'. xfer_prepare e x dma_mapped nents req s = (nents - int n, req', s')
    \<and> 0 < n \<and> unat (sw_desc_idx req) + n \<le> length (sdesc req)
    \<and> unat (sw_desc_idx req') = unat (sw_desc_idx req) + n
    \<and> sdesc req' = sdesc req \<and> sw_desc_cnt req' = sw_desc_cnt req
    \<and> desc_num (xfers s' x) = int n \<and> \<not> cyclic (xfers s' x)
    \<and> xlen (xfers s' x) = sum_list (map sd_len (take n (drop (unat (sw_desc_idx req)) (sdesc req))))
    \<and> int n \<le> uint (desc_max (get_eng s' e))
    \<and> prompt E (get_eng s' e) \<and> memory_mapped (get_eng s' e) \<and> queue_open s' e
    \<and> transfer_list (get_eng s' e) = [] \<and> \<not> running (get_eng s' e)
    \<and> 0 \<le> desc_idx (get_eng s' e) \<and> desc_idx (get_eng s' e) < uint (desc_max (get_eng s' e))"
proof -
  let ?g = "get_eng s e"
  have i: "init_ready ?g req"
    using assms(1,2) by (auto simp: submit_inv_def init_ready_def memory_mapped_def word_less_nat_alt)
  note cnt = init_ready_count [OF i, folded n_def]
  note eff = transfer_init_effect [OF i, where x = x, folded n_def]
  define req' where "req' = fst (transfer_init e req x s)"
  define s1 where "s1 = snd (transfer_init e req x s)"
  define s' where "s' = upd_xfer x (\<lambda>t. t\<lparr>xflags := (if dma_mapped then xflags t else XFER_FLAG_NEED_UNMAP),
      last_in_request := (nents - int n = 0)\<rparr>) s1"
  have t: "get_xfer s1 x = (transfer_start ?g)\<lparr>xlen := sum_list (map sd_len (take n (drop (unat (sw_desc_idx req))
      (sdesc req)))), desc_adjacent := int n, desc_cmpl_th := (if eop_flush ?g then 1 else int n), desc_num := int n\<rparr>"
    unfolding s1_def by (rule eff(3))
  have p: "xfer_prepare e x dma_mapped nents req s = (nents - int n, req', s')"
    by (simp add: xfer_prepare_def split_beta req'_def s1_def [symmetric] s'_def t)
  have le: "n \<le> unat (desc_max ?g)" using cnt(3) by simp
  have idx: "unat (sw_desc_idx req') = unat (sw_desc_idx req) + n"
  proof -
    have "unat (sw_desc_idx req) + n \<le> unat (sw_desc_cnt req)"
      using cnt(4) i by (simp add: init_ready_def)
    then have "unat (sw_desc_idx req) + n < 2 ^ 32"
      using unsigned_less [of "sw_desc_cnt req", where ?'a = nat] by simp
    then show ?thesis
      by (simp add: req'_def eff(1) unat_word_ariths unat_of_nat)
  qed
  have pos: "0 < uint (desc_max ?g)" using i by (simp add: init_ready_def)
  have xf: "xfers s' x = (get_xfer s1 x)\<lparr>xflags := (if dma_mapped then xflags (get_xfer s1 x) else XFER_FLAG_NEED_UNMAP),
      last_in_request := (nents - int n = 0)\<rparr>"
    by (simp add: s'_def get_xfer_def)
  have g: "get_eng s' e = get_eng s1 e" by (simp add: s'_def)
  note ge = eff(2) [folded s1_def]
  have fl: "queue_open s' e"
    using assms(1) by (simp add: submit_inv_def queue_open_def s'_def eff(2) xdma_device_flag_check_def
        s1_def transfer_init_dflags)
  have "prompt E (get_eng s' e)" "memory_mapped (get_eng s' e)"
    using assms(1) by (simp_all add: g ge submit_inv_def prompt_def memory_mapped_def c2h_st_def)
  moreover have "transfer_list (get_eng s' e) = []" "\<not> running (get_eng s' e)"
    using assms(1) by (simp_all add: g ge submit_inv_def)
  moreover have "int n \<le> uint (desc_max (get_eng s' e))"
    using le by (simp add: g ge) (metis of_nat_le_iff uint_nat)
  moreover have "0 \<le> desc_idx (get_eng s' e)" "desc_idx (get_eng s' e) < uint (desc_max (get_eng s' e))"
    using pos by (simp_all add: g ge)
  moreover have "desc_num (xfers s' x) = int n" "\<not> cyclic (xfers s' x)"
    "xlen (xfers s' x) = sum_list (map sd_len (take n (drop (unat (sw_desc_idx req)) (sdesc req))))"
    by (simp_all add: xf t transfer_start_def transfer_zero_def)
  moreover have "sdesc req' = sdesc req" "sw_desc_cnt req' = sw_desc_cnt req"
    by (simp_all add: req'_def eff(1))
  ultimately show ?thesis using p cnt(2,4) idx fl by blast
qed

lemma submit_round_progress:
  assumes "completion_callback E" and "submit_inv E e (nents, done, sgt, req, s)" and "nents \<noteq> 0"
  shows "\<exists>n sgt' req' s'. 0 < n \<and> int n \<le> nents
    \<and> submit_round E e x dma_mapped (nents, done, sgt, req, s) =
        Some (Inr (), nents - int n, done + int (bytes_left req) - int (bytes_left req'), sgt', req', s')
    \<and> submit_inv E e (nents - int n, done + int (bytes_left req) - int (bytes_left req'), sgt', req', s')"
proof -
  let ?n = "init_count (get_eng s e) req"
  from xfer_prepare_effect [OF assms(2,3), of x dma_mapped] obtain req' s1 where
    p: "xfer_prepare e x dma_mapped nents req s = (nents - int ?n, req', s1)"
    and n: "0 < ?n" "unat (sw_desc_idx req) + ?n \<le> length (sdesc req)"
    and r: "unat (sw_desc_idx req') = unat (sw_desc_idx req) + ?n" "sdesc req' = sdesc req"
      "sw_desc_cnt req' = sw_desc_cnt req"
    and x1: "desc_num (xfers s1 x) = int ?n" "\<not> cyclic (xfers s1 x)"
      "xlen (xfers s1 x) = sum_list (map sd_len (take ?n (drop (unat (sw_desc_idx req)) (sdesc req))))"
    and g1: "int ?n \<le> uint (desc_max (get_eng s1 e))" "prompt E (get_eng s1 e)"
      "memory_mapped (get_eng s1 e)" "queue_open s1 e" "transfer_list (get_eng s1 e) = []"
      "\<not> running (get_eng s1 e)" "0 \<le> desc_idx (get_eng s1 e)"
      "desc_idx (get_eng s1 e) < uint (desc_max (get_eng s1 e))" by blast
  define s2 where "s2 = snd (transfer_queue E (Some e) (Some x) s1)"
  have dn: "desc_num (get_xfer s1 x) \<noteq> 0" using x1(1) n(1) by (simp add: get_xfer_def)
  note q = transfer_queue_effect [OF g1(4) dn, where E = E, folded s2_def]
  note st2 = eng_staticD [OF q(5) [of e]]
  have x2: "xfers s2 x = (xfers s1 x)\<lparr>xstate := TRANSFER_STATE_SUBMITTED\<rparr>" by (simp add: q(4))
  obtain s3 where s3: "xfer_wait E e x s2 = Some s3" "xstate (xfers s3 x) = TRANSFER_STATE_COMPLETED"
    "transfer_list (get_eng s3 e) = []" "\<not> running (get_eng s3 e)" "keeps s2 s3"
    using xfer_wait_completes [OF assms(1), of s2 e x] q(2,3,6) g1 x1 n(1) by (auto simp: x2 st2)
  have e3: "eng_static (get_eng s3 e) = eng_static (get_eng s2 e)"
    and x3: "xfer_static (xfers s3 x) = xfer_static (xfers s2 x)"
    using s3(5) by (simp_all add: keeps_def)
  note st3 = eng_staticD [OF e3] and xs3 = xfer_staticD [OF x3]
  define len where "len = xlen (xfers s1 x)"
  have v: "xfer_verdict E e x (nents - int ?n) done s3 = (Inr (), nents - int ?n, done + uint len, s3)"
    using s3(2) g1(3) by (simp add: xfer_verdict_def get_xfer_def st3 st2 memory_mapped_def xs3 x2 len_def)
  define sgt' s4 where "sgt' = fst (xfer_release e x sgt s3)" and "s4 = snd (xfer_release e x sgt s3)"
  note rel = xfer_release_effect [where e = e and x = x and sgt = sgt and s = s3, folded s4_def]
  note st4 = eng_staticD [OF rel(1)]
  have left: "bytes_left req = unat len + bytes_left req'"
  proof -
    let ?ds = "drop (unat (sw_desc_idx req)) (sdesc req)"
    have split: "bytes_left req = sum_list (map (unat \<circ> sd_len) (take ?n ?ds)) + bytes_left req'"
    proof -
      have "drop (unat (sw_desc_idx req')) (sdesc req') = drop ?n ?ds" by (simp add: r add.commute)
      moreover have "map (unat \<circ> sd_len) ?ds =
          map (unat \<circ> sd_len) (take ?n ?ds) @ map (unat \<circ> sd_len) (drop ?n ?ds)"
        unfolding map_append [symmetric] append_take_drop_id ..
      ultimately show ?thesis unfolding bytes_left_def by simp
    qed
    moreover have "bytes_left req < 2 ^ 32" using assms(2) by (simp add: submit_inv_def)
    ultimately have "unat len = sum_list (map (unat \<circ> sd_len) (take ?n ?ds))"
      unfolding len_def x1(3) by (intro unat_sum_list) simp
    with split show ?thesis by simp
  qed
  have "uint len = int (unat len)" by simp
  with left have done': "done + uint len = done + int (bytes_left req) - int (bytes_left req')"
    by linarith
  have "submit_round E e x dma_mapped (nents, done, sgt, req, s) =
      Some (Inr (), nents - int ?n, done + uint len, sgt', req', s4)"
    using q(1) by (simp add: submit_round_def p case_res_Inr s2_def [symmetric] s3(1) v Let_def
        split_beta sgt'_def s4_def)
  moreover have ne: "nents = int (length (sdesc req) - unat (sw_desc_idx req))"
    using assms(2) by (simp add: submit_inv_def)
  moreover have "submit_inv E e (nents - int ?n, done + uint len, sgt', req', s4)"
    using assms(2) g1 n r left queue_open_keeps [OF s3(5) q(7)] s3(3,4) ne
    by (auto simp: submit_inv_def rel st4 st3 st2 word_le_nat_alt)
  moreover have "int ?n \<le> nents" using n(2) ne by linarith
  ultimately show ?thesis using n(1) unfolding done' by blast
qed

lemma submit_loop_returns:
  assumes "completion_callback E" and "submit_inv E e (nents, acc, sgt, req, s)"
  shows "\<exists>sgt' req' s'. submit_loop E e x dma_mapped (nents, acc, sgt, req, s) =
           Some (Inr (), 0, acc + int (bytes_left req), sgt', req', s')
         \<and> transfer_list (get_eng s' e) = [] \<and> \<not> running (get_eng s' e)"
  using assms(2)
proof (induction "nat nents" arbitrary: nents acc sgt req s rule: less_induct)
  case less
  have ne: "nents = int (length (sdesc req) - unat (sw_desc_idx req))"
    using less.prems by (simp add: submit_inv_def)
  show ?case
  proof (cases "nents = 0")
    case True
    then have "bytes_left req = 0" using ne by (simp add: bytes_left_def)
    with True less.prems show ?thesis
      by (subst submit_loop.simps) (auto simp: submit_inv_def)
  next
    case False
    from submit_round_progress [OF assms(1) less.prems False, of x dma_mapped] obtain n sgt' req' s' where
      n: "0 < n" "int n \<le> nents" and
      r: "submit_round E e x dma_mapped (nents, acc, sgt, req, s) =
        Some (Inr (), nents - int n, acc + int (bytes_left req) - int (bytes_left req'), sgt', req', s')"
      and i: "submit_inv E e (nents - int n, acc + int (bytes_left req) - int (bytes_left req'), sgt', req', s')"
      by blast
    have "nat (nents - int n) < nat nents" using n by linarith
    from less.hyps [OF this i] False r show ?thesis by (subst submit_loop.simps) auto
  qed
qed

lemma xdma_init_request_effect:
  assumes "0 < desc_blen_max E" and "sg_fits (desc_blen_max E) sg"
    and "kzalloc E (trace s) \<or> vmalloc E (trace s)"
  shows "\<exists>req nr. xdma_init_request E sg ep s = Some (Some req, emit (KAlloc nr) s)
     \<and> length (sdesc req) = chunk_count (desc_blen_max E) sg \<and> sw_desc_cnt req = of_nat (length (sdesc req))
     \<and> sw_desc_idx req = 0 \<and> sum_list (map (unat \<circ> sd_len) (sdesc req)) = sum_list (map (unat \<circ> snd) sg)"
proof -
  let ?b = "desc_blen_max E"
  obtain x where x: "sg_extra ?b sg 0 = Some x" "int (chunk_count ?b sg) \<le> int (length sg) + x"
    using sg_extra_Some [OF assms(1,2), of 0] by (auto simp: chunk_count_def)
  obtain ds where ds: "fill_sdesc ?b sg (0, []) = Some (sum_list (map snd sg), ds)"
    "map (unat \<circ> sd_len) ds = concat (map (chunks (unat ?b) \<circ> unat \<circ> snd) sg)"
    using fill_sdesc_Some [OF assms(1), of sg 0 "[]"] by auto
  have len: "length ds = chunk_count ?b sg"
    using arg_cong [OF ds(2), of length] by (simp add: chunk_count_def)
  have b: "0 < unat ?b" using assms(1) by (simp add: word_less_nat_alt)
  have "sum_list (concat (map (chunks (unat ?b) \<circ> unat \<circ> snd) sg)) = sum_list (map (unat \<circ> snd) sg)"
    by (induction sg) (simp_all add: chunks_sum [OF b])
  then have sum: "sum_list (map (unat \<circ> sd_len) ds) = sum_list (map (unat \<circ> snd) sg)"
    by (simp only: ds(2))
  have "xdma_request_alloc E (int (length sg) + x) s =
      (Some request_zero, emit (KAlloc (nat (int (length sg) + x))) s)"
    using assms(3) by (auto simp: xdma_request_alloc_def)
  then have "xdma_init_request E sg ep s = Some (Some (request_zero\<lparr>ep_addr := ep,
      total_len := sum_list (map snd sg), sdesc := ds, sw_desc_cnt := of_nat (length ds)\<rparr>),
      emit (KAlloc (nat (int (length sg) + x))) s)"
    using x len ds(1) by (simp add: xdma_init_request_def request_zero_def)
  with len sum show ?thesis by (auto simp: request_zero_def)
qed

text \<open>
  An engine ready for a synchronous transfer: idle with an empty queue, ring position inside the
  pool, device online.
\<close>

definition engine_ready :: "env \<Rightarrow> eref \<Rightarrow> world \<Rightarrow> bool" where
  "engine_ready E e s \<longleftrightarrow> prompt E (get_eng s e) \<and> memory_mapped (get_eng s e) \<and> queue_open s e
     \<and> transfer_list (get_eng s e) = [] \<and> \<not> running (get_eng s e)
     \<and> 0 \<le> desc_idx (get_eng s e) \<and> desc_idx (get_eng s e) < uint (desc_max (get_eng s e))"

definition sg_bytes_total :: "sg_table \<Rightarrow> nat" where
  "sg_bytes_total sgt = sum_list (map (unat \<circ> snd) (mapped sgt))"

lemma submit_map_ready:
  assumes "submit_map E sgt dma_mapped write s = (Inr (), sgt1, s1)" and "engine_ready E e s"
  shows "engine_ready E e s1" and "sg_nents sgt1 \<noteq> 0"
  using assms by (auto simp: submit_map_def sg_map_def kcall_def engine_ready_def queue_open_def Let_def split: if_splits)

lemma xdma_xfer_submit_returns:
  assumes "completion_callback E" and "submit_check hndl ch write s = Inr e" and "engine_ready E e s"
    and "submit_map E sgt dma_mapped write s = (Inr (), sgt1, s1)"
    and "0 < desc_blen_max E" and "sg_fits (desc_blen_max E) (mapped sgt1)"
    and "chunk_count (desc_blen_max E) (mapped sgt1) < 2 ^ 32"
    and "kzalloc E (trace s1) \<or> vmalloc E (trace s1)" and "0 < sg_bytes_total sgt1" and "sg_bytes_total sgt1 < 2 ^ 32"
  shows "\<exists>sgt' s'. xdma_xfer_submit E rid hndl ch write ep sgt dma_mapped s =
           Some (Inr (int (sg_bytes_total sgt1)), sgt', s')
         \<and> transfer_list (get_eng s' e) = [] \<and> \<not> running (get_eng s' e)"
proof -
  obtain req nr where req: "xdma_init_request E (mapped sgt1) ep s1 = Some (Some req, emit (KAlloc nr) s1)"
    "length (sdesc req) = chunk_count (desc_blen_max E) (mapped sgt1)"
    "sw_desc_cnt req = of_nat (length (sdesc req))" "sw_desc_idx req = 0"
    "sum_list (map (unat \<circ> sd_len) (sdesc req)) = sg_bytes_total sgt1"
    using xdma_init_request_effect [OF assms(5,6), of s1 ep] assms(8) by (auto simp: sg_bytes_total_def)
  let ?s = "emit (KAlloc nr) s1"
  have cnt: "unat (sw_desc_cnt req) = length (sdesc req)"
    unfolding req(3) using assms(7) req(2) by (simp add: unat_of_nat)
  have cnt_int: "uint (sw_desc_cnt req) = int (length (sdesc req))"
    unfolding cnt [symmetric] by simp
  have left: "bytes_left req = sg_bytes_total sgt1" by (simp add: bytes_left_def req(4,5))
  have "submit_inv E e (uint (sw_desc_cnt req), 0, sgt1, req, ?s)"
    using submit_map_ready(1) [OF assms(4,3)] assms(10) cnt cnt_int req(4) left
    by (simp add: submit_inv_def engine_ready_def queue_open_def)
  from submit_loop_returns [OF assms(1) this, of "(rid, 0)" dma_mapped] obtain sgt' req' s' where
    r: "submit_loop E e (rid, 0) dma_mapped (uint (sw_desc_cnt req), 0, sgt1, req, ?s) =
       Some (Inr (), 0, int (sg_bytes_total sgt1), sgt', req', s')"
    "transfer_list (get_eng s' e) = []" "\<not> running (get_eng s' e)" by (auto simp: left)
  obtain sgt2 s2 where u1: "unmap_sgl dma_mapped write sgt' s' = (sgt2, s2)" by fastforce
  have "get_eng (snd (unmap_sgl dma_mapped write sgt' s')) e = get_eng s' e"
    by (simp add: unmap_sgl_def sg_unmap_def)
  then have u: "get_eng s2 e = get_eng s' e" unfolding u1 by simp
  show ?thesis
    using assms(2,4,9) req(1) r u u1 by (simp add: xdma_xfer_submit_def xfer_result_def xdma_request_free_def)
qed


definition prompt_env :: env where
  "prompt_env = env0\<lparr>ioread32 := (\<lambda>_ a. if a = 0x48 then 0xFFFF else 0)\<rparr>"

definition idle_world :: world where
  "idle_world = upd_eng (H2C 0) (\<lambda>g. g\<lparr>emagic := MAGIC_ENGINE, edir := DMA_TO_DEVICE, desc_max := 2,
     desc_idx := 1\<rparr>) (world0\<lparr>xdev_list := [(1, 1, 0)]\<rparr>)"

definition idle_sgt :: sg_table where
  "idle_sgt = \<lparr>sgl_ents = [(0x1000, 16), (0x2000, 32), (0x3000, 8), (0x4000, 4)], orig_nents = 4, sg_nents = 4\<rparr>"

lemma idle_ready: "engine_ready prompt_env (H2C 0) idle_world"
  by (simp add: engine_ready_def prompt_def memory_mapped_def queue_open_def idle_world_def prompt_env_def
      env0_def engine_zero_def xdma_device_flag_check_def c2h_st_def ereg_offsets xdev0_def)


end
