(* ===== verification/Device.thy ===== *)
theory Device
  imports Engine_Setup Submit
begin

text \<open>
  The life of a device (\<open>libxdma.c\<close>): the global device list, opening and closing, taking a device
  off line and bringing it back, and the registration of user interrupt handlers.
\<close>

section \<open>The device list\<close>

definition xdev_list_add :: "env \<Rightarrow> int list \<Rightarrow> world \<Rightarrow> unit res \<times> world" where
  "xdev_list_add E cpus s =
     (let (rv, s) = (if xdev_list s = []
                     then let s = upd_xdev (\<lambda>d. d\<lparr>idx := 0\<rparr>) s
                          in if poll_mode E \<noteq> 0
                             then xdma_threads_create E cpus (h2c_channel_max (xdev s) + c2h_channel_max (xdev s)) s
                             else (Inr (), s)
                     else (Inr (), upd_xdev (\<lambda>d. d\<lparr>idx := snd (snd (last (xdev_list s))) + 1\<rparr>) s))
      in case rv of
           Inl r \<Rightarrow> (Inl r, s)
         | Inr _ \<Rightarrow> (Inr (), s\<lparr>xdev_list := xdev_list s @ [(pdev (xdev s), self (xdev s), idx (xdev s))]\<rparr>))"

definition xdev_list_remove :: "env \<Rightarrow> world \<Rightarrow> world" where
  "xdev_list_remove E s =
     (let s = s\<lparr>xdev_list := filter (\<lambda>d. fst (snd d) \<noteq> self (xdev s)) (xdev_list s)\<rparr>
      in if poll_mode E \<noteq> 0 \<and> xdev_list s = [] then xdma_threads_destroy E s else s)"

section \<open>Opening\<close>

text \<open>
  A new device structure at address \<open>hndl\<close>; the kernel zeroes it.  \<open>INIT_LIST_HEAD\<close> makes the transfer
  lists empty, as they are in a zeroed engine.
\<close>

definition dev_zero :: xdma_dev where
  "dev_zero = \<lparr>self = 0, xmagic = 0, pdev = 0, idx = 0, dflags = 0, bar = (\<lambda>_. 0), user_bar_idx = 0,
     config_bar_idx = 0, bypass_bar_idx = 0, regions_in_use = False, got_regions = False,
     user_max = 0, c2h_channel_max = 0, h2c_channel_max = 0, irq_count = 0, irq_line = 0,
     msi_enabled = False, msix_enabled = False,
     user_irq = (\<lambda>i. \<lparr>user_idx = 0, events_irq = 0, handler = None, irq_dev = 0\<rparr>),
     mask_irq_user = 0, engines_num = 0, mask_irq_h2c = 0, mask_irq_c2h = 0,
     engine_h2c = (\<lambda>_. engine_zero), engine_c2h = (\<lambda>_. engine_zero)\<rparr>"

definition alloc_dev_instance :: "env \<Rightarrow> nat \<Rightarrow> nat \<Rightarrow> world \<Rightarrow> world option" where
  "alloc_dev_instance E p hndl s =
     (if p = 0 \<or> \<not> kzalloc E (trace s) then None
      else Some (emit (KAlloc 1) s\<lparr>xdev := dev_zero\<lparr>self := hndl, xmagic := MAGIC_DEVICE, config_bar_idx := - 1,
             user_bar_idx := - 1, bypass_bar_idx := - 1, irq_line := - 1, pdev := p,
             user_irq := (\<lambda>i. if i < 16 then (user_irq dev_zero i)\<lparr>handler := None, user_idx := i\<rparr>
                               else user_irq dev_zero i)\<rparr>\<rparr>))"

definition request_regions :: "env \<Rightarrow> nat \<Rightarrow> world \<Rightarrow> unit res \<times> world" where
  "request_regions E p s =
     (if p = 0 then (Inl EINVAL, s)
      else let (rv, s) = kcall E ''pci_request_regions'' [int p] s
           in if rv \<noteq> 0 then (Inl (kerr rv), upd_xdev (\<lambda>d. d\<lparr>regions_in_use := True\<rparr>) s)
              else (Inr (), upd_xdev (\<lambda>d. d\<lparr>got_regions := True\<rparr>) s))"

definition set_dma_mask :: "env \<Rightarrow> nat \<Rightarrow> world \<Rightarrow> unit res \<times> world" where
  "set_dma_mask E p s =
     (if p = 0 then (Inl EINVAL, s)
      else let (r, s) = kcall E ''dma_set_mask_and_coherent'' [int p, 64] s
           in if r = 0 then (Inr (), s)
              else let (r, s) = kcall E ''dma_set_mask_and_coherent'' [int p, 32] s
                   in if r = 0 then (Inr (), s) else (Inl EINVAL, s))"

definition pci_enable_capability :: "env \<Rightarrow> nat \<Rightarrow> int \<Rightarrow> world \<Rightarrow> world" where
  "pci_enable_capability E p cap s = snd (kcall E ''pcie_capability_set_word'' [int p, cap] s)"

definition clamp_max :: "nat \<Rightarrow> nat \<Rightarrow> nat" where
  "clamp_max n mx = (if n = 0 \<or> mx < n then mx else n)"

text \<open>The error labels of \<open>xdma_device_open\<close>, each falling through to the next.\<close>

definition free_xdev :: "world \<Rightarrow> world" where
  "free_xdev s = emit (KFree 1) s"

definition err_enable :: "env \<Rightarrow> world \<Rightarrow> world" where
  "err_enable E s = free_xdev (xdev_list_remove E s)"

definition err_regions :: "env \<Rightarrow> nat \<Rightarrow> world \<Rightarrow> world" where
  "err_regions E p s =
     err_enable E (if regions_in_use (xdev s) then s else emit (Kernel ''pci_disable_device'' [int p] 0) s)"

definition err_map :: "env \<Rightarrow> nat \<Rightarrow> world \<Rightarrow> world" where
  "err_map E p s =
     err_regions E p (if got_regions (xdev s) then emit (Kernel ''pci_release_regions'' [int p] 0) s else s)"

definition err_mask :: "env \<Rightarrow> nat \<Rightarrow> world \<Rightarrow> world" where
  "err_mask E p s = err_map E p (unmap_bars s)"

definition err_engines :: "env \<Rightarrow> nat \<Rightarrow> world \<Rightarrow> world" where
  "err_engines E p s = err_mask E p (remove_engines E s)"

definition err_msix :: "env \<Rightarrow> nat \<Rightarrow> world \<Rightarrow> world" where
  "err_msix E p s = err_engines E p (disable_msi_msix p s)"

definition interrupts_off :: "env \<Rightarrow> world \<Rightarrow> world" where
  "interrupts_off E s =
     (let s = channel_interrupts_disable (NOT 0) s; s = user_interrupts_disable (NOT 0) s
      in snd (read_interrupts E s))"

text \<open>The last part of opening, from the engines on, and the part before it.\<close>

definition open_engines :: "env \<Rightarrow> nat \<Rightarrow> world \<Rightarrow> nat option \<times> world" where
  "open_engines E p s =
     (let s = probe_engines E (interrupts_off E (check_nonzero_interrupt_status E s))
      in case enable_msi_msix E p s of
           (Inl rv, s) \<Rightarrow> (None, err_engines E p s)
         | (Inr _, s) \<Rightarrow>
             (case irq_setup E s of
                (Inl rv, s) \<Rightarrow> (None, err_msix E p s)
              | (Inr _, s) \<Rightarrow>
                  let s = (if poll_mode E = 0 then channel_interrupts_enable (NOT 0) s else s);
                      s = snd (read_interrupts E s)
                  in (Some (self (xdev s)), xdma_device_flag_clear XDEV_FLAG_OFFLINE s)))"

definition open_pci :: "env \<Rightarrow> nat \<Rightarrow> world \<Rightarrow> nat option \<times> world" where
  "open_pci E p s =
     (let (rv, s) = kcall E ''pci_enable_device'' [int p] s
      in if rv \<noteq> 0 then (None, err_enable E s)
         else let s = pci_check_intr_pend E s;
                  s = pci_enable_capability E p 0x10 s;
                  s = pci_enable_capability E p 0x100 s;
                  s = snd (kcall E ''pcie_set_readrq'' [int p, 512] s);
                  s = snd (kcall E ''pci_set_master'' [int p] s)
              in case request_regions E p s of
                   (Inl rv, s) \<Rightarrow> (None, err_regions E p s)
                 | (Inr _, s) \<Rightarrow>
                     (case map_bars E s of
                        (Inl rv, s) \<Rightarrow> (None, err_map E p s)
                      | (Inr _, s) \<Rightarrow>
                          (case set_dma_mask E p s of
                             (Inl rv, s) \<Rightarrow> (None, err_mask E p s)
                           | (Inr _, s) \<Rightarrow> open_engines E p s)))"

definition xdma_device_open ::
  "env \<Rightarrow> int list \<Rightarrow> nat \<Rightarrow> nat \<Rightarrow> nat \<Rightarrow> nat \<Rightarrow> nat \<Rightarrow> world \<Rightarrow> nat option \<times> world" where
  "xdma_device_open E cpus p hndl um hm cm s =
     (case alloc_dev_instance E p hndl s of
        None \<Rightarrow> (None, s)
      | Some s \<Rightarrow>
          let s = xdma_device_flag_set XDEV_FLAG_OFFLINE s;
              s = upd_xdev (\<lambda>d. d\<lparr>user_max := clamp_max um MAX_USER_IRQ,
                    h2c_channel_max := clamp_max hm XDMA_CHANNEL_NUM_MAX,
                    c2h_channel_max := clamp_max cm XDMA_CHANNEL_NUM_MAX\<rparr>) s
          in case xdev_list_add E cpus s of
               (Inl rv, s) \<Rightarrow> (None, free_xdev s)
             | (Inr _, s) \<Rightarrow> open_pci E p s)"

section \<open>Closing, off line and on line\<close>

definition xdma_device_close :: "env \<Rightarrow> nat \<Rightarrow> nat \<Rightarrow> world \<Rightarrow> world" where
  "xdma_device_close E p hndl s =
     (if hndl = 0 \<or> debug_check_dev_hndl p hndl s \<noteq> Inr () then s
      else let s = interrupts_off E s;
               s = irq_teardown E s;
               s = disable_msi_msix p s;
               s = remove_engines E s;
               s = unmap_bars s;
               s = (if got_regions (xdev s) then emit (Kernel ''pci_release_regions'' [int p] 0) s else s);
               s = (if regions_in_use (xdev s) then s else emit (Kernel ''pci_disable_device'' [int p] 0) s)
           in free_xdev (xdev_list_remove E s))"

definition stop_for_offline :: "env \<Rightarrow> eref \<Rightarrow> world \<Rightarrow> world" where
  "stop_for_offline E e s =
     (if emagic (get_eng s e) = MAGIC_ENGINE
      then snd (xdma_engine_stop E (Some e)
             (upd_eng e (\<lambda>g. g\<lparr>shutdown := shutdown g OR ENGINE_SHUTDOWN_REQUEST\<rparr>) s))
      else s)"

definition xdma_device_offline :: "env \<Rightarrow> nat \<Rightarrow> nat \<Rightarrow> world \<Rightarrow> world" where
  "xdma_device_offline E p hndl s =
     (if hndl = 0 \<or> debug_check_dev_hndl p hndl s \<noteq> Inr () then s
      else let s = xdma_device_flag_set XDEV_FLAG_OFFLINE s;
               s = fold (stop_for_offline E) (h2c_engines s) s;
               s = fold (stop_for_offline E) (c2h_engines s) s
           in irq_teardown E (interrupts_off E s))"

definition reinit_for_online :: "env \<Rightarrow> eref \<Rightarrow> world \<Rightarrow> world" where
  "reinit_for_online E e s =
     (if emagic (get_eng s e) = MAGIC_ENGINE
      then upd_eng e (\<lambda>g. g\<lparr>shutdown := shutdown g AND NOT ENGINE_SHUTDOWN_REQUEST\<rparr>) (engine_init_regs E e s)
      else s)"

definition xdma_device_online :: "env \<Rightarrow> nat \<Rightarrow> nat \<Rightarrow> world \<Rightarrow> world" where
  "xdma_device_online E p hndl s =
     (if hndl = 0 \<or> debug_check_dev_hndl p hndl s \<noteq> Inr () then s
      else let s = fold (reinit_for_online E) (h2c_engines s) s;
               s = fold (reinit_for_online E) (c2h_engines s) s;
               s = (if poll_mode E = 0
                    then let s = snd (irq_setup E s);
                             s = channel_interrupts_enable (NOT 0) s;
                             s = user_interrupts_enable (mask_irq_user (xdev s)) s
                         in snd (read_interrupts E s)
                    else s)
           in xdma_device_flag_clear XDEV_FLAG_OFFLINE s)"

text \<open>Never implemented: every call is refused.\<close>

definition xdma_device_restart :: "nat \<Rightarrow> nat \<Rightarrow> world \<Rightarrow> unit res" where
  "xdma_device_restart p hndl s =
     (if hndl = 0 then Inl EINVAL
      else case debug_check_dev_hndl p hndl s of Inl _ \<Rightarrow> Inl EINVAL | Inr _ \<Rightarrow> Inl EINVAL)"

section \<open>User interrupts\<close>

primrec isr_register_loop :: "nat option \<Rightarrow> nat \<Rightarrow> nat \<Rightarrow> nat \<Rightarrow> u32 \<Rightarrow> world \<Rightarrow> world" where
  "isr_register_loop h dev i 0 m s = s"
| "isr_register_loop h dev i (Suc n) m s =
     (if m = 0 then s
      else if push_bit i 1 AND m = 0 then isr_register_loop h dev (i + 1) n m s
      else isr_register_loop h dev (i + 1) n (m AND NOT (push_bit i 1))
             (upd_xdev (\<lambda>d. d\<lparr>user_irq := (user_irq d)(i := (user_irq d i)\<lparr>handler := h, irq_dev := dev\<rparr>)\<rparr>) s))"

definition check_dev :: "nat \<Rightarrow> world \<Rightarrow> bool" where
  "check_dev hndl s \<longleftrightarrow> hndl \<noteq> 0 \<and> debug_check_dev_hndl (pdev (xdev s)) hndl s = Inr ()"

definition xdma_user_isr_register :: "nat \<Rightarrow> u32 \<Rightarrow> nat option \<Rightarrow> nat \<Rightarrow> world \<Rightarrow> unit res \<times> world" where
  "xdma_user_isr_register hndl m h dev s =
     (if \<not> check_dev hndl s then (Inl EINVAL, s)
      else (Inr (), isr_register_loop h dev 0 (user_max (xdev s)) m s))"

definition xdma_user_isr_enable :: "env \<Rightarrow> nat \<Rightarrow> u32 \<Rightarrow> world \<Rightarrow> unit res \<times> world" where
  "xdma_user_isr_enable E hndl m s =
     (if \<not> check_dev hndl s then (Inl EINVAL, s)
      else let s = upd_xdev (\<lambda>d. d\<lparr>mask_irq_user := mask_irq_user d OR m\<rparr>) s;
               s = user_interrupts_enable m s
           in (Inr (), snd (read_interrupts E s)))"

definition xdma_user_isr_disable :: "env \<Rightarrow> nat \<Rightarrow> u32 \<Rightarrow> world \<Rightarrow> unit res \<times> world" where
  "xdma_user_isr_disable E hndl m s =
     (if \<not> check_dev hndl s then (Inl EINVAL, s)
      else let s = upd_xdev (\<lambda>d. d\<lparr>mask_irq_user := mask_irq_user d AND NOT m\<rparr>) s;
               s = user_interrupts_disable m s
           in (Inr (), snd (read_interrupts E s)))"


section \<open>What the parts leave alone\<close>

text \<open>
  Two worlds with the same device identity, device list and channel counts, whose engines differ in
  nothing that identifies them.  Everything after probing keeps this.
\<close>

definition settled :: "world \<Rightarrow> world \<Rightarrow> bool" where
  "settled s s' \<longleftrightarrow> (\<forall>e. eng_ident (get_eng s' e) = eng_ident (get_eng s e)) \<and> xdev_list s' = xdev_list s
     \<and> self (xdev s') = self (xdev s) \<and> pdev (xdev s') = pdev (xdev s)
     \<and> h2c_channel_max (xdev s') = h2c_channel_max (xdev s) \<and> c2h_channel_max (xdev s') = c2h_channel_max (xdev s)
     \<and> user_max (xdev s') = user_max (xdev s)"

lemma settled_refl [simp]: "settled s s"
  by (simp add: settled_def)

lemma settled_trans: "settled s s1 \<Longrightarrow> settled s1 s2 \<Longrightarrow> settled s s2"
  by (simp add: settled_def)

lemma settled_step [simp]:
  "settled s (emit ev s1) = settled s s1" "settled s (write_register v a s1) = settled s s1"
  "settled s (snd (kcall E f as s1)) = settled s s1" "settled s (free_irq line c s1) = settled s s1"
  "settled s (snd (read_register E a s1)) = settled s s1"
  by (simp_all add: settled_def free_irq_def write_register_def)

lemma settled_upd_eng [simp]: "(\<And>g. eng_ident (f g) = eng_ident g) \<Longrightarrow> settled s (upd_eng e f s1) = settled s s1"
  by (auto simp: settled_def)

lemma settled_upd_xdev [simp]:
  assumes "\<And>d. engine_h2c (f d) = engine_h2c d" "\<And>d. engine_c2h (f d) = engine_c2h d" "\<And>d. self (f d) = self d"
    "\<And>d. pdev (f d) = pdev d" "\<And>d. h2c_channel_max (f d) = h2c_channel_max d"
    "\<And>d. c2h_channel_max (f d) = c2h_channel_max d" "\<And>d. user_max (f d) = user_max d"
  shows "settled s (upd_xdev f s1) = settled s s1"
  using assms by (simp add: settled_def)

lemma settled_fold:
  "(\<And>x s1. x \<in> set xs \<Longrightarrow> settled s s1 \<Longrightarrow> settled s (f x s1)) \<Longrightarrow> settled s s1 \<Longrightarrow> settled s (fold f xs s1)"
  by (induction xs arbitrary: s1) auto

lemma settled_int_ctrl [simp]:
  "settled s (channel_interrupts_enable m s1) = settled s s1" "settled s (user_interrupts_enable m s1) = settled s s1"
  "settled s (channel_interrupts_disable m s1) = settled s s1" "settled s (user_interrupts_disable m s1) = settled s s1"
  "settled s (snd (read_interrupts E s1)) = settled s s1"
  by (simp_all add: int_enable_defs read_interrupts_def split_beta Let_def)

lemma settled_prog: "settled s (prog_vectors base clear i mx j s1) = settled s s1"
proof (induction base clear i mx j s1 rule: prog_vectors.induct)
  case (1 base clear i mx j s1)
  then show ?case by (subst prog_vectors.simps) simp
qed

lemma settled_enable_msi: "settled s (snd (enable_msi_msix E p s1)) = settled s s1"
  by (simp add: enable_msi_msix_def split_beta Let_def)

lemma eng_ident_irq_line [simp]: "eng_ident (g\<lparr>msix_irq_line := v\<rparr>) = eng_ident g"
  by (simp add: eng_ident_def)

lemma settled_request_engine: "settled s s1 \<Longrightarrow> settled s (snd (request_engine_irqs E es s1))"
proof (induction es arbitrary: s1)
  case (Cons p es)
  then show ?case by (cases p) (simp add: request_engine_irqs.simps split_beta Let_def)
qed simp

lemma settled_free_user: "settled s (fold (free_user_irq E j) is s1) = settled s s1"
  by (induction "is" arbitrary: s1) (simp_all add: free_user_irq_def split_beta)

lemma settled_request_user: "settled s (snd (snd (request_user_irqs E j i n s1))) = settled s s1"
  by (induction n arbitrary: i s1) (simp_all add: split_beta Let_def)

lemma settled_user_setup: "settled s (snd (irq_msix_user_setup E s1)) = settled s s1"
  by (simp add: irq_msix_user_setup_def split_beta Let_def settled_free_user settled_request_user split: sum.split)

lemma settled_legacy: "settled s (legacy_vectors val s1) = settled s s1"
  by (simp add: legacy_vectors_def Let_def)

lemma settled_dev_irq: "settled s (snd (request_dev_irq E fl s1)) = settled s s1"
  by (simp add: request_dev_irq_def split_beta Let_def)

lemma settled_keep_intx: "settled s (pci_keep_intx_enabled E s1) = settled s s1"
  by (simp add: pci_keep_intx_enabled_def split_beta Let_def)

lemma settled_irq_setup:
  assumes "settled s s1"
  shows "settled s (snd (irq_setup E s1))"
proof -
  let ?s = "pci_keep_intx_enabled E s1"
  have 0: "settled s ?s" using assms by (simp add: settled_keep_intx)
  have 1: "settled s (snd (irq_msix_channel_setup E ?s))"
    using 0 by (simp add: irq_msix_channel_setup_def settled_request_engine)
  have 2: "settled s (snd (irq_msix_user_setup E (snd (irq_msix_channel_setup E ?s))))"
    using 1 by (simp add: settled_user_setup)
  show ?thesis
    using 0 1 2
    by (auto simp: irq_setup_def Let_def irq_msi_setup_def irq_legacy_setup_def settled_dev_irq settled_legacy
        prog_irq_msix_user_def prog_irq_msix_channel_def settled_prog split_beta split: prod.split sum.split)
qed


lemma settled_engines:
  assumes "settled s s'"
  shows "h2c_engines s' = h2c_engines s" "c2h_engines s' = c2h_engines s" "own_bits s' es = own_bits s es"
    "emagic (get_eng s' e) = emagic (get_eng s e)" "edir (get_eng s' e) = edir (get_eng s e)"
    "xdev_list s' = xdev_list s" "self (xdev s') = self (xdev s)" "pdev (xdev s') = pdev (xdev s)"
    "h2c_channel_max (xdev s') = h2c_channel_max (xdev s)" "c2h_channel_max (xdev s') = c2h_channel_max (xdev s)"
    "user_max (xdev s') = user_max (xdev s)"
proof -
  have i: "eng_ident (get_eng s' e) = eng_ident (get_eng s e)" for e using assms by (simp add: settled_def)
  show "h2c_engines s' = h2c_engines s" "c2h_engines s' = c2h_engines s"
    "xdev_list s' = xdev_list s" "self (xdev s') = self (xdev s)" "pdev (xdev s') = pdev (xdev s)"
    "h2c_channel_max (xdev s') = h2c_channel_max (xdev s)" "c2h_channel_max (xdev s') = c2h_channel_max (xdev s)"
    "user_max (xdev s') = user_max (xdev s)"
    using assms by (simp_all add: settled_def h2c_engines_def c2h_engines_def)
  show "own_bits s' es = own_bits s es" by (simp add: own_bits_def eng_ident_eq [OF i])
  show "emagic (get_eng s' e) = emagic (get_eng s e)" "edir (get_eng s' e) = edir (get_eng s e)"
    using eng_ident_eq [OF i] by simp_all
qed

section \<open>Before the engines are probed\<close>

text \<open>Up to probing nothing touches the engines of the new device; only list and identity matter.\<close>

definition blank :: "world \<Rightarrow> world \<Rightarrow> bool" where
  "blank s s' \<longleftrightarrow> settled s s' \<and> engines_num (xdev s') = engines_num (xdev s)"

lemma blank_refl [simp]: "blank s s"
  by (simp add: blank_def)

lemma blank_step [simp]:
  "blank s (emit ev s1) = blank s s1" "blank s (write_register v a s1) = blank s s1"
  "blank s (snd (kcall E f as s1)) = blank s s1"
  by (simp_all add: blank_def)

lemma blank_upd_xdev [simp]:
  assumes "\<And>d. engine_h2c (f d) = engine_h2c d" "\<And>d. engine_c2h (f d) = engine_c2h d" "\<And>d. self (f d) = self d"
    "\<And>d. pdev (f d) = pdev d" "\<And>d. h2c_channel_max (f d) = h2c_channel_max d"
    "\<And>d. c2h_channel_max (f d) = c2h_channel_max d" "\<And>d. user_max (f d) = user_max d"
    "\<And>d. engines_num (f d) = engines_num d"
  shows "blank s (upd_xdev f s1) = blank s s1"
  using assms by (simp add: blank_def)

lemma blank_unmap: "blank s (unmap_bars s1) = blank s s1"
proof -
  have "blank s (fold unmap_bar is s1) = blank s s1" for "is"
    by (induction "is" arbitrary: s1) (simp_all add: unmap_bar_def set_bar_def)
  then show ?thesis by (simp add: unmap_bars_def)
qed

lemma blank_single: "blank s (snd (map_single_bar E i s1)) = blank s s1"
  by (simp add: map_single_bar_def Let_def split_beta set_bar_def)

lemma blank_config: "blank s (snd (is_config_bar E i s1)) = blank s s1"
  by (simp add: is_config_bar_def split_beta Let_def)

lemma blank_map_loop: "blank s (snd (map_loop E is ids pos s1)) = blank s s1"
proof (induction "is" arbitrary: ids pos s1)
  case (Cons i "is")
  show ?case
    by (simp add: split_beta Let_def Cons.IH blank_single blank_config)
qed simp

lemma blank_identify: "blank s (identify_bars ids pos s1) = blank s s1"
  by (simp add: identify_bars_def Let_def)

lemma blank_map_bars: "blank s (snd (map_bars E s1)) = blank s s1"
proof -
  obtain r s2 where r: "map_loop E [0..<XDMA_BAR_NUM] [] 0 s1 = (r, s2)" by fastforce
  have "blank s s2 = blank s s1" using blank_map_loop [of s E "[0..<XDMA_BAR_NUM]" "[]" 0 s1] by (simp add: r)
  then show ?thesis
    by (auto simp: map_bars_def r blank_unmap blank_identify split: sum.split if_splits)
qed

lemma blank_small [simp]:
  "blank s (pci_check_intr_pend E s1) = blank s s1" "blank s (pci_enable_capability E p c s1) = blank s s1"
  "blank s (snd (request_regions E p s1)) = blank s s1" "blank s (snd (set_dma_mask E p s1)) = blank s s1"
  "blank s (interrupts_off E s1) = blank s s1" "blank s (check_nonzero_interrupt_status E s1) = blank s s1"
  by (simp_all add: pci_check_intr_pend_def pci_enable_capability_def request_regions_def set_dma_mask_def
      interrupts_off_def check_nonzero_interrupt_status_def int_enable_defs read_interrupts_def split_beta Let_def)


lemma start_threads_frame:
  "xdev (snd (start_threads E num cpus ths s)) = xdev s \<and> xdev_list (snd (start_threads E num cpus ths s)) = xdev_list s"
proof (induction E num cpus ths s rule: start_threads.induct)
  case (2 E num cpu cpus ths s)
  then show ?case
    by (auto simp: xdma_kthread_start_def split_beta Let_def split: if_splits)
qed simp

lemma threads_create_frame [simp]:
  "xdev (snd (xdma_threads_create E cpus n s)) = xdev s"
  "xdev_list (snd (xdma_threads_create E cpus n s)) = xdev_list s"
  using start_threads_frame [of E n cpus "[]" "emit (KAlloc n) s"]
  by (auto simp: xdma_threads_create_def split_beta split: sum.splits prod.splits)

section \<open>The device list\<close>

text \<open>Devices in the list have increasing indices and addresses of their own.\<close>

definition list_ok :: "(nat \<times> nat \<times> int) list \<Rightarrow> bool" where
  "list_ok l \<longleftrightarrow> sorted_wrt (<) (map (snd \<circ> snd) l) \<and> distinct (map (fst \<circ> snd) l)"

lemma xdev_list_add_effect:
  assumes "xdev_list_add E cpus s = (rv, s')"
  shows "case rv of Inl _ \<Rightarrow> xdev_list s' = xdev_list s
    | Inr _ \<Rightarrow> xdev_list s' = xdev_list s @ [(pdev (xdev s), self (xdev s), idx (xdev s'))]"
    and "xdev s' = (xdev s)\<lparr>idx := idx (xdev s')\<rparr>"
    and "xdev_list s \<noteq> [] \<Longrightarrow> idx (xdev s') = snd (snd (last (xdev_list s))) + 1"
  using assms by (auto simp: xdev_list_add_def split_beta Let_def split: sum.splits if_splits)

lemma list_add_ok:
  assumes "list_ok (xdev_list s)" and "self (xdev s) \<notin> (fst \<circ> snd) ` set (xdev_list s)"
    and "xdev_list_add E cpus s = (Inr (), s')"
  shows "list_ok (xdev_list s')" "\<forall>d\<in>set (xdev_list s). snd (snd d) < idx (xdev s')"
proof -
  note a = xdev_list_add_effect [OF assms(3)]
  let ?l = "xdev_list s" and ?i = "idx (xdev s')"
  have l': "xdev_list s' = ?l @ [(pdev (xdev s), self (xdev s), ?i)]" using a(1) by simp
  have lt: "snd (snd d) < ?i" if "d \<in> set ?l" for d
  proof -
    have ne: "?l \<noteq> []" using that by auto
    have "sorted_wrt (<) (map (snd \<circ> snd) (butlast ?l @ [last ?l]))"
      using assms(1) ne by (simp add: list_ok_def)
    then have "\<forall>c\<in>set (butlast ?l). snd (snd c) < snd (snd (last ?l))"
      by (auto simp: sorted_wrt_append)
    moreover have "d \<in> set (butlast ?l) \<or> d = last ?l"
      using that append_butlast_last_id [OF ne] by (metis Un_iff empty_iff insert_iff list.set set_append)
    ultimately have "snd (snd d) \<le> snd (snd (last ?l))" by force
    then show ?thesis using a(3) [OF ne] by simp
  qed
  then show "\<forall>d\<in>set ?l. snd (snd d) < ?i" by blast
  show "list_ok (xdev_list s')"
    using assms(1,2) lt unfolding l' by (auto simp: list_ok_def sorted_wrt_append)
qed

lemma list_remove_effect:
  "xdev_list (xdev_list_remove E s) = filter (\<lambda>d. fst (snd d) \<noteq> self (xdev s)) (xdev_list s)"
proof -
  have "xdev_list (fold (\<lambda>th s. snd (snd (xdma_kthread_stop E th s))) ths t) = xdev_list t" for ths t
    by (induction ths arbitrary: t) (simp_all add: xdma_kthread_stop_def split_beta Let_def)
  then show ?thesis by (simp add: xdev_list_remove_def Let_def xdma_threads_destroy_def)
qed

text \<open>Registering a device keeps the indices in the list increasing, so no two devices share one,
  and unregistering it restores the list.\<close>

theorem xdev_list_add_remove:
  assumes "list_ok (xdev_list s)" and "self (xdev s) \<notin> (fst \<circ> snd) ` set (xdev_list s)"
    and "xdev_list_add E cpus s = (Inr (), s')"
  shows "list_ok (xdev_list s') \<and> (\<forall>d\<in>set (xdev_list s). snd (snd d) \<noteq> idx (xdev s'))
    \<and> xdev_list (xdev_list_remove E s') = xdev_list s"
proof -
  note a = xdev_list_add_effect [OF assms(3)] and ok = list_add_ok [OF assms]
  have "self (xdev s') = self (xdev s)" using arg_cong [OF a(2), of self] by simp
  then have "xdev_list (xdev_list_remove E s') = xdev_list s"
    using assms(2) a(1) by (force simp: list_remove_effect filter_id_conv)
  with ok show ?thesis by force
qed

theorem xdev_list_add_remove_witness:
  "\<exists>s'. xdev_list_add env0 [] (world0\<lparr>xdev_list := [(9, 9, 4)]\<rparr>) = (Inr (), s')
     \<and> list_ok (xdev_list s') \<and> xdev_list (xdev_list_remove env0 s') = [(9, 9, 4)]"
proof -
  let ?s = "world0\<lparr>xdev_list := [(9, 9, 4)]\<rparr>"
  have w: "xdev_list_add env0 [] ?s = (Inr (), snd (xdev_list_add env0 [] ?s))"
    by (simp add: xdev_list_add_def Let_def)
  have "list_ok (xdev_list ?s)" "self (xdev ?s) \<notin> (fst \<circ> snd) ` set (xdev_list ?s)"
    by (simp_all add: list_ok_def world0_def xdev0_def)
  from xdev_list_add_remove [OF this w] w show ?thesis by auto
qed

section \<open>An opened device\<close>

lemma open_engines_success:
  assumes "open_engines E p s = (Some h, s')" and "engines_num (xdev s) = 0"
  shows "\<exists>s1. probed (h2c_engines s1 @ c2h_engines s1) s1 \<and> settled s1 s' \<and> xdev_list s1 = xdev_list s
    \<and> self (xdev s1) = self (xdev s) \<and> pdev (xdev s1) = pdev (xdev s) \<and> user_max (xdev s1) = user_max (xdev s)
    \<and> h2c_channel_max (xdev s1) \<le> h2c_channel_max (xdev s) \<and> c2h_channel_max (xdev s1) \<le> c2h_channel_max (xdev s)
    \<and> h = self (xdev s') \<and> \<not> xdma_device_flag_check s' XDEV_FLAG_OFFLINE"
proof -
  define s0 where "s0 = interrupts_off E (check_nonzero_interrupt_status E s)"
  define s1 where "s1 = probe_engines E s0"
  define s2 where "s2 = snd (enable_msi_msix E p s1)"
  define s3 where "s3 = snd (irq_setup E s2)"
  have "blank s s0" by (simp add: s0_def)
  then have 0: "engines_num (xdev s0) = 0" "xdev_list s0 = xdev_list s" "self (xdev s0) = self (xdev s)"
    "pdev (xdev s0) = pdev (xdev s)" "user_max (xdev s0) = user_max (xdev s)"
    "h2c_channel_max (xdev s0) = h2c_channel_max (xdev s)" "c2h_channel_max (xdev s0) = c2h_channel_max (xdev s)"
    using assms(2) by (simp_all add: blank_def settled_def)
  note p = probe_engines_effect [OF 0(1), of E, folded s1_def]
  have 3: "settled s1 s3"
    unfolding s3_def by (rule settled_irq_setup) (simp add: s2_def settled_enable_msi)
  have s': "h = self (xdev s')" "s' = xdma_device_flag_clear XDEV_FLAG_OFFLINE
      (snd (read_interrupts E (if poll_mode E = 0 then channel_interrupts_enable (NOT 0) s3 else s3)))"
    using assms(1)
    by (auto simp: open_engines_def Let_def s0_def [symmetric] s1_def [symmetric] s2_def s3_def
        xdma_device_flag_clear_def split: prod.splits sum.splits)
  have "settled s1 s'" using 3 by (simp add: s'(2) xdma_device_flag_clear_def)
  moreover have "\<not> xdma_device_flag_check s' XDEV_FLAG_OFFLINE" unfolding s'(2) by (rule flag_check_clear)
  ultimately show ?thesis using p 0 s'(1) by (intro exI [of _ s1]) simp
qed

lemma open_pci_success:
  assumes "open_pci E p s = (Some h, s')"
  shows "\<exists>s0. blank s s0 \<and> open_engines E p s0 = (Some h, s')"
proof -
  define s1 where "s1 = snd (kcall E ''pci_set_master'' [int p] (snd (kcall E ''pcie_set_readrq'' [int p, 512]
      (pci_enable_capability E p 0x100 (pci_enable_capability E p 0x10 (pci_check_intr_pend E
        (snd (kcall E ''pci_enable_device'' [int p] s))))))))"
  define s2 where "s2 = snd (request_regions E p s1)"
  define s3 where "s3 = snd (map_bars E s2)"
  define s4 where "s4 = snd (set_dma_mask E p s3)"
  have "blank s s1" unfolding s1_def by (simp del: kcall_frame)
  then have "blank s s4" by (simp add: s4_def s3_def s2_def blank_map_bars)
  moreover have "open_engines E p s4 = (Some h, s')"
    using assms unfolding open_pci_def Let_def split_beta
    by (auto simp: s4_def s3_def s2_def s1_def simp del: kcall_frame split: prod.splits sum.splits if_splits)
  ultimately show ?thesis by blast
qed


lemma opened_registered:
  assumes "xdma_device_open E cpus p hndl um hm cm s = (Some h, s')"
  shows "\<exists>i s1. p \<noteq> 0 \<and> h = hndl \<and> xdev_list s1 = xdev_list s @ [(p, hndl, i)]
    \<and> self (xdev s1) = hndl \<and> pdev (xdev s1) = p \<and> probed (h2c_engines s1 @ c2h_engines s1) s1 \<and> settled s1 s'
    \<and> \<not> xdma_device_flag_check s' XDEV_FLAG_OFFLINE \<and> user_max (xdev s') = clamp_max um MAX_USER_IRQ
    \<and> h2c_channel_max (xdev s') \<le> XDMA_CHANNEL_NUM_MAX \<and> c2h_channel_max (xdev s') \<le> XDMA_CHANNEL_NUM_MAX
    \<and> (list_ok (xdev_list s) \<and> hndl \<notin> (fst \<circ> snd) ` set (xdev_list s) \<longrightarrow> list_ok (xdev_list s1))"
proof -
  obtain sa where a: "alloc_dev_instance E p hndl s = Some sa"
    using assms by (auto simp: xdma_device_open_def split: option.splits)
  have al: "p \<noteq> 0" "xdev_list sa = xdev_list s" "self (xdev sa) = hndl" "pdev (xdev sa) = p" "engines_num (xdev sa) = 0"
    using a by (auto simp: alloc_dev_instance_def dev_zero_def split: if_splits)
  define sb where "sb = upd_xdev (\<lambda>d. d\<lparr>user_max := clamp_max um MAX_USER_IRQ,
      h2c_channel_max := clamp_max hm XDMA_CHANNEL_NUM_MAX, c2h_channel_max := clamp_max cm XDMA_CHANNEL_NUM_MAX\<rparr>)
      (xdma_device_flag_set XDEV_FLAG_OFFLINE sa)"
  obtain rv sc where l: "xdev_list_add E cpus sb = (rv, sc)" by fastforce
  have rv: "rv = Inr ()" and op: "open_pci E p sc = (Some h, s')"
    using assms a l by (auto simp: xdma_device_open_def sb_def [symmetric] split: sum.splits)
  note la = xdev_list_add_effect [OF l]
  have sb: "xdev_list sb = xdev_list s" "self (xdev sb) = hndl" "pdev (xdev sb) = p" "engines_num (xdev sb) = 0"
    "user_max (xdev sb) = clamp_max um MAX_USER_IRQ" "h2c_channel_max (xdev sb) \<le> XDMA_CHANNEL_NUM_MAX"
    "c2h_channel_max (xdev sb) \<le> XDMA_CHANNEL_NUM_MAX"
    using al by (simp_all add: sb_def xdma_device_flag_set_def clamp_max_def)
  have sc: "xdev_list sc = xdev_list s @ [(p, hndl, idx (xdev sc))]" "self (xdev sc) = hndl" "pdev (xdev sc) = p"
    "engines_num (xdev sc) = 0" "user_max (xdev sc) = clamp_max um MAX_USER_IRQ"
    "h2c_channel_max (xdev sc) \<le> XDMA_CHANNEL_NUM_MAX" "c2h_channel_max (xdev sc) \<le> XDMA_CHANNEL_NUM_MAX"
    using la(1) rv sb arg_cong [OF la(2), of self] arg_cong [OF la(2), of pdev] arg_cong [OF la(2), of engines_num]
      arg_cong [OF la(2), of user_max] arg_cong [OF la(2), of h2c_channel_max] arg_cong [OF la(2), of c2h_channel_max]
    by simp_all
  obtain s0 where 0: "blank sc s0" "open_engines E p s0 = (Some h, s')" using open_pci_success [OF op] by blast
  have z: "engines_num (xdev s0) = 0" "xdev_list s0 = xdev_list sc" "self (xdev s0) = hndl" "pdev (xdev s0) = p"
    "user_max (xdev s0) = clamp_max um MAX_USER_IRQ" "h2c_channel_max (xdev s0) \<le> XDMA_CHANNEL_NUM_MAX"
    "c2h_channel_max (xdev s0) \<le> XDMA_CHANNEL_NUM_MAX"
    using 0(1) sc by (simp_all add: blank_def settled_def)
  obtain s1 where s1: "probed (h2c_engines s1 @ c2h_engines s1) s1" "settled s1 s'" "xdev_list s1 = xdev_list s0"
    "self (xdev s1) = self (xdev s0)" "pdev (xdev s1) = pdev (xdev s0)" "user_max (xdev s1) = user_max (xdev s0)"
    "h2c_channel_max (xdev s1) \<le> h2c_channel_max (xdev s0)" "c2h_channel_max (xdev s1) \<le> c2h_channel_max (xdev s0)"
    "h = self (xdev s')" "\<not> xdma_device_flag_check s' XDEV_FLAG_OFFLINE"
    using open_engines_success [OF 0(2) z(1)] by blast
  note st = settled_engines [OF s1(2)]
  have "list_ok (xdev_list sc)" if "list_ok (xdev_list s)" "hndl \<notin> (fst \<circ> snd) ` set (xdev_list s)"
    using list_add_ok(1) [of sb E cpus sc] l rv sb that by simp
  then show ?thesis
    using s1 z al(1) sc(1) st by (intro exI [of _ "idx (xdev sc)"] exI [of _ s1]) (simp add: st)
qed

lemma find_append_None: "find P xs = None \<Longrightarrow> find P (xs @ ys) = find P ys"
  by (induction xs) (simp_all split: if_splits)

text \<open>A device that was opened is ready for use: it is found by its handle, it is on line, every
  channel that probing found accepts a submission in its direction and no other channel does, and
  the engines have their own interrupt bits, as the interrupt handler needs.\<close>

theorem xdma_device_open_ready:
  assumes "\<forall>d\<in>set (xdev_list s). fst d \<noteq> p" and "hndl \<noteq> 0"
    and "xdma_device_open E cpus p hndl um hm cm s = (Some h, s')"
  shows "h = hndl \<and> own_bits s' (h2c_engines s') \<and> own_bits s' (c2h_engines s')
    \<and> (\<forall>ch. submit_check hndl ch True s' = (if ch < h2c_channel_max (xdev s') then Inr (H2C ch) else Inl EINVAL))
    \<and> (\<forall>ch. submit_check hndl ch False s' = (if ch < c2h_channel_max (xdev s') then Inr (C2H ch) else Inl EINVAL))"
proof -
  obtain i s1 where o: "p \<noteq> 0" "h = hndl" "xdev_list s1 = xdev_list s @ [(p, hndl, i)]" "pdev (xdev s1) = p"
    "probed (h2c_engines s1 @ c2h_engines s1) s1" "settled s1 s'" "\<not> xdma_device_flag_check s' XDEV_FLAG_OFFLINE"
    using opened_registered [OF assms(3)] by blast
  note st = settled_engines [OF o(6)]
  have "find (\<lambda>d. fst d = p) (xdev_list s) = None" using assms(1) by (simp add: find_None_iff)
  then have "find (\<lambda>d. fst d = p) (xdev_list s @ [(p, hndl, i)]) = Some (p, hndl, i)"
    by (simp add: find_append_None)
  then have f: "debug_check_dev_hndl (pdev (xdev s')) hndl s' = Inr ()"
    using o(1,3,4) by (simp add: debug_check_dev_hndl_def xdev_find_by_pdev_def st)
  have ob: "own_bits s' (h2c_engines s')" "own_bits s' (c2h_engines s')"
    unfolding st using probed_own_bits [OF o(5)] by (simp_all add: own_bits_def sorted_wrt_append)
  have e: "emagic (get_eng s' e) = MAGIC_ENGINE \<and> edir (get_eng s' e) = engine_dir e"
    if "e \<in> set (h2c_engines s') \<union> set (c2h_engines s')" for e
    using probed_wf [OF o(5), of e] that by (auto simp: st engine_wf_def Let_def)
  have h: "H2C ch \<in> set (h2c_engines s')" if "ch < h2c_channel_max (xdev s')" for ch
    using that by (simp add: h2c_engines_def)
  have c: "C2H ch \<in> set (c2h_engines s')" if "ch < c2h_channel_max (xdev s')" for ch
    using that by (simp add: c2h_engines_def)
  show ?thesis
    using o(2,7) ob assms(2) f e [OF UnI1 [OF h]] e [OF UnI2 [OF c]]
    by (auto simp: submit_check_def select_engine_def check_engine_def write_dir_def not_le)
qed


definition open_env :: env where
  "open_env = env0\<lparr>kernel := (\<lambda>tr f as.
       if f = ''pci_resource_len'' then (if hd as = 0 then 0x10000 else 0)
       else if f = ''pci_iomap'' then 0x100000
       else if f = ''dma_alloc_coherent'' then 0x7000
       else if f = ''pci_read_config_byte'' then 1
       else if f = ''device_create'' \<or> f = ''MAJOR'' then 240
       else 0),
     ioread32 := (\<lambda>_ a. if a = 0x102000 then 0x1fc20006 else if a = 0x103000 then 0x1fc30006
       else if a = 0x100000 then 0x1fc00006 else if a = 0x101000 then 0x1fc10006 else 0)\<rparr>"


text \<open>Each call of the opening succeeds in this environment, whatever the trace.\<close>

lemma open_env_kernel [simp]:
  "kernel open_env tr ''pci_resource_len'' as = (if hd as = 0 then 0x10000 else 0)"
  "kernel open_env tr ''pci_iomap'' as = 0x100000" "kernel open_env tr ''pci_enable_device'' as = 0"
  "kernel open_env tr ''pci_request_regions'' as = 0" "kernel open_env tr ''dma_set_mask_and_coherent'' as = 0"
  "kernel open_env tr ''request_irq'' as = 0" "kernel open_env tr ''pci_read_config_byte'' as = 1"
  "kernel open_env tr ''device_create'' as = 240" "kernel open_env tr ''alloc_chrdev_region'' as = 0"
  "kernel open_env tr ''kobject_set_name'' as = 0" "kernel open_env tr ''cdev_add'' as = 0"
  "kernel open_env tr ''pci_find_capability'' as = 0" "kzalloc open_env tr" "poll_mode open_env = 0"
  "ioread32 open_env tr 0x102000 = 0x1fc20006" "ioread32 open_env tr 0x103000 = 0x1fc30006"
  by (simp_all add: open_env_def env0_def)

lemma open_env_map_bars: "config_bar_idx (xdev s) = - 1 \<Longrightarrow> fst (map_bars open_env s) = Inr ()"
  by (simp add: map_bars_def XDMA_BAR_NUM_def upt_rec map_single_bar_def bar_length_def Let_def INT_MAX_def
      XDMA_BAR_SIZE_def is_config_bar_def split_beta XDMA_OFS_INT_CTRL_def XDMA_OFS_CONFIG_def
      ireg_offsets creg_def config_regs_def IRQ_BLOCK_ID_def CONFIG_BLOCK_ID_def)

lemma open_env_irq_setup: "fst (irq_setup open_env s) = Inr ()"
proof -
  have e: "fst (request_engine_irqs open_env es s) = Inr ()" for es s
  proof (induction es arbitrary: s)
    case (Cons p es)
    then show ?case by (cases p) (simp add: request_engine_irqs.simps split_beta Let_def)
  qed simp
  have u: "fst (request_user_irqs open_env j i n s) = Inr ()" for j i n s
    by (induction n arbitrary: i s) (simp_all add: split_beta Let_def)
  show ?thesis
    by (simp add: irq_setup_def Let_def irq_msix_channel_setup_def irq_msix_user_setup_def e u case_res_Inr
        irq_msi_setup_def irq_legacy_setup_def request_dev_irq_def split_beta)
qed

lemma open_env_opens:
  assumes "xdev_list w = []"
  shows "fst (xdma_device_open open_env [] 5 7 um hm cm w) = Some 7"
proof -
  have m: "fst (enable_msi_msix open_env 5 s) = Inr ()" for s
    by (simp add: enable_msi_msix_def msi_msix_capable_def)
  have e: "\<exists>s'. open_engines open_env 5 s = (Some (self (xdev s')), s')" for s
    by (simp add: open_engines_def Let_def m open_env_irq_setup case_res_Inr xdma_device_flag_clear_def)
  have d: "fst (set_dma_mask open_env 5 s) = Inr ()" "fst (request_regions open_env 5 s) = Inr ()" for s
    by (simp_all add: set_dma_mask_def request_regions_def split_beta)
  have p: "\<exists>s'. open_pci open_env 5 s = (Some (self (xdev s')), s')" if "config_bar_idx (xdev s) = - 1" for s
    using e that
    by (simp add: open_pci_def split_beta Let_def d case_res_Inr open_env_map_bars request_regions_def
        pci_enable_capability_def pci_check_intr_pend_def)
  have "\<exists>s'. xdma_device_open open_env [] 5 7 um hm cm w = (Some (self (xdev s')), s')"
    by (simp add: xdma_device_open_def alloc_dev_instance_def Let_def xdev_list_add_def assms
        xdma_device_flag_set_def dev_zero_def) (rule p, simp)
  then obtain s' where s': "xdma_device_open open_env [] 5 7 um hm cm w = (Some (self (xdev s')), s')" by blast
  with opened_registered [OF s'] show ?thesis by auto
qed

lemma world0_list: "xdev_list world0 = []"
  by (simp add: world0_def)

theorem xdma_device_open_ready_witness:
  "\<exists>s'. xdma_device_open open_env [] 5 7 1 1 1 world0 = (Some 7, s') \<and> own_bits s' (h2c_engines s')"
proof -
  obtain s' where s': "xdma_device_open open_env [] 5 7 1 1 1 world0 = (Some 7, s')"
    using open_env_opens [of world0] by (metis prod.collapse world0_list)
  have "\<forall>d\<in>set (xdev_list world0). fst d \<noteq> 5" by (simp add: world0_def)
  from xdma_device_open_ready [OF this _ s'] s' show ?thesis by simp
qed


section \<open>A failed opening\<close>

text \<open>The list and the identity of the device, which is all the error path needs of a state.\<close>

definition listed :: "world \<Rightarrow> world \<Rightarrow> bool" where
  "listed s s' \<longleftrightarrow> xdev_list s' = xdev_list s \<and> self (xdev s') = self (xdev s)"

lemma settled_listed: "settled s s' \<Longrightarrow> listed s s'"
  by (simp add: settled_def listed_def)

lemma listed_trans: "listed s s1 \<Longrightarrow> listed s1 s2 \<Longrightarrow> listed s s2"
  by (simp add: listed_def)

lemma listed_step [simp]:
  "listed s (emit ev s1) = listed s s1" "listed s (write_register v a s1) = listed s s1"
  "listed s (upd_eng e g s1) = listed s s1" "listed s (upd_thread i h s1) = listed s s1"
  by (simp_all add: listed_def write_register_def upd_thread_def)

lemma listed_upd_xdev [simp]: "(\<And>d. self (f d) = self d) \<Longrightarrow> listed s (upd_xdev f s1) = listed s s1"
  by (simp add: listed_def)

lemma listed_destroy: "listed s (engine_destroy E e s1) = listed s s1"
  by (simp add: engine_destroy_def Let_def eng_write_def xdma_thread_remove_work_def engine_free_resource_def
      dma_free_coherent_def split: option.split)

lemma listed_remove_engines: "listed s (remove_engines E s1) = listed s s1"
proof -
  have "listed s (fold (remove_if_present E) es s2) = listed s s2" for es s2
    by (induction es arbitrary: s2) (simp_all add: remove_if_present_def listed_destroy)
  then show ?thesis by (simp add: remove_engines_def Let_def)
qed

lemma listed_unmap: "listed s (unmap_bars s1) = listed s s1"
proof -
  have "listed s (fold unmap_bar is s2) = listed s s2" for "is" s2
    by (induction "is" arbitrary: s2) (simp_all add: unmap_bar_def set_bar_def)
  then show ?thesis by (simp add: unmap_bars_def)
qed

lemma err_paths:
  assumes "listed s s1"
  defines "gone \<equiv> filter (\<lambda>d. fst (snd d) \<noteq> self (xdev s)) (xdev_list s)"
  shows "xdev_list (err_enable E s1) = gone" "xdev_list (err_regions E p s1) = gone"
    "xdev_list (err_map E p s1) = gone" "xdev_list (err_mask E p s1) = gone"
    "xdev_list (err_engines E p s1) = gone" "xdev_list (err_msix E p s1) = gone"
proof -
  have 1: "xdev_list (err_enable E t) = gone" if "listed s t" for t
    using that by (simp add: err_enable_def free_xdev_def list_remove_effect listed_def gone_def)
  have 2: "xdev_list (err_regions E p t) = gone" if "listed s t" for t
    using that by (simp add: err_regions_def 1)
  have 3: "xdev_list (err_map E p t) = gone" if "listed s t" for t
    using that by (simp add: err_map_def 2)
  have 4: "xdev_list (err_mask E p t) = gone" if "listed s t" for t
    using that by (simp add: err_mask_def 3 listed_unmap)
  have 5: "xdev_list (err_engines E p t) = gone" if "listed s t" for t
    using that by (simp add: err_engines_def 4 listed_remove_engines)
  have 6: "xdev_list (err_msix E p t) = gone" if "listed s t" for t
    using that by (simp add: err_msix_def 5 disable_msi_msix_def)
  show "xdev_list (err_enable E s1) = gone" "xdev_list (err_regions E p s1) = gone"
    "xdev_list (err_map E p s1) = gone" "xdev_list (err_mask E p s1) = gone"
    "xdev_list (err_engines E p s1) = gone" "xdev_list (err_msix E p s1) = gone"
    using assms(1) 1 2 3 4 5 6 by blast+
qed

lemma open_engines_failure:
  assumes "open_engines E p s = (None, s')" and "engines_num (xdev s) = 0"
  shows "xdev_list s' = filter (\<lambda>d. fst (snd d) \<noteq> self (xdev s)) (xdev_list s)"
proof -
  define s0 where "s0 = interrupts_off E (check_nonzero_interrupt_status E s)"
  define s1 where "s1 = probe_engines E s0"
  define s2 where "s2 = snd (enable_msi_msix E p s1)"
  define s3 where "s3 = snd (irq_setup E s2)"
  have b: "blank s s0" by (simp add: s0_def)
  then have 0: "engines_num (xdev s0) = 0" "listed s s0" using assms(2) by (simp_all add: blank_def settled_def listed_def)
  note p = probe_engines_effect [OF 0(1), of E, folded s1_def]
  have 1: "listed s s1" using 0(2) p(4,5) by (simp add: listed_def)
  have "settled s1 s2" by (simp add: s2_def settled_enable_msi)
  then have "listed s s2" "listed s s3"
    using 1 settled_irq_setup [of s1 s2 E] by (auto simp: s3_def intro: listed_trans settled_listed)
  with err_paths(5) [of s s2 E p] err_paths(6) [of s s3 E p] assms(1) show ?thesis
    by (auto simp: open_engines_def Let_def s0_def [symmetric] s1_def [symmetric] s2_def s3_def
        split: prod.splits sum.splits)
qed

lemma open_pci_failure:
  assumes "open_pci E p s = (None, s')" and "engines_num (xdev s) = 0"
  shows "xdev_list s' = filter (\<lambda>d. fst (snd d) \<noteq> self (xdev s)) (xdev_list s)"
proof -
  define s0 where "s0 = snd (kcall E ''pci_enable_device'' [int p] s)"
  define s1 where "s1 = snd (kcall E ''pci_set_master'' [int p] (snd (kcall E ''pcie_set_readrq'' [int p, 512]
      (pci_enable_capability E p 0x100 (pci_enable_capability E p 0x10 (pci_check_intr_pend E s0))))))"
  define s2 where "s2 = snd (request_regions E p s1)"
  define s3 where "s3 = snd (map_bars E s2)"
  define s4 where "s4 = snd (set_dma_mask E p s3)"
  have 0: "blank s s0" "blank s s1" unfolding s0_def s1_def by (simp_all del: kcall_frame)
  then have b: "blank s s2" "blank s s3" "blank s s4" by (simp_all add: s4_def s3_def s2_def blank_map_bars)
  have l: "listed s s0" "listed s s2" "listed s s3" "listed s s4"
    using 0 b by (simp_all add: blank_def settled_listed)
  have n: "engines_num (xdev s4) = 0" "self (xdev s4) = self (xdev s)" "xdev_list s4 = xdev_list s"
    using b(3) assms(2) by (simp_all add: blank_def settled_def)
  let ?r0 = "fst (kcall E ''pci_enable_device'' [int p] s)"
  have eq: "open_pci E p s = (if ?r0 \<noteq> 0 then (None, err_enable E s0)
      else case request_regions E p s1 of (Inl rv, s) \<Rightarrow> (None, err_regions E p s)
        | (Inr _, s) \<Rightarrow> (case map_bars E s of (Inl rv, s) \<Rightarrow> (None, err_map E p s)
          | (Inr _, s) \<Rightarrow> (case set_dma_mask E p s of (Inl rv, s) \<Rightarrow> (None, err_mask E p s)
            | (Inr _, s) \<Rightarrow> open_engines E p s)))"
    unfolding open_pci_def Let_def split_beta s1_def s0_def ..
  consider "s' = err_enable E s0" | "s' = err_regions E p s2" | "s' = err_map E p s3" | "s' = err_mask E p s4"
    | "open_engines E p s4 = (None, s')"
  proof (cases "?r0 \<noteq> 0")
    case True
    with eq assms(1) that show ?thesis by simp
  next
    case 0: False
    show ?thesis
    proof (cases "fst (request_regions E p s1)")
      case (Inl r)
      with eq 0 assms(1) that show ?thesis by (simp add: case_res_Inl s2_def)
    next
      case 1: (Inr u)
      show ?thesis
      proof (cases "fst (map_bars E s2)")
        case (Inl r)
        with eq 0 1 assms(1) that show ?thesis by (simp add: case_res_Inr case_res_Inl s2_def s3_def)
      next
        case 2: (Inr u)
        show ?thesis
          using eq 0 1 2 assms(1) that
          by (cases "fst (set_dma_mask E p s3)") (simp_all add: case_res_Inr case_res_Inl s2_def s3_def s4_def)
      qed
    qed
  qed
  then show ?thesis
    using err_paths(1) [OF l(1), of E] err_paths(2) [OF l(2), of E p] err_paths(3) [OF l(3), of E p]
      err_paths(4) [OF l(4), of E p] open_engines_failure [of E p s4 s'] n by cases auto
qed

text \<open>An opening that fails at whatever step leaves the list of devices as it was.\<close>

theorem xdma_device_open_rollback:
  assumes "hndl \<notin> (fst \<circ> snd) ` set (xdev_list s)"
    and "xdma_device_open E cpus p hndl um hm cm s = (None, s')"
  shows "xdev_list s' = xdev_list s"
proof (cases "alloc_dev_instance E p hndl s")
  case None
  with assms(2) show ?thesis by (simp add: xdma_device_open_def)
next
  case (Some sa)
  define sb where "sb = upd_xdev (\<lambda>d. d\<lparr>user_max := clamp_max um MAX_USER_IRQ,
      h2c_channel_max := clamp_max hm XDMA_CHANNEL_NUM_MAX, c2h_channel_max := clamp_max cm XDMA_CHANNEL_NUM_MAX\<rparr>)
      (xdma_device_flag_set XDEV_FLAG_OFFLINE sa)"
  have sb: "xdev_list sb = xdev_list s" "self (xdev sb) = hndl" "engines_num (xdev sb) = 0"
    using Some by (auto simp: sb_def xdma_device_flag_set_def alloc_dev_instance_def dev_zero_def split: if_splits)
  obtain rv sc where l: "xdev_list_add E cpus sb = (rv, sc)" by fastforce
  note la = xdev_list_add_effect [OF l]
  have op: "xdma_device_open E cpus p hndl um hm cm s =
      (case rv of Inl _ \<Rightarrow> (None, free_xdev sc) | Inr _ \<Rightarrow> open_pci E p sc)"
    by (simp add: xdma_device_open_def Some Let_def sb_def [symmetric] l)
  show ?thesis
  proof (cases rv)
    case (Inl r)
    with op assms(2) la(1) sb show ?thesis by (auto simp: free_xdev_def)
  next
    case (Inr u)
    have sc: "xdev_list sc = xdev_list s @ [(pdev (xdev sb), hndl, idx (xdev sc))]" "self (xdev sc) = hndl"
      "engines_num (xdev sc) = 0"
      using la(1) Inr sb arg_cong [OF la(2), of self] arg_cong [OF la(2), of engines_num] by simp_all
    have "open_pci E p sc = (None, s')" using op assms(2) Inr by simp
    from open_pci_failure [OF this sc(3)] assms(1) show ?thesis
      by (force simp: sc filter_id_conv)
  qed
qed

theorem xdma_device_open_rollback_witness:
  "xdev_list (snd (xdma_device_open env0 [] 5 7 1 1 1 (world0\<lparr>xdev_list := [(9, 9, 4)]\<rparr>))) = [(9, 9, 4)]"
proof -
  let ?s = "world0\<lparr>xdev_list := [(9, 9, 4)]\<rparr>"
  have "fst (map_bars env0 s) = Inl EINVAL" if "config_bar_idx (xdev s) = - 1" for s
    using that by (simp add: map_bars_def XDMA_BAR_NUM_def upt_rec map_single_bar_def bar_length_def Let_def env0_def)
  then have "fst (xdma_device_open env0 [] 5 7 1 1 1 ?s) = None"
    by (simp add: xdma_device_open_def alloc_dev_instance_def Let_def xdev_list_add_def world0_def env0_def
        xdma_device_flag_set_def dev_zero_def open_pci_def request_regions_def case_res_Inl
        pci_check_intr_pend_def pci_enable_capability_def split_beta)
  then have "xdma_device_open env0 [] 5 7 1 1 1 ?s = (None, snd (xdma_device_open env0 [] 5 7 1 1 1 ?s))"
    by (metis prod.collapse)
  from xdma_device_open_rollback [OF _ this] show ?thesis by simp
qed

end
