(* ===== verification/Reset.thy ===== *)
theory Reset
  imports Device
begin

text \<open>
  Properties of taking a device off line and bringing it back (\<open>xdma_device_offline\<close>,
  \<open>xdma_device_online\<close>) and of the registration of user interrupt handlers.
\<close>

section \<open>Off line\<close>

lemma irq_teardown_xdev [simp]: "xdev (irq_teardown E s) = xdev s"
  by (simp add: irq_teardown_def irq_msix_user_teardown_def Let_def free_irq_def)

lemma interrupts_off_xdev [simp]: "xdev (interrupts_off E s) = xdev s"
  by (simp add: interrupts_off_def Let_def read_interrupts_def split_beta)

lemma write_list [simp]:
  "xdev_list (write_register v a s) = xdev_list s" "xdev_list (mem_write v a s) = xdev_list s"
  by (simp_all add: write_register_def mem_write_def)

definition stopped :: "xdma_engine \<Rightarrow> xdma_engine" where
  "stopped g = g\<lparr>shutdown := shutdown g OR ENGINE_SHUTDOWN_REQUEST, running := False\<rparr>"

lemma stop_for_offline_effect:
  "get_eng (stop_for_offline E e s) e' =
     (if e' = e \<and> emagic (get_eng s e) = MAGIC_ENGINE then stopped (get_eng s e') else get_eng s e')"
  "dflags (xdev (stop_for_offline E e s)) = dflags (xdev s)"
  "dev_rest (xdev (stop_for_offline E e s)) = dev_rest (xdev s)"
  "xdev_list (stop_for_offline E e s) = xdev_list s"
  "xfers (stop_for_offline E e s) = xfers s"
  by (auto simp: stop_for_offline_def xdma_engine_stop.simps Let_def eng_write_def sg_write_def stopped_def)

lemma fold_stop_effect:
  "distinct es \<Longrightarrow> get_eng (fold (stop_for_offline E) es s) e =
     (if e \<in> set es \<and> emagic (get_eng s e) = MAGIC_ENGINE then stopped (get_eng s e) else get_eng s e)"
  "dev_rest (xdev (fold (stop_for_offline E) es s)) = dev_rest (xdev s)"
  "xdev_list (fold (stop_for_offline E) es s) = xdev_list s"
  "xfers (fold (stop_for_offline E) es s) = xfers s"
  by (induction es arbitrary: s) (auto simp: stop_for_offline_effect)


lemma debug_check_cong: "xdev_list s' = xdev_list s \<Longrightarrow> debug_check_dev_hndl p h s' = debug_check_dev_hndl p h s"
  unfolding debug_check_dev_hndl_def xdev_find_by_pdev_def by simp

lemma emagic_stopped [simp]: "emagic (stopped g) = emagic g" "transfer_list (stopped g) = transfer_list g"
  by (simp_all add: stopped_def)

lemma engines_distinct: "distinct (h2c_engines s @ c2h_engines s)"
  using channel_vectors_fst by metis

lemma settled_irq_teardown: "settled s (irq_teardown E s1) = settled s s1"
proof -
  have e: "settled s (free_engine_irqs es t) = settled s t" for es t
    by (induction es t rule: free_engine_irqs.induct) simp_all
  show ?thesis
    by (simp add: irq_teardown_def irq_msix_user_teardown_def irq_msix_channel_teardown_def Let_def e
        settled_free_user prog_irq_msix_user_def prog_irq_msix_channel_def settled_prog)
qed

lemma settled_interrupts_off: "settled s (interrupts_off E s1) = settled s s1"
  by (simp add: interrupts_off_def Let_def)

lemma offline_effect:
  fixes E :: env and s :: world
  assumes "hndl \<noteq> 0" and "debug_check_dev_hndl p hndl s = Inr ()"
  defines "s' \<equiv> xdma_device_offline E p hndl s"
  shows "get_eng s' e = (if e \<in> set (h2c_engines s @ c2h_engines s) \<and> emagic (get_eng s e) = MAGIC_ENGINE
      then stopped (get_eng s e) else get_eng s e)"
    and "dev_rest (xdev s') = (dev_rest (xdev s))\<lparr>dflags := dflags (xdev s) OR XDEV_FLAG_OFFLINE\<rparr>"
    and "xdev_list s' = xdev_list s"
proof -
  define s0 where "s0 = xdma_device_flag_set XDEV_FLAG_OFFLINE s"
  define s1 where "s1 = fold (stop_for_offline E) (h2c_engines s0) s0"
  define s2 where "s2 = fold (stop_for_offline E) (c2h_engines s1) s1"
  have s': "s' = irq_teardown E (interrupts_off E s2)"
    using assms(1,2) by (simp add: s'_def xdma_device_offline_def Let_def s0_def s1_def s2_def)
  have 0: "get_eng s0 e = get_eng s e" "h2c_engines s0 = h2c_engines s" "c2h_engines s0 = c2h_engines s"
    "dev_rest (xdev s0) = (dev_rest (xdev s))\<lparr>dflags := dflags (xdev s) OR XDEV_FLAG_OFFLINE\<rparr>"
    "xdev_list s0 = xdev_list s" "xfers s0 = xfers s" for e
    by (simp_all add: s0_def xdma_device_flag_set_def h2c_engines_def c2h_engines_def dev_rest_def)
  have 1: "c2h_engines s1 = c2h_engines s"
    using dev_rest_eq(7) [OF fold_stop_effect(2) [of E "h2c_engines s0" s0]]
    by (simp add: c2h_engines_def s1_def) (simp add: s0_def xdma_device_flag_set_def)
  have 2: "s2 = fold (stop_for_offline E) (h2c_engines s @ c2h_engines s) s0"
    unfolding s2_def 1 by (simp add: s1_def 0)
  have g: "get_eng s' e = get_eng s2 e" by (rule get_eng_xdev) (simp add: s')
  show "get_eng s' e = (if e \<in> set (h2c_engines s @ c2h_engines s) \<and> emagic (get_eng s e) = MAGIC_ENGINE
      then stopped (get_eng s e) else get_eng s e)"
    unfolding g 2 by (subst fold_stop_effect(1) [OF engines_distinct]) (simp add: 0)
  show "dev_rest (xdev s') = (dev_rest (xdev s))\<lparr>dflags := dflags (xdev s) OR XDEV_FLAG_OFFLINE\<rparr>"
    using 0(4) by (simp add: s' 2 fold_stop_effect(2))
  have "settled s2 s'" by (simp add: s' settled_irq_teardown settled_interrupts_off)
  then show "xdev_list s' = xdev_list s" using 0 by (simp add: settled_def 2 fold_stop_effect)
qed

lemma offline_flag:
  assumes "hndl \<noteq> 0" and "debug_check_dev_hndl p hndl s = Inr ()"
  shows "xdma_device_flag_check (xdma_device_offline E p hndl s) XDEV_FLAG_OFFLINE"
proof -
  have "dflags (dev_rest (xdev (xdma_device_offline E p hndl s))) = dflags (xdev s) OR XDEV_FLAG_OFFLINE"
    by (simp add: offline_effect(2) [OF assms])
  then have "dflags (xdev (xdma_device_offline E p hndl s)) = dflags (xdev s) OR XDEV_FLAG_OFFLINE"
    by (simp add: dev_rest_def)
  then show ?thesis by (simp add: xdma_device_flag_check_def XDEV_FLAG_OFFLINE_def word_ao_dist)
qed

lemma offline_refuses: "xdma_device_flag_check s XDEV_FLAG_OFFLINE \<Longrightarrow> \<exists>rv. submit_check h ch w s = Inl rv"
  by (auto simp: submit_check_def check_engine_def split: sum.split)

text \<open>C14: after a device was taken off line no engine runs, every engine present has a shutdown request
  pending, and no transfer gets in any more: every queueing is refused without effect and every
  submission fails its checks.  The transfers queued before stay queued.\<close>

theorem xdma_device_offline_quiesces:
  fixes E :: env and s :: world
  assumes "hndl \<noteq> 0" and "debug_check_dev_hndl p hndl s = Inr ()"
  defines "s' \<equiv> xdma_device_offline E p hndl s"
  shows "(\<forall>e \<in> set (h2c_engines s @ c2h_engines s). emagic (get_eng s e) = MAGIC_ENGINE \<longrightarrow>
        \<not> running (get_eng s' e) \<and> shutdown (get_eng s' e) AND ENGINE_SHUTDOWN_REQUEST \<noteq> 0)
    \<and> (\<forall>e. transfer_list (get_eng s' e) = transfer_list (get_eng s e))
    \<and> (\<forall>e x. \<exists>rv. transfer_queue E (Some e) (Some x) s' = (Inl rv, s'))
    \<and> (\<forall>h ch w. \<exists>rv. submit_check h ch w s' = Inl rv)"
proof -
  note o = offline_effect [OF assms(1,2), of E, folded s'_def]
  have f: "xdma_device_flag_check s' XDEV_FLAG_OFFLINE" unfolding s'_def by (rule offline_flag [OF assms(1,2)])
  have r: "(v OR ENGINE_SHUTDOWN_REQUEST) AND ENGINE_SHUTDOWN_REQUEST \<noteq> 0" for v
    by (simp add: ENGINE_SHUTDOWN_REQUEST_def word_ao_dist)
  have "\<exists>rv. transfer_queue E (Some e) (Some x) s' = (Inl rv, s')" for e x
    using f by (auto simp: transfer_queue.simps)
  moreover note offline_refuses [OF f]
  ultimately show ?thesis using r by (auto simp: o(1) stopped_def)
qed

theorem xdma_device_offline_quiesces_witness:
  "\<exists>rv. transfer_queue env0 (Some (H2C 0)) (Some (0, 0))
     (xdma_device_offline env0 1 1 (world0\<lparr>xdev_list := [(1, 1, 0)]\<rparr>)) =
     (Inl rv, xdma_device_offline env0 1 1 (world0\<lparr>xdev_list := [(1, 1, 0)]\<rparr>))"
  using xdma_device_offline_quiesces [of 1 1 "world0\<lparr>xdev_list := [(1, 1, 0)]\<rparr>" env0]
  by (simp add: debug_check_dev_hndl_def xdev_find_by_pdev_def)


section \<open>On line again\<close>

text \<open>Requesting the interrupts changes nothing of an engine but its line.\<close>

lemma request_engine_lines:
  "\<exists>L. \<forall>e. get_eng (snd (request_engine_irqs E es s)) e = (get_eng s e)\<lparr>msix_irq_line := L e\<rparr>"
proof (induction es arbitrary: s)
  case Nil
  show ?case by (intro exI [of _ "\<lambda>e. msix_irq_line (get_eng s e)"]) simp
next
  case (Cons p es)
  obtain e i where p: "p = (e, i)" by fastforce
  let ?s1 = "snd (kcall E ''pci_irq_vector'' [int i] s)"
  let ?v = "fst (kcall E ''pci_irq_vector'' [int i] s)"
  let ?s2 = "snd (kcall E ''request_irq'' (?v # irq_cookie e) ?s1)"
  show ?case
  proof (cases "fst (kcall E ''request_irq'' (?v # irq_cookie e) ?s1) = 0")
    case False
    then have "snd (request_engine_irqs E (p # es) s) = ?s2"
      by (simp add: p request_engine_irqs.simps split_beta Let_def)
    then show ?thesis by (intro exI [of _ "\<lambda>e. msix_irq_line (get_eng s e)"]) simp
  next
    case True
    let ?s3 = "upd_eng e (\<lambda>g. g\<lparr>msix_irq_line := ?v\<rparr>) ?s2"
    have r: "snd (request_engine_irqs E (p # es) s) = snd (request_engine_irqs E es ?s3)"
      using True by (simp add: p request_engine_irqs.simps split_beta Let_def)
    obtain L where "\<forall>e'. get_eng (snd (request_engine_irqs E es ?s3)) e' = (get_eng ?s3 e')\<lparr>msix_irq_line := L e'\<rparr>"
      using Cons.IH by blast
    then have "\<forall>e'. get_eng (snd (request_engine_irqs E (p # es) s)) e' = (get_eng s e')\<lparr>msix_irq_line := L e'\<rparr>"
      by (simp add: r)
    then show ?thesis by blast
  qed
qed

lemma user_setup_xdev: "xdev (snd (irq_msix_user_setup E s)) = xdev s"
proof -
  have "xdev (snd (snd (request_user_irqs E j i n t))) = xdev t" for j i n t
    by (induction n arbitrary: i t) (simp_all add: split_beta Let_def)
  then show ?thesis by (simp add: irq_msix_user_setup_def split_beta Let_def split: sum.split)
qed

lemma irq_setup_lines:
  "\<exists>L. \<forall>e. get_eng (snd (irq_setup E s)) e = (get_eng s e)\<lparr>msix_irq_line := L e\<rparr>"
proof -
  let ?s = "pci_keep_intx_enabled E s"
  define s1 where "s1 = snd (irq_msix_channel_setup E ?s)"
  have same: "\<exists>L. \<forall>e. get_eng t e = (get_eng s e)\<lparr>msix_irq_line := L e\<rparr>" if "\<And>e. get_eng t e = get_eng s e" for t
    using that by (intro exI [of _ "\<lambda>e. msix_irq_line (get_eng s e)"]) simp
  have l1: "\<exists>L. \<forall>e. get_eng s1 e = (get_eng s e)\<lparr>msix_irq_line := L e\<rparr>"
    using request_engine_lines [of E "channel_vectors ?s" ?s] same
    by (cases "msix_enabled (xdev ?s)") (simp_all add: s1_def irq_msix_channel_setup_def)
  have u: "get_eng (snd (irq_msix_user_setup E s1)) e = get_eng s1 e" for e
    by (rule get_eng_xdev) (rule user_setup_xdev)
  have d: "get_eng (snd (request_dev_irq E fl t)) e = get_eng t e" for fl t e
    by (simp add: request_dev_irq_def split_beta Let_def)
  have lv: "get_eng (legacy_vectors v t) e = get_eng t e" for v t e
    by (rule get_eng_xdev) simp
  show ?thesis
  proof (cases "msix_enabled (xdev s)")
    case True
    have "get_eng (snd (irq_setup E s)) e = get_eng s1 e" for e
      using True u [of e]
      by (auto simp: irq_setup_def Let_def s1_def split: prod.split sum.split)
    with l1 show ?thesis by simp
  next
    case False
    then have "get_eng (snd (irq_setup E s)) e = get_eng s e" for e
      by (auto simp: irq_setup_def Let_def irq_msi_setup_def irq_legacy_setup_def d lv split_beta)
    then show ?thesis by (rule same)
  qed
qed


text \<open>What queueing looks at in an engine, and the transfers waiting there.\<close>

definition queue_view :: "xdma_engine \<Rightarrow> u64 \<times> bool \<times> u32 \<times> xref list" where
  "queue_view g = (emagic g, running g, shutdown g, transfer_list g)"

lemma init_regs_view:
  "queue_view (get_eng (engine_init_regs E e s) e') = queue_view (get_eng s e')"
proof (cases "e' = e")
  case True
  then show ?thesis
    by (simp add: engine_init_regs_def engine_writeback_setup_def engine_alignments_def Let_def split_beta
        queue_view_def)
next
  case False
  then show ?thesis using touches_regs [of e s E] by (simp add: touches_def)
qed

lemma reinit_effect:
  "queue_view (get_eng (reinit_for_online E e s) e') =
     (if e' = e \<and> emagic (get_eng s e) = MAGIC_ENGINE
      then queue_view ((get_eng s e')\<lparr>shutdown := shutdown (get_eng s e') AND NOT ENGINE_SHUTDOWN_REQUEST\<rparr>)
      else queue_view (get_eng s e'))"
  "dev_rest (xdev (reinit_for_online E e s)) = dev_rest (xdev s)"
  "xdev_list (reinit_for_online E e s) = xdev_list s"
proof -
  have v: "queue_view (get_eng (engine_init_regs E e s) e') = queue_view (get_eng s e')"
    by (rule init_regs_view)
  have t: "dev_rest (xdev (engine_init_regs E e s)) = dev_rest (xdev s)" "xdev_list (engine_init_regs E e s) = xdev_list s"
    using touches_regs [of e s E] by (simp_all add: touches_def)
  show "dev_rest (xdev (reinit_for_online E e s)) = dev_rest (xdev s)"
    "xdev_list (reinit_for_online E e s) = xdev_list s" by (simp_all add: reinit_for_online_def t)
  show "queue_view (get_eng (reinit_for_online E e s) e') =
     (if e' = e \<and> emagic (get_eng s e) = MAGIC_ENGINE
      then queue_view ((get_eng s e')\<lparr>shutdown := shutdown (get_eng s e') AND NOT ENGINE_SHUTDOWN_REQUEST\<rparr>)
      else queue_view (get_eng s e'))"
    using v by (auto simp: reinit_for_online_def queue_view_def)
qed

lemma fold_reinit_effect:
  "distinct es \<Longrightarrow> queue_view (get_eng (fold (reinit_for_online E) es s) e) =
     (if e \<in> set es \<and> emagic (get_eng s e) = MAGIC_ENGINE
      then queue_view ((get_eng s e)\<lparr>shutdown := shutdown (get_eng s e) AND NOT ENGINE_SHUTDOWN_REQUEST\<rparr>)
      else queue_view (get_eng s e))"
  "dev_rest (xdev (fold (reinit_for_online E) es s)) = dev_rest (xdev s)"
  "xdev_list (fold (reinit_for_online E) es s) = xdev_list s"
proof (induction es arbitrary: s)
  case (Cons a es)
  {
    case 1
    let ?s = "reinit_for_online E a s"
    have q: "queue_view (get_eng ?s e) = (if e = a \<and> emagic (get_eng s a) = MAGIC_ENGINE
        then queue_view ((get_eng s e)\<lparr>shutdown := shutdown (get_eng s e) AND NOT ENGINE_SHUTDOWN_REQUEST\<rparr>)
        else queue_view (get_eng s e))" by (rule reinit_effect(1))
    then have m: "emagic (get_eng ?s e) = emagic (get_eng s e)" by (auto simp: queue_view_def split: if_splits)
    show ?case
    proof (cases "e = a")
      case True
      with Cons.IH(1) [of ?s] 1 q show ?thesis by simp
    next
      case False
      with q have "queue_view (get_eng ?s e) = queue_view (get_eng s e)" by simp
      then have "queue_view ((get_eng ?s e)\<lparr>shutdown := shutdown (get_eng ?s e) AND NOT ENGINE_SHUTDOWN_REQUEST\<rparr>)
          = queue_view ((get_eng s e)\<lparr>shutdown := shutdown (get_eng s e) AND NOT ENGINE_SHUTDOWN_REQUEST\<rparr>)"
        by (simp add: queue_view_def)
      with Cons.IH(1) [of ?s] 1 False m \<open>queue_view (get_eng ?s e) = queue_view (get_eng s e)\<close>
      show ?thesis by simp
    qed
  next
    case 2
    show ?case by (simp add: Cons.IH(2) reinit_effect)
  next
    case 3
    show ?case by (simp add: Cons.IH(3) reinit_effect)
  }
qed simp_all

lemma online_effect:
  fixes E :: env and s :: world
  assumes "hndl \<noteq> 0" and "debug_check_dev_hndl p hndl s = Inr ()"
  defines "s' \<equiv> xdma_device_online E p hndl s"
  shows "queue_view (get_eng s' e) =
     (if e \<in> set (h2c_engines s @ c2h_engines s) \<and> emagic (get_eng s e) = MAGIC_ENGINE
      then queue_view ((get_eng s e)\<lparr>shutdown := shutdown (get_eng s e) AND NOT ENGINE_SHUTDOWN_REQUEST\<rparr>)
      else queue_view (get_eng s e))"
    and "\<not> xdma_device_flag_check s' XDEV_FLAG_OFFLINE"
proof -
  define s1 where "s1 = fold (reinit_for_online E) (h2c_engines s) s"
  define s2 where "s2 = fold (reinit_for_online E) (c2h_engines s1) s1"
  define s3 where "s3 = (if poll_mode E = 0
      then snd (read_interrupts E (user_interrupts_enable
             (mask_irq_user (xdev (channel_interrupts_enable (NOT 0) (snd (irq_setup E s2)))))
             (channel_interrupts_enable (NOT 0) (snd (irq_setup E s2))))) else s2)"
  have s': "s' = xdma_device_flag_clear XDEV_FLAG_OFFLINE s3"
    using assms(1,2) by (simp add: s'_def xdma_device_online_def Let_def s1_def s2_def s3_def)
  show "\<not> xdma_device_flag_check s' XDEV_FLAG_OFFLINE" unfolding s' by (rule flag_check_clear)
  have 1: "c2h_engines s1 = c2h_engines s"
    using dev_rest_eq(7) [OF fold_reinit_effect(2) [of E "h2c_engines s" s]] by (simp add: c2h_engines_def s1_def)
  have 2: "s2 = fold (reinit_for_online E) (h2c_engines s @ c2h_engines s) s"
    unfolding s2_def 1 by (simp add: s1_def)
  obtain L where "\<forall>e. get_eng (snd (irq_setup E s2)) e = (get_eng s2 e)\<lparr>msix_irq_line := L e\<rparr>"
    using irq_setup_lines by blast
  then have "queue_view (get_eng s3 e) = queue_view (get_eng s2 e)"
    by (simp add: s3_def read_interrupts_def split_beta user_interrupts_enable_def queue_view_def)
  then have "queue_view (get_eng s' e) = queue_view (get_eng s2 e)"
    by (simp add: s' xdma_device_flag_clear_def)
  also have "\<dots> = (if e \<in> set (h2c_engines s @ c2h_engines s) \<and> emagic (get_eng s e) = MAGIC_ENGINE
      then queue_view ((get_eng s e)\<lparr>shutdown := shutdown (get_eng s e) AND NOT ENGINE_SHUTDOWN_REQUEST\<rparr>)
      else queue_view (get_eng s e))"
    unfolding 2 by (rule fold_reinit_effect(1) [OF engines_distinct])
  finally show "queue_view (get_eng s' e) =
     (if e \<in> set (h2c_engines s @ c2h_engines s) \<and> emagic (get_eng s e) = MAGIC_ENGINE
      then queue_view ((get_eng s e)\<lparr>shutdown := shutdown (get_eng s e) AND NOT ENGINE_SHUTDOWN_REQUEST\<rparr>)
      else queue_view (get_eng s e))" .
qed

text \<open>
  Off line and on line again, whether or not the interrupts could be requested again and whatever else
  happened to the bus in between: every engine present is open for transfers, idle, and has the transfers
  queued before.
\<close>

lemma offline_online_reopens:
  fixes E :: env and s :: world
  assumes "hndl \<noteq> 0" and "debug_check_dev_hndl p hndl s = Inr ()"
    and "e \<in> set (h2c_engines s @ c2h_engines s)" and "emagic (get_eng s e) = MAGIC_ENGINE"
    and "xdev t = xdev (xdma_device_offline E p hndl s)" "xdev_list t = xdev_list (xdma_device_offline E p hndl s)"
  defines "s' \<equiv> xdma_device_online E p hndl t"
  shows "queue_open s' e \<and> \<not> running (get_eng s' e) \<and> transfer_list (get_eng s' e) = transfer_list (get_eng s e)"
proof -
  note o = offline_effect [OF assms(1,2), of E]
  have c: "debug_check_dev_hndl p hndl t = Inr ()"
    using assms(2,6) debug_check_cong [of t s] o(3) by simp
  have d: "h2c_channel_max (xdev t) = h2c_channel_max (xdev s)" "c2h_channel_max (xdev t) = c2h_channel_max (xdev s)"
    using arg_cong [OF o(2), of h2c_channel_max] arg_cong [OF o(2), of c2h_channel_max]
    by (simp_all add: dev_rest_def assms(5))
  have g: "get_eng t e = stopped (get_eng s e)"
    using assms(3,4) get_eng_xdev [OF assms(5), of e] by (simp add: o(1))
  note n1 = online_effect(1) [OF assms(1) c, where E = E and e = e]
  note n2 = online_effect(2) [OF assms(1) c, where E = E]
  have "queue_view (get_eng s' e) = queue_view ((get_eng t e)\<lparr>shutdown := shutdown (get_eng t e) AND NOT ENGINE_SHUTDOWN_REQUEST\<rparr>)"
    using n1 assms(3,4) by (simp add: s'_def g h2c_engines_def c2h_engines_def d)
  then have q: "running (get_eng s' e) = False" "transfer_list (get_eng s' e) = transfer_list (get_eng s e)"
    "shutdown (get_eng s' e) = shutdown (stopped (get_eng s e)) AND NOT ENGINE_SHUTDOWN_REQUEST"
    by (simp_all add: queue_view_def g) (simp add: stopped_def)
  show ?thesis
    using n2 q by (simp add: queue_open_def s'_def and.assoc)
qed

section \<open>Interrupt lines in polled mode\<close>

lemma irq_held_io [simp]:
  "irq_held k (mem_write v a s) = irq_held k s" "irq_held k (eng_write v e f s) = irq_held k s"
  "irq_held k (sg_write v e f s) = irq_held k s" "irq_held k (snd (eng_read E e f s)) = irq_held k s"
  "irq_held k (snd (read_register E a s)) = irq_held k s"
  by (simp_all add: mem_write_def eng_write_def sg_write_def eng_read_def irq_delta_def)

lemma irq_held_read [simp]: "irq_delta k (IoRead a v) = 0"
  by (simp add: irq_delta_def)

lemma irq_held_off [simp]: "irq_held k (interrupts_off E s) = irq_held k s"
  by (simp add: interrupts_off_def Let_def read_interrupts_def split_beta int_enable_defs)

lemma irq_held_stop [simp]: "irq_held k (fold (stop_for_offline E) es s) = irq_held k s"
  by (induction es arbitrary: s) (simp_all add: stop_for_offline_def xdma_engine_stop.simps Let_def)

lemma irq_held_reinit [simp]: "irq_held k (fold (reinit_for_online E) es s) = irq_held k s"
proof -
  have "irq_held k (engine_init_regs E e t) = irq_held k t" for e t
    by (simp add: engine_init_regs_def engine_writeback_setup_def engine_alignments_def Let_def split_beta)
  then show ?thesis by (induction es arbitrary: s) (simp_all add: reinit_for_online_def)
qed

text \<open>In polled mode a reset releases the interrupt line of the device but does not request it again,
  so the next time the device goes off line the line is released once more: two releases for one
  request.\<close>

theorem poll_mode_double_release:
  fixes E :: env and s :: world
  assumes "hndl \<noteq> 0" and "debug_check_dev_hndl p hndl s = Inr ()" and "poll_mode E \<noteq> 0"
    and "\<not> msix_enabled (xdev s)" and "irq_line (xdev s) \<noteq> - 1"
  defines "k \<equiv> [irq_line (xdev s), 3, int (self (xdev s))]"
  shows "irq_held k (xdma_device_offline E p hndl (xdma_device_online E p hndl (xdma_device_offline E p hndl s)))
    = irq_held k s - 2"
proof -
  have off: "irq_held k (xdma_device_offline E p hndl t) = irq_held k t - 1"
    if "debug_check_dev_hndl p hndl t = Inr ()" "msix_enabled (xdev t) = msix_enabled (xdev s)"
      "irq_line (xdev t) = irq_line (xdev s)" "self (xdev t) = self (xdev s)" for t
  proof -
    define s0 where "s0 = xdma_device_flag_set XDEV_FLAG_OFFLINE t"
    define s1 where "s1 = fold (stop_for_offline E) (h2c_engines s0) s0"
    define s2 where "s2 = fold (stop_for_offline E) (c2h_engines s1) s1"
    have "dev_rest (xdev s2) = dev_rest (xdev s0)" by (simp add: s2_def s1_def fold_stop_effect)
    note d = dev_rest_eq [OF this]
    have "irq_held k (irq_teardown E (interrupts_off E s2)) = irq_held k s2 - 1"
      using assms(4,5) that d
      by (simp add: irq_teardown_def free_irq_def k_def s0_def xdma_device_flag_set_def)
    moreover have "irq_held k s2 = irq_held k t" by (simp add: s2_def s1_def s0_def xdma_device_flag_set_def)
    ultimately show ?thesis
      using that(1) assms(1) by (simp add: xdma_device_offline_def Let_def s0_def s1_def s2_def)
  qed
  define s1 where "s1 = xdma_device_offline E p hndl s"
  define s2 where "s2 = xdma_device_online E p hndl s1"
  note o = offline_effect [OF assms(1,2), of E, folded s1_def]
  have c1: "debug_check_dev_hndl p hndl s1 = Inr ()" using assms(2) debug_check_cong [OF o(3)] by simp
  have x1: "msix_enabled (xdev s1) = msix_enabled (xdev s)" "irq_line (xdev s1) = irq_line (xdev s)"
    "self (xdev s1) = self (xdev s)"
    using arg_cong [OF o(2), of msix_enabled] arg_cong [OF o(2), of irq_line] arg_cong [OF o(2), of self]
    by (simp_all add: dev_rest_def)
  have s2: "s2 = xdma_device_flag_clear XDEV_FLAG_OFFLINE (fold (reinit_for_online E)
      (c2h_engines (fold (reinit_for_online E) (h2c_engines s1) s1)) (fold (reinit_for_online E) (h2c_engines s1) s1))"
    using assms(1,3) c1 by (simp add: s2_def xdma_device_online_def Let_def)
  have d2: "dev_rest (xdev (fold (reinit_for_online E) es (fold (reinit_for_online E) es' s1))) = dev_rest (xdev s1)"
    for es es' by (simp add: fold_reinit_effect)
  note x2 = dev_rest_eq [OF d2]
  have c2: "debug_check_dev_hndl p hndl s2 = Inr ()"
    using c1 debug_check_cong [of s2 s1] by (simp add: s2 fold_reinit_effect xdma_device_flag_clear_def)
  have "irq_held k (xdma_device_offline E p hndl s2) = irq_held k s2 - 1"
    using c2 x1 by (intro off) (simp_all add: s2 x2 xdma_device_flag_clear_def)
  moreover have "irq_held k s2 = irq_held k s1" by (simp add: s2 xdma_device_flag_clear_def)
  moreover have "irq_held k s1 = irq_held k s - 1" unfolding s1_def using assms(2) by (intro off) simp_all
  ultimately show ?thesis by (simp add: s2_def s1_def)
qed

definition polled_world :: world where
  "polled_world = upd_xdev (\<lambda>d. d\<lparr>irq_line := 11\<rparr>) (world0\<lparr>xdev_list := [(1, 1, 0)]\<rparr>)"

theorem poll_mode_double_release_witness:
  "irq_held [11, 3, 1] (xdma_device_offline (env0\<lparr>poll_mode := 1\<rparr>) 1 1 (xdma_device_online (env0\<lparr>poll_mode := 1\<rparr>) 1 1
     (xdma_device_offline (env0\<lparr>poll_mode := 1\<rparr>) 1 1 polled_world))) = - 2"
proof -
  have w: "debug_check_dev_hndl 1 1 polled_world = Inr ()" "\<not> msix_enabled (xdev polled_world)"
    "irq_line (xdev polled_world) = 11" "self (xdev polled_world) = 1" "trace polled_world = []"
    by (simp_all add: polled_world_def debug_check_dev_hndl_def xdev_find_by_pdev_def world0_def xdev0_def)
  from poll_mode_double_release [of 1 1 polled_world "env0\<lparr>poll_mode := 1\<rparr>"] w show ?thesis
    by (simp add: irq_held_start)
qed

section \<open>Handlers\<close>

lemma isr_register_loop_effect:
  "xdev (isr_register_loop h dev i n m s) = (xdev s)\<lparr>user_irq := (\<lambda>u. if i \<le> u \<and> u < i + n \<and> bit m u
     then (user_irq (xdev s) u)\<lparr>handler := h, irq_dev := dev\<rparr> else user_irq (xdev s) u)\<rparr>"
proof (induction n arbitrary: i m s)
  case 0
  show ?case unfolding isr_register_loop.simps by (rule user_irq_same) auto
next
  case (Suc n)
  have b: "push_bit i 1 AND m = 0 \<longleftrightarrow> \<not> bit m i"
    using push_bit_test [of m i] by (simp add: and.commute)
  consider "m = 0" | "m \<noteq> 0" "bit m i" | "m \<noteq> 0" "\<not> bit m i" by blast
  then show ?case
  proof cases
    case 1
    then have "isr_register_loop h dev i (Suc n) m s = s" by simp
    then show ?thesis using 1 by (simp only:) (rule user_irq_same, simp)
  next
    case 2
    let ?s = "upd_xdev (\<lambda>d. d\<lparr>user_irq := (user_irq d)(i := (user_irq d i)\<lparr>handler := h, irq_dev := dev\<rparr>)\<rparr>) s"
    let ?m = "m AND NOT (push_bit i 1)"
    have "isr_register_loop h dev i (Suc n) m s = isr_register_loop h dev (i + 1) n ?m ?s"
      using 2 b by (simp only: isr_register_loop.simps if_False simp_thms)
    then have x: "xdev (isr_register_loop h dev i (Suc n) m s) = (xdev ?s)\<lparr>user_irq := (\<lambda>u.
        if i + 1 \<le> u \<and> u < i + 1 + n \<and> bit ?m u
        then (user_irq (xdev ?s) u)\<lparr>handler := h, irq_dev := dev\<rparr> else user_irq (xdev ?s) u)\<rparr>"
      by (simp only: Suc.IH)
    have r: "bit ?m u \<longleftrightarrow> bit m u" if "i + 1 \<le> u" for u
      using that by (auto simp: bit_simps dest: bit_imp_le_length)
    have "(\<lambda>u. if i + 1 \<le> u \<and> u < i + 1 + n \<and> bit ?m u
        then (user_irq (xdev ?s) u)\<lparr>handler := h, irq_dev := dev\<rparr> else user_irq (xdev ?s) u)
      = (\<lambda>u. if i \<le> u \<and> u < i + Suc n \<and> bit m u
        then (user_irq (xdev s) u)\<lparr>handler := h, irq_dev := dev\<rparr> else user_irq (xdev s) u)"
      using 2 r by (intro ext) (auto simp: not_less_eq_eq Suc_le_eq dest: le_neq_implies_less)
    from x [unfolded this] show ?thesis by simp
  next
    case 3
    then have "isr_register_loop h dev i (Suc n) m s = isr_register_loop h dev (i + 1) n m s"
      using b by (simp only: isr_register_loop.simps if_False if_True simp_thms)
    moreover have "(\<lambda>u. if i + 1 \<le> u \<and> u < i + 1 + n \<and> bit m u
        then (user_irq (xdev s) u)\<lparr>handler := h, irq_dev := dev\<rparr> else user_irq (xdev s) u)
      = (\<lambda>u. if i \<le> u \<and> u < i + Suc n \<and> bit m u
        then (user_irq (xdev s) u)\<lparr>handler := h, irq_dev := dev\<rparr> else user_irq (xdev s) u)"
      using 3 by (intro ext) (auto simp: not_less_eq_eq le_less)
    ultimately show ?thesis by (simp add: Suc.IH)
  qed
qed

text \<open>Registering a handler sets it for exactly the user interrupts of the mask below the maximum and
  changes nothing else; on a handle that is not a registered device it is refused.\<close>

theorem xdma_user_isr_register_spec:
  "xdma_user_isr_register hndl m h dev s =
     (if check_dev hndl s then (Inr (), snd (xdma_user_isr_register hndl m h dev s)) else (Inl EINVAL, s))
   \<and> (check_dev hndl s \<longrightarrow> xdev (snd (xdma_user_isr_register hndl m h dev s)) = (xdev s)\<lparr>user_irq := (\<lambda>u.
        if u < user_max (xdev s) \<and> bit m u
        then (user_irq (xdev s) u)\<lparr>handler := h, irq_dev := dev\<rparr> else user_irq (xdev s) u)\<rparr>)"
  by (simp add: xdma_user_isr_register_def isr_register_loop_effect)

theorem xdma_user_isr_register_spec_witness:
  "check_dev 1 idle_world \<and> handler (user_irq (xdev (snd (xdma_user_isr_register 1 5 (Some 3) 0 idle_world))) 2) = Some 3"
proof -
  have c: "check_dev 1 idle_world" "user_max (xdev idle_world) = 16"
    by (simp_all add: check_dev_def debug_check_dev_hndl_def xdev_find_by_pdev_def idle_world_def xdev0_def)
  have "bit (5 :: u32) 2" by code_simp
  with c xdma_user_isr_register_spec [of 1 5 "Some 3" 0 idle_world] show ?thesis by simp
qed

end
