(* ===== verification/Cdev.thy ===== *)
theory Cdev
  imports Reset
begin

text \<open>
  The character devices of a board (\<open>xdma_cdev.c\<close>, \<open>xdma_mod.h\<close>): the checks every file operation
  starts with, creating and destroying one device node, and creating and destroying all of them.
\<close>

section \<open>Device nodes\<close>

text \<open>The enumerators of \<open>cdev_type\<close> and \<open>xpdev_flags_bits\<close>, and their numbers.\<close>

datatype cdev_type = CHAR_USER | CHAR_CTRL | CHAR_XVC | CHAR_EVENTS | CHAR_XDMA_H2C | CHAR_XDMA_C2H
  | CHAR_BYPASS_H2C | CHAR_BYPASS_C2H | CHAR_BYPASS

fun cdev_type_code :: "cdev_type \<Rightarrow> int" where
  "cdev_type_code CHAR_USER = 0"
| "cdev_type_code CHAR_CTRL = 1"
| "cdev_type_code CHAR_XVC = 2"
| "cdev_type_code CHAR_EVENTS = 3"
| "cdev_type_code CHAR_XDMA_H2C = 4"
| "cdev_type_code CHAR_XDMA_C2H = 5"
| "cdev_type_code CHAR_BYPASS_H2C = 6"
| "cdev_type_code CHAR_BYPASS_C2H = 7"
| "cdev_type_code CHAR_BYPASS = 8"

datatype xpdev_flags_bits = XDF_CDEV_USER | XDF_CDEV_CTRL | XDF_CDEV_XVC | XDF_CDEV_EVENT | XDF_CDEV_SG
  | XDF_CDEV_BYPASS

fun xpdev_flag_bit :: "xpdev_flags_bits \<Rightarrow> nat" where
  "xpdev_flag_bit XDF_CDEV_USER = 0"
| "xpdev_flag_bit XDF_CDEV_CTRL = 1"
| "xpdev_flag_bit XDF_CDEV_XVC = 2"
| "xpdev_flag_bit XDF_CDEV_EVENT = 3"
| "xpdev_flag_bit XDF_CDEV_SG = 4"
| "xpdev_flag_bit XDF_CDEV_BYPASS = 5"

text \<open>
  A character device.  \<open>cd_xdev\<close> says whether the pointer to the device is set; the device number is the
  pair of major and minor number; the embedded kernel structures belong to the kernel.
\<close>

record xdma_cdev =
  cd_magic :: u64
  cd_xdev :: bool
  cdevno :: "int \<times> int"
  cd_bar :: int
  cd_base :: u64
  cd_engine :: "eref option"
  cd_user_irq :: "nat option"
  sys_device :: bool

definition cdev_zero :: xdma_cdev where
  "cdev_zero = \<lparr>cd_magic = 0, cd_xdev = False, cdevno = (0, 0), cd_bar = 0, cd_base = 0, cd_engine = None,
     cd_user_irq = None, sys_device = False\<rparr>"

text \<open>The character devices embedded in the per-board structure, by the field they are in.\<close>

datatype xcref = Ctrl_cdev | Sgdma_c2h nat | Sgdma_h2c nat | Events_cdev nat | User_cdev | Bypass_c2h nat
  | Bypass_h2c nat | Bypass_base | Xvc_cdev

record xdma_pci_dev =
  xp_magic :: u64
  xp_pdev :: nat
  xp_xdev :: nat
  xp_major :: int
  xp_user_max :: nat
  xp_c2h_channel_max :: nat
  xp_h2c_channel_max :: nat
  xp_flags :: u32
  xp_cdevs :: "xcref \<Rightarrow> xdma_cdev"

definition xpdev_flag_set :: "xpdev_flags_bits \<Rightarrow> xdma_pci_dev \<Rightarrow> xdma_pci_dev" where
  "xpdev_flag_set b xp = xp\<lparr>xp_flags := xp_flags xp OR push_bit (xpdev_flag_bit b) 1\<rparr>"

definition xcdev_flag_clear :: "xpdev_flags_bits \<Rightarrow> xdma_pci_dev \<Rightarrow> xdma_pci_dev" where
  "xcdev_flag_clear b xp = xp\<lparr>xp_flags := xp_flags xp AND NOT (push_bit (xpdev_flag_bit b) 1)\<rparr>"

definition xpdev_flag_test :: "xpdev_flags_bits \<Rightarrow> xdma_pci_dev \<Rightarrow> bool" where
  "xpdev_flag_test b xp \<longleftrightarrow> xp_flags xp AND push_bit (xpdev_flag_bit b) 1 \<noteq> 0"

section \<open>Checks and opening\<close>

text \<open>A file operation gets the device through \<open>private_data\<close>, which may be NULL.\<close>

definition xcdev_check :: "xdma_cdev option \<Rightarrow> bool \<Rightarrow> world \<Rightarrow> unit res" where
  "xcdev_check co engine_too s =
     (case co of
        None \<Rightarrow> Inl EINVAL
      | Some c \<Rightarrow>
          if cd_magic c \<noteq> MAGIC_CHAR then Inl EINVAL
          else if \<not> cd_xdev c \<or> xmagic (xdev s) \<noteq> MAGIC_DEVICE then Inl EINVAL
          else if engine_too
          then (case cd_engine c of
                  None \<Rightarrow> Inl EINVAL
                | Some e \<Rightarrow> if emagic (get_eng s e) \<noteq> MAGIC_ENGINE then Inl EINVAL else Inr ())
          else Inr ())"

text \<open>Opening returns the new \<open>private_data\<close> of the file, unchanged on an error.\<close>

definition char_open :: "xdma_cdev \<Rightarrow> xdma_cdev option \<Rightarrow> unit res \<times> xdma_cdev option" where
  "char_open c fp = (if cd_magic c \<noteq> MAGIC_CHAR then (Inl EINVAL, fp) else (Inr (), Some c))"

definition char_close :: "xdma_cdev option \<Rightarrow> world \<Rightarrow> unit res" where
  "char_close fp s =
     (case fp of
        None \<Rightarrow> Inl EINVAL
      | Some c \<Rightarrow>
          if cd_magic c \<noteq> MAGIC_CHAR then Inl EINVAL
          else if \<not> cd_xdev c then Inl EINVAL
          else if xmagic (xdev s) \<noteq> MAGIC_DEVICE then Inl EINVAL
          else Inr ())"

section \<open>One device node\<close>

definition XDMA_MINOR_BASE :: int where "XDMA_MINOR_BASE = 0"
definition XDMA_MINOR_COUNT :: int where "XDMA_MINOR_COUNT = 255"

text \<open>The channel number the names and the minor numbers use.\<close>

definition cdev_channel :: "eref option \<Rightarrow> world \<Rightarrow> int" where
  "cdev_channel eo s = (case eo of None \<Rightarrow> 0 | Some e \<Rightarrow> int (channel (get_eng s e)))"

text \<open>
  A node is named by a pattern of the table \<open>devnode_names\<close>, which has one per kind, filled in by the kernel
  with the index of the device and, for the kinds that occur more than once, a second number.
\<close>

definition config_kobject :: "env \<Rightarrow> xdma_cdev \<Rightarrow> cdev_type \<Rightarrow> world \<Rightarrow> unit res \<times> world" where
  "config_kobject E c type s =
     (if type \<in> {CHAR_XDMA_H2C, CHAR_XDMA_C2H, CHAR_BYPASS_H2C, CHAR_BYPASS_C2H} \<and> cd_engine c = None
      then (Inl EINVAL, s)
      else let ks = (if type = CHAR_EVENTS then [cd_bar c]
                     else if type \<in> {CHAR_BYPASS, CHAR_USER, CHAR_CTRL, CHAR_XVC} then []
                     else [cdev_channel (cd_engine c) s]);
               (rv, s) = kcall E ''kobject_set_name'' (cdev_type_code type # idx (xdev s) # ks) s
           in (if rv < 0 then Inl (kerr rv) else Inr (), s))"

text \<open>Major and minor number in one argument list.\<close>

definition no_arg :: "int \<times> int \<Rightarrow> int list" where
  "no_arg n = [fst n, snd n]"

text \<open>The class of the nodes exists from the loading of the module on.\<close>

definition create_sys_device :: "env \<Rightarrow> xdma_cdev \<Rightarrow> cdev_type \<Rightarrow> world \<Rightarrow> unit res \<times> xdma_cdev \<times> world" where
  "create_sys_device E c type s =
     (let k = (if type = CHAR_EVENTS then cd_bar c else cdev_channel (cd_engine c) s);
          (p, s) = kcall E ''device_create'' (no_arg (cdevno c) @ [cdev_type_code type, idx (xdev s), k]) s;
          c = c\<lparr>sys_device := (p \<noteq> 0)\<rparr>
      in (if p = 0 then Inl EPERM else Inr (), c, s))"

definition destroy_xcdev :: "xdma_cdev \<Rightarrow> world \<Rightarrow> unit res \<times> world" where
  "destroy_xcdev c s =
     (if cd_magic c \<noteq> MAGIC_CHAR then (Inl EINVAL, s)
      else if \<not> cd_xdev c then (Inl EINVAL, s)
      else if \<not> sys_device c then (Inl EINVAL, s)
      else (Inr (), emit (Kernel ''cdev_del'' (no_arg (cdevno c)) 0)
                     (emit (Kernel ''device_destroy'' (no_arg (cdevno c)) 0) s)))"

definition xvc_base :: u64 where "xvc_base = 0x40000"

text \<open>The minor number, and what the initialisation of each kind of node sets.\<close>

definition cdev_minor :: "cdev_type \<Rightarrow> int \<Rightarrow> int \<Rightarrow> int" where
  "cdev_minor type b ch =
     (case type of
        CHAR_XDMA_H2C \<Rightarrow> 32 + ch
      | CHAR_XDMA_C2H \<Rightarrow> 36 + ch
      | CHAR_EVENTS \<Rightarrow> 10 + b
      | CHAR_BYPASS_H2C \<Rightarrow> 64 + ch
      | CHAR_BYPASS_C2H \<Rightarrow> 68 + ch
      | CHAR_BYPASS \<Rightarrow> 100
      | _ \<Rightarrow> cdev_type_code type)"

definition cdev_event_init :: "xdma_cdev \<Rightarrow> xdma_cdev" where
  "cdev_event_init c = c\<lparr>cd_user_irq := Some (nat (cd_bar c))\<rparr>"

definition cdev_xvc_init :: "xdma_cdev \<Rightarrow> xdma_cdev" where
  "cdev_xvc_init c = c\<lparr>cd_base := xvc_base\<rparr>"

definition cdev_init_type :: "cdev_type \<Rightarrow> xdma_cdev \<Rightarrow> xdma_cdev" where
  "cdev_init_type type c =
     (case type of CHAR_EVENTS \<Rightarrow> cdev_event_init c | CHAR_XVC \<Rightarrow> cdev_xvc_init c | _ \<Rightarrow> c)"

definition set_cdev :: "xcref \<Rightarrow> xdma_cdev \<Rightarrow> xdma_pci_dev \<Rightarrow> xdma_pci_dev" where
  "set_cdev r c xp = xp\<lparr>xp_cdevs := (xp_cdevs xp)(r := c)\<rparr>"

definition unregister_region :: "int \<times> int \<Rightarrow> world \<Rightarrow> world" where
  "unregister_region n s = emit (Kernel ''unregister_chrdev_region'' (no_arg n @ [XDMA_MINOR_COUNT]) 0) s"

definition alloc_region :: "env \<Rightarrow> xdma_pci_dev \<Rightarrow> world \<Rightarrow> unit res \<times> xdma_pci_dev \<times> world" where
  "alloc_region E xp s =
     (if xp_major xp \<noteq> 0 then (Inr (), xp, s)
      else let (rv, s) = kcall E ''alloc_chrdev_region'' [XDMA_MINOR_BASE, XDMA_MINOR_COUNT] s
           in if rv \<noteq> 0 then (Inl (kerr rv), xp, s)
              else (Inr (), xp\<lparr>xp_major := kernel E (trace s) ''MAJOR'' []\<rparr>, s))"

definition create_xcdev ::
  "env \<Rightarrow> xcref \<Rightarrow> int \<Rightarrow> eref option \<Rightarrow> cdev_type \<Rightarrow> xdma_pci_dev \<times> world \<Rightarrow> unit res \<times> xdma_pci_dev \<times> world" where
  "create_xcdev E r b eo type = (\<lambda>(xp, s).
     case alloc_region E xp s of
       (Inl rv, xp, s) \<Rightarrow> (Inl rv, xp, s)
     | (Inr _, xp, s) \<Rightarrow>
         let c = (xp_cdevs xp r)\<lparr>cd_magic := MAGIC_CHAR, cd_xdev := (xp_xdev xp \<noteq> 0), cd_engine := eo, cd_bar := b\<rparr>
         in case config_kobject E c type s of
              (Inl rv, s) \<Rightarrow> (Inl rv, set_cdev r c xp, s)
            | (Inr _, s) \<Rightarrow>
                let c = cdev_init_type type c;
                    c = c\<lparr>cdevno := (xp_major xp, cdev_minor type b (cdev_channel eo s))\<rparr>;
                    (rv, s) = kcall E ''cdev_add'' (no_arg (cdevno c)) s
                in if rv < 0 then (Inl (kerr rv), set_cdev r c xp, unregister_region (cdevno c) s)
                   else case create_sys_device E c type s of
                          (Inl rv, c, s) \<Rightarrow>
                            (Inl rv, set_cdev r c xp,
                             unregister_region (cdevno c) (emit (Kernel ''cdev_del'' (no_arg (cdevno c)) 0) s))
                        | (Inr _, c, s) \<Rightarrow> (Inr (), set_cdev r c xp, s))"

section \<open>All device nodes\<close>

text \<open>A node to create: its place, BAR, engine and kind.\<close>

type_synonym cdev_spec = "xcref \<times> int \<times> eref option \<times> cdev_type"

fun create_each :: "env \<Rightarrow> cdev_spec list \<Rightarrow> xdma_pci_dev \<times> world \<Rightarrow> unit res \<times> xdma_pci_dev \<times> world" where
  "create_each E [] st = (Inr (), st)"
| "create_each E ((r, b, eo, type) # l) st =
     (case create_xcdev E r b eo type st of
        (Inl rv, st) \<Rightarrow> (Inl rv, st)
      | (Inr _, st) \<Rightarrow> create_each E l st)"

text \<open>
  The nodes come in groups; the flag of a group is set when all its nodes exist.  Engines that were not
  found are left out.
\<close>

fun create_stages ::
  "env \<Rightarrow> (cdev_spec list \<times> xpdev_flags_bits) list \<Rightarrow> xdma_pci_dev \<times> world \<Rightarrow> unit res \<times> xdma_pci_dev \<times> world" where
  "create_stages E [] st = (Inr (), st)"
| "create_stages E ((l, b) # gs) st =
     (case create_each E l st of
        (Inl rv, st) \<Rightarrow> (Inl rv, st)
      | (Inr _, xp, s) \<Rightarrow> create_stages E gs (xpdev_flag_set b xp, s))"

definition h2c_specs :: "(nat \<Rightarrow> xcref) \<Rightarrow> cdev_type \<Rightarrow> xdma_pci_dev \<Rightarrow> world \<Rightarrow> cdev_spec list" where
  "h2c_specs slot type xp s =
     map (\<lambda>i. (slot i, int i, Some (H2C i), type))
       (filter (\<lambda>i. emagic (get_eng s (H2C i)) = MAGIC_ENGINE) [0..<xp_h2c_channel_max xp])"

definition c2h_specs :: "(nat \<Rightarrow> xcref) \<Rightarrow> cdev_type \<Rightarrow> xdma_pci_dev \<Rightarrow> world \<Rightarrow> cdev_spec list" where
  "c2h_specs slot type xp s =
     map (\<lambda>i. (slot i, int i, Some (C2H i), type))
       (filter (\<lambda>i. emagic (get_eng s (C2H i)) = MAGIC_ENGINE) [0..<xp_c2h_channel_max xp])"

definition cdev_groups :: "xdma_pci_dev \<Rightarrow> world \<Rightarrow> (cdev_spec list \<times> xpdev_flags_bits) list" where
  "cdev_groups xp s =
     [([(Ctrl_cdev, config_bar_idx (xdev s), None, CHAR_CTRL)], XDF_CDEV_CTRL),
      (map (\<lambda>i. (Events_cdev i, int i, None, CHAR_EVENTS)) [0..<xp_user_max xp], XDF_CDEV_EVENT),
      (h2c_specs Sgdma_h2c CHAR_XDMA_H2C xp s @ c2h_specs Sgdma_c2h CHAR_XDMA_C2H xp s, XDF_CDEV_SG)] @
     (if 0 < bypass_bar_idx (xdev s)
      then [(h2c_specs Bypass_h2c CHAR_BYPASS_H2C xp s @ c2h_specs Bypass_c2h CHAR_BYPASS_C2H xp s @
             [(Bypass_base, bypass_bar_idx (xdev s), None, CHAR_BYPASS)], XDF_CDEV_BYPASS)]
      else []) @
     (if 0 \<le> user_bar_idx (xdev s)
      then [([(User_cdev, user_bar_idx (xdev s), None, CHAR_USER)], XDF_CDEV_USER),
            ([(Xvc_cdev, user_bar_idx (xdev s), None, CHAR_XVC)], XDF_CDEV_XVC)]
      else [])"

text \<open>Destroying, group by group as the flags say; a node that was never made is refused and left.\<close>

definition destroy_group :: "xdma_pci_dev \<Rightarrow> xpdev_flags_bits \<Rightarrow> xcref list \<Rightarrow> world \<Rightarrow> world" where
  "destroy_group xp b rs s =
     (if xpdev_flag_test b xp then fold (\<lambda>r s. snd (destroy_xcdev (xp_cdevs xp r) s)) rs s else s)"

definition xpdev_destroy_interfaces :: "xdma_pci_dev \<Rightarrow> world \<Rightarrow> world" where
  "xpdev_destroy_interfaces xp s =
     (let s = destroy_group xp XDF_CDEV_SG
                (map Sgdma_h2c [0..<xp_h2c_channel_max xp] @ map Sgdma_c2h [0..<xp_c2h_channel_max xp]) s;
          s = destroy_group xp XDF_CDEV_EVENT (map Events_cdev [0..<xp_user_max xp]) s;
          s = destroy_group xp XDF_CDEV_CTRL [Ctrl_cdev] s;
          s = destroy_group xp XDF_CDEV_USER [User_cdev] s;
          s = destroy_group xp XDF_CDEV_XVC [Xvc_cdev] s;
          s = destroy_group xp XDF_CDEV_BYPASS
                (map Bypass_h2c [0..<xp_h2c_channel_max xp] @ map Bypass_c2h [0..<xp_c2h_channel_max xp] @ [Bypass_base]) s
      in if xp_major xp \<noteq> 0 then unregister_region (xp_major xp, XDMA_MINOR_BASE) s else s)"

definition xpdev_create_interfaces :: "env \<Rightarrow> xdma_pci_dev \<Rightarrow> world \<Rightarrow> unit res \<times> xdma_pci_dev \<times> world" where
  "xpdev_create_interfaces E xp s =
     (case create_stages E (cdev_groups xp s) (xp, s) of
        (Inl rv, xp, s) \<Rightarrow> (Inl EPERM, xp, xpdev_destroy_interfaces xp s)
      | (Inr _, xp, s) \<Rightarrow> (Inr (), xp, s))"

section \<open>The module\<close>

text \<open>\<open>None\<close> when the class or the cache cannot be created.\<close>

definition xdma_cdev_init :: "env \<Rightarrow> world \<Rightarrow> unit res \<times> world" where
  "xdma_cdev_init E s =
     (let (p, s) = kcall E ''class_create'' [] s
      in if p < 0 then (Inl EINVAL, s)
         else let (p, s) = kcall E ''kmem_cache_create'' [] s in (if p = 0 then Inl ENOMEM else Inr (), s))"

definition xdma_cdev_cleanup :: "bool \<Rightarrow> bool \<Rightarrow> world \<Rightarrow> world" where
  "xdma_cdev_cleanup cache cls s =
     (let s = (if cache then emit (Kernel ''kmem_cache_destroy'' [] 0) s else s)
      in if cls then emit (Kernel ''class_destroy'' [] 0) s else s)"

section \<open>Creating and destroying\<close>

text \<open>How many nodes with a device number are live: successful additions minus deletions.\<close>

definition node_delta :: "int \<times> int \<Rightarrow> event \<Rightarrow> int" where
  "node_delta n ev = (case ev of Kernel f as r \<Rightarrow>
       if as \<noteq> no_arg n then 0
       else if f = ''cdev_add'' \<and> 0 \<le> r then 1
       else if f = ''cdev_del'' then - 1 else 0
     | _ \<Rightarrow> 0)"

definition live_nodes :: "int \<times> int \<Rightarrow> world \<Rightarrow> int" where
  "live_nodes n s = balance (node_delta n) s"

definition node_ready :: "xdma_cdev \<Rightarrow> bool" where
  "node_ready c \<longleftrightarrow> cd_magic c = MAGIC_CHAR \<and> cd_xdev c \<and> sys_device c"

definition node_weight :: "int \<times> int \<Rightarrow> xdma_cdev \<Rightarrow> int" where
  "node_weight n c = of_bool (node_ready c \<and> cdevno c = n)"

text \<open>What no creation changes: everything of the board but the flags, the major number and the nodes.\<close>

definition xp_same :: "xdma_pci_dev \<Rightarrow> xdma_pci_dev \<Rightarrow> bool" where
  "xp_same xp xp' \<longleftrightarrow> xp_xdev xp' = xp_xdev xp \<and> xp_user_max xp' = xp_user_max xp
     \<and> xp_h2c_channel_max xp' = xp_h2c_channel_max xp \<and> xp_c2h_channel_max xp' = xp_c2h_channel_max xp"

lemma live_frame [simp]:
  "live_nodes n (upd_eng e f s) = live_nodes n s" "live_nodes n (upd_xdev g s) = live_nodes n s"
  "live_nodes n (unregister_region m s) = live_nodes n s"
  "live_nodes n (emit ev s) = live_nodes n s + node_delta n ev"
  by (simp_all add: live_nodes_def unregister_region_def node_delta_def)

lemma live_kcall:
  "live_nodes n (snd (kcall E f as s)) = live_nodes n s + node_delta n (Kernel f as (fst (kcall E f as s)))"
  by (simp add: kcall_def Let_def live_nodes_def)

lemma kcall_xdev [simp]: "xdev (snd (kcall E f as s)) = xdev s"
  by (simp add: kcall_def Let_def)

lemma no_arg_inj: "no_arg m = no_arg n \<longleftrightarrow> m = n"
  by (cases m; cases n) (simp add: no_arg_def)

lemma destroy_xcdev_live: "live_nodes n (snd (destroy_xcdev c s)) = live_nodes n s - node_weight n c"
  by (auto simp: destroy_xcdev_def node_weight_def node_ready_def live_nodes_def node_delta_def no_arg_inj)

lemma config_kobject_effect:
  "live_nodes n (snd (config_kobject E c type s)) = live_nodes n s" "xdev (snd (config_kobject E c type s)) = xdev s"
  by (simp_all add: config_kobject_def split_beta Let_def live_kcall node_delta_def)

lemma alloc_region_effect:
  assumes "alloc_region E xp s = (rv, xp1, s1)"
  shows "live_nodes n s1 = live_nodes n s" "xdev s1 = xdev s" "xp_same xp xp1"
    "xp_cdevs xp1 = xp_cdevs xp" "xp_flags xp1 = xp_flags xp"
  using assms live_kcall [of n E "''alloc_chrdev_region''" "[XDMA_MINOR_BASE, XDMA_MINOR_COUNT]" s]
    kcall_xdev [of E "''alloc_chrdev_region''" "[XDMA_MINOR_BASE, XDMA_MINOR_COUNT]" s]
  by (auto simp: alloc_region_def xp_same_def node_delta_def split_beta split: if_splits)

lemma create_sys_device_effect:
  assumes "create_sys_device E c type s = (rv, c1, s1)"
  shows "live_nodes n s1 = live_nodes n s" "xdev s1 = xdev s" "c1 = c\<lparr>sys_device := (rv = Inr ())\<rparr>"
  using assms by (auto simp: create_sys_device_def split_beta Let_def live_kcall node_delta_def split: if_splits)

text \<open>
  Creating one node in a slot not used before: the slot is filled, the node in it is ready if and only if
  the creation succeeds, and one more node with its number is live then.
\<close>

lemma create_xcdev_effect:
  assumes "create_xcdev E r b eo type (xp, s) = (rv, xp', s')" and "xp_xdev xp \<noteq> 0" and "\<not> sys_device (xp_cdevs xp r)"
  shows "xp_same xp xp'" "xdev s' = xdev s" "xp_flags xp' = xp_flags xp"
    "\<exists>c. xp_cdevs xp' = (xp_cdevs xp)(r := c) \<and> (node_ready c \<longleftrightarrow> rv = Inr ())
       \<and> (\<forall>n. live_nodes n s' = live_nodes n s + node_weight n c)"
proof -
  obtain rv0 xp1 s1 where a: "alloc_region E xp s = (rv0, xp1, s1)" by (metis prod_cases3)
  note ae = alloc_region_effect [OF a]
  define c0 where "c0 = (xp_cdevs xp1 r)\<lparr>cd_magic := MAGIC_CHAR, cd_xdev := (xp_xdev xp1 \<noteq> 0), cd_engine := eo, cd_bar := b\<rparr>"
  obtain rv1 s2 where k: "config_kobject E c0 type s1 = (rv1, s2)" by fastforce
  note ke = config_kobject_effect [where E = E and c = c0 and type = type and s = s1, unfolded k snd_conv]
  define c1 where "c1 = (cdev_init_type type c0)\<lparr>cdevno := (xp_major xp1, cdev_minor type b (cdev_channel eo s2))\<rparr>"
  obtain rv2 s3 where d: "kcall E ''cdev_add'' (no_arg (cdevno c1)) s2 = (rv2, s3)" by fastforce
  obtain rv3 c2 s4 where y: "create_sys_device E c1 type s3 = (rv3, c2, s4)" by (metis prod_cases3)
  note ye = create_sys_device_effect [OF y]
  have l3: "live_nodes n s3 = live_nodes n s2 + of_bool (cdevno c1 = n \<and> 0 \<le> rv2)" for n
    using live_kcall [of n E "''cdev_add''" "no_arg (cdevno c1)" s2] by (simp add: d node_delta_def no_arg_inj)
  have x3: "xdev s3 = xdev s2" using kcall_xdev [of E "''cdev_add''" "no_arg (cdevno c1)" s2] by (simp add: d)
  have i: "cd_magic (cdev_init_type type c) = cd_magic c" "cd_xdev (cdev_init_type type c) = cd_xdev c"
    "sys_device (cdev_init_type type c) = sys_device c" for c
    by (simp_all add: cdev_init_type_def cdev_event_init_def cdev_xvc_init_def split: cdev_type.split)
  have new: "\<not> sys_device c0" "\<not> sys_device c1" using assms(3) ae(4) by (simp_all add: c0_def c1_def i)
  have old: "\<not> node_ready (xp_cdevs xp r)" using assms(3) by (simp add: node_ready_def)
  have w0: "node_weight n c = 0" if "\<not> node_ready c" for n c using that by (simp add: node_weight_def)
  have fin: "xp_same xp xp' \<and> xdev s' = xdev s \<and> xp_flags xp' = xp_flags xp \<and> (\<exists>c. xp_cdevs xp' = (xp_cdevs xp)(r := c)
     \<and> (node_ready c \<longleftrightarrow> rv = Inr ()) \<and> (\<forall>n. live_nodes n s' = live_nodes n s + node_weight n c))"
  proof (cases rv0)
    case (Inl v)
    then have e: "rv = Inl v" "xp' = xp1" "s' = s1" using assms(1) a by (simp_all add: create_xcdev_def)
    show ?thesis using ae old by (intro conjI exI [of _ "xp_cdevs xp r"]) (simp_all add: e w0)
  next
    case r0: (Inr u)
    note e1 = assms(1) [unfolded create_xcdev_def prod.case a r0 sum.case Let_def, folded c0_def, unfolded k prod.case]
    have slot: "xp_same xp (set_cdev r c xp1) \<and> xp_flags (set_cdev r c xp1) = xp_flags xp
        \<and> xp_cdevs (set_cdev r c xp1) = (xp_cdevs xp)(r := c)" for c
      using ae by (simp add: set_cdev_def xp_same_def)
    show ?thesis
    proof (cases rv1)
      case (Inl v)
      then have e: "rv = Inl v" "xp' = set_cdev r c0 xp1" "s' = s2" using e1 by simp_all
      show ?thesis using slot [of c0] ae ke new by (intro conjI exI [of _ c0]) (simp_all add: e w0 node_ready_def)
    next
      case r1: (Inr u)
      note e2 = e1 [unfolded r1 sum.case, folded c1_def, unfolded d prod.case]
      show ?thesis
      proof (cases "rv2 < 0")
        case True
        then have e: "rv = Inl (kerr rv2)" "xp' = set_cdev r c1 xp1" "s' = unregister_region (cdevno c1) s3"
          using e2 by simp_all
        have "xdev (unregister_region m s3) = xdev s3" for m by (simp add: unregister_region_def)
        then show ?thesis using slot [of c1] ae ke x3 l3 True new
          by (intro conjI exI [of _ c1]) (simp_all add: e w0 node_ready_def)
      next
        case False
        note e3 = e2 [unfolded if_not_P [OF False] y prod.case]
        have x: "xdev (unregister_region m t) = xdev t" for m t by (simp add: unregister_region_def)
        have c2: "node_ready c2 \<longleftrightarrow> rv3 = Inr ()" "cdevno c2 = cdevno c1"
          using assms(2) ae(3) by (simp_all add: ye(3) node_ready_def c1_def i c0_def xp_same_def)
        show ?thesis
        proof (cases rv3)
          case (Inl v)
          then have e: "rv = Inl v" "xp' = set_cdev r c2 xp1"
            "s' = unregister_region (cdevno c2) (emit (Kernel ''cdev_del'' (no_arg (cdevno c2)) 0) s4)"
            using e3 by simp_all
          show ?thesis using slot [of c2] ae ke x3 l3 ye False Inl c2
            by (intro conjI exI [of _ c2]) (simp_all add: e w0 x node_delta_def no_arg_inj)
        next
          case (Inr u)
          then have e: "rv = Inr ()" "xp' = set_cdev r c2 xp1" "s' = s4" using e3 by simp_all
          show ?thesis using slot [of c2] ae ke x3 l3 ye False Inr c2
            by (intro conjI exI [of _ c2]) (simp_all add: e node_weight_def)
        qed
      qed
    qed
  qed
  then show "xp_same xp xp'" "xdev s' = xdev s" "xp_flags xp' = xp_flags xp"
    "\<exists>c. xp_cdevs xp' = (xp_cdevs xp)(r := c) \<and> (node_ready c \<longleftrightarrow> rv = Inr ())
       \<and> (\<forall>n. live_nodes n s' = live_nodes n s + node_weight n c)" by blast+
qed

lemma xp_same_trans: "xp_same a b \<Longrightarrow> xp_same b c \<Longrightarrow> xp_same a c"
  by (simp add: xp_same_def)

definition total_weight :: "int \<times> int \<Rightarrow> xdma_pci_dev \<Rightarrow> xcref list \<Rightarrow> int" where
  "total_weight n xp rs = sum_list (map (\<lambda>r. node_weight n (xp_cdevs xp r)) rs)"

lemma total_weight_cong:
  "(\<And>r. r \<in> set rs \<Longrightarrow> xp_cdevs xp' r = xp_cdevs xp r) \<Longrightarrow> total_weight n xp' rs = total_weight n xp rs"
  unfolding total_weight_def by (metis (mono_tags, lifting) map_eq_conv)

lemma total_weight_fresh: "\<forall>r \<in> set rs. \<not> sys_device (xp_cdevs xp r) \<Longrightarrow> total_weight n xp rs = 0"
  unfolding total_weight_def by (induction rs) (simp_all add: node_weight_def node_ready_def)

text \<open>A group: however it ends, the account of every device number says which of its nodes are ready.\<close>

lemma create_each_effect:
  assumes "create_each E l (xp, s) = (rv, xp', s')" and "xp_xdev xp \<noteq> 0" and "distinct (map fst l)"
    and "\<forall>r \<in> set (map fst l). \<not> sys_device (xp_cdevs xp r)"
  shows "xp_same xp xp' \<and> xdev s' = xdev s \<and> xp_flags xp' = xp_flags xp
    \<and> (\<forall>r. r \<notin> set (map fst l) \<longrightarrow> xp_cdevs xp' r = xp_cdevs xp r)
    \<and> (\<forall>n. live_nodes n s' = live_nodes n s + total_weight n xp' (map fst l))"
  using assms
proof (induction E l "(xp, s)" arbitrary: xp s rule: create_each.induct)
  case (1 E)
  then show ?case by (simp add: xp_same_def total_weight_def)
next
  case (2 E r b eo type l)
  obtain rv1 xp1 s1 where c: "create_xcdev E r b eo type (xp, s) = (rv1, xp1, s1)" by (metis prod_cases3)
  have "\<not> sys_device (xp_cdevs xp r)" using "2.prems"(4) by simp
  note ce = create_xcdev_effect [OF c "2.prems"(2) this]
  obtain k where k: "xp_cdevs xp1 = (xp_cdevs xp)(r := k)" "\<forall>n. live_nodes n s1 = live_nodes n s + node_weight n k"
    using ce(4) by blast
  have ri: "r \<notin> set (map fst l)" using "2.prems"(3) by simp
  have old: "\<forall>r' \<in> set (map fst l). \<not> sys_device (xp_cdevs xp1 r')" using "2.prems"(4) ri k(1) by auto
  show ?case
  proof (cases rv1)
    case (Inl v)
    then have e: "xp' = xp1" "s' = s1" using "2.prems"(1) c by simp_all
    have "total_weight n xp1 (map fst ((r, b, eo, type) # l)) = node_weight n k" for n
      using total_weight_fresh [OF old, of n] by (simp add: total_weight_def k(1))
    then show ?thesis using ce(1-3) k by (simp add: e)
  next
    case (Inr u)
    then have l: "create_each E l (xp1, s1) = (rv, xp', s')" using "2.prems"(1) c by simp
    have x1: "xp_xdev xp1 \<noteq> 0" using ce(1) "2.prems"(2) by (simp add: xp_same_def)
    have "distinct (map fst l)" using "2.prems"(3) by simp
    note IH = "2.hyps" [OF c [symmetric] Inr l x1 this old]
    have "xp_cdevs xp' r = k" using IH k(1) ri by simp
    then show ?thesis
      using IH ce(1-3) k by (auto simp: total_weight_def intro: xp_same_trans)
  qed
qed

lemma xpdev_flag_test_set:
  "xpdev_flag_test b (xpdev_flag_set b' xp) \<longleftrightarrow> b = b' \<or> xpdev_flag_test b xp"
  by (cases b; cases b') (simp_all add: xpdev_flag_test_def xpdev_flag_set_def word_bw_lcs word_ao_dist)

lemma set_flag_cdevs: "xp_cdevs (xpdev_flag_set b xp) = xp_cdevs xp"
  by (simp add: xpdev_flag_set_def)

lemma xp_same_set_flag: "xp_same xp (xpdev_flag_set b xp)"
  by (simp add: xp_same_def xpdev_flag_set_def)

lemma create_stages_effect:
  assumes "create_stages E gs (xp, s) = (Inr (), xp', s')" and "xp_xdev xp \<noteq> 0"
    and "distinct (map fst (concat (map fst gs)))"
    and "\<forall>r \<in> set (map fst (concat (map fst gs))). \<not> sys_device (xp_cdevs xp r)"
  shows "xp_same xp xp' \<and> (\<forall>b. xpdev_flag_test b xp' \<longleftrightarrow> b \<in> set (map snd gs) \<or> xpdev_flag_test b xp)
    \<and> (\<forall>r. r \<notin> set (map fst (concat (map fst gs))) \<longrightarrow> xp_cdevs xp' r = xp_cdevs xp r)
    \<and> (\<forall>n. live_nodes n s' = live_nodes n s + total_weight n xp' (map fst (concat (map fst gs))))"
  using assms
proof (induction E gs "(xp, s)" arbitrary: xp s rule: create_stages.induct)
  case (1 E)
  then show ?case by (simp add: xp_same_def total_weight_def)
next
  case (2 E l b gs)
  let ?L = "map fst l" and ?G = "map fst (concat (map fst gs))"
  obtain xp1 s1 where c: "create_each E l (xp, s) = (Inr (), xp1, s1)"
    and g: "create_stages E gs (xpdev_flag_set b xp1, s1) = (Inr (), xp', s')"
    using "2.prems"(1) by (auto split: sum.splits prod.splits)
  have all: "map fst (concat (map fst ((l, b) # gs))) = ?L @ ?G" by simp
  have dis: "distinct ?L" "distinct ?G" "set ?L \<inter> set ?G = {}" using "2.prems"(3) unfolding all by simp_all
  have fresh: "\<forall>r \<in> set ?L. \<not> sys_device (xp_cdevs xp r)" "\<forall>r \<in> set ?G. \<not> sys_device (xp_cdevs xp r)"
    using "2.prems"(4) unfolding all by simp_all
  note ce = create_each_effect [OF c "2.prems"(2) dis(1) fresh(1)]
  have x1: "xp_xdev (xpdev_flag_set b xp1) \<noteq> 0"
    using ce "2.prems"(2) by (simp add: xp_same_def xpdev_flag_set_def)
  have "xp_cdevs xp1 r = xp_cdevs xp r" if "r \<in> set ?G" for r using ce dis(3) that by (metis disjoint_iff)
  then have "\<forall>r \<in> set ?G. \<not> sys_device (xp_cdevs (xpdev_flag_set b xp1) r)"
    using fresh(2) by (simp only: set_flag_cdevs) metis
  note IH = "2.hyps" [OF c [symmetric] refl refl g x1 dis(2) this]
  have tw: "total_weight n xp' ?L = total_weight n xp1 ?L" for n
    using IH dis(3) by (intro total_weight_cong) (metis disjoint_iff set_flag_cdevs)
  have app: "total_weight n xp' (?L @ ?G) = total_weight n xp' ?L + total_weight n xp' ?G" for n
    by (simp add: total_weight_def)
  have same: "xp_same xp xp'" using ce IH xp_same_set_flag xp_same_trans by blast
  have flags: "xpdev_flag_test b' xp1 = xpdev_flag_test b' xp" for b'
    using ce by (simp add: xpdev_flag_test_def)
  have rest: "xp_cdevs xp' r = xp_cdevs xp r" if "r \<notin> set (?L @ ?G)" for r
    using ce IH that by (simp add: set_flag_cdevs)
  have live: "live_nodes n s' = live_nodes n s + total_weight n xp' (?L @ ?G)" for n
    using ce IH by (simp add: app tw)
  have "xpdev_flag_test b' xp' \<longleftrightarrow> b' \<in> set (map snd ((l, b) # gs)) \<or> xpdev_flag_test b' xp" for b'
    using IH flags by (auto simp: xpdev_flag_test_set)
  then show ?case using same rest live unfolding all by blast
qed

lemma destroy_group_live:
  "live_nodes n (destroy_group xp b rs s) =
     live_nodes n s - (if xpdev_flag_test b xp then total_weight n xp rs else 0)"
proof -
  have "live_nodes n (fold (\<lambda>r s. snd (destroy_xcdev (xp_cdevs xp r) s)) rs s) = live_nodes n s - total_weight n xp rs"
    by (induction rs arbitrary: s) (simp_all add: total_weight_def destroy_xcdev_live)
  then show ?thesis by (simp add: destroy_group_def)
qed

lemma xpdev_destroy_interfaces_live:
  "live_nodes n (xpdev_destroy_interfaces xp s) = live_nodes n s
     - (if xpdev_flag_test XDF_CDEV_SG xp
        then total_weight n xp (map Sgdma_h2c [0..<xp_h2c_channel_max xp] @ map Sgdma_c2h [0..<xp_c2h_channel_max xp]) else 0)
     - (if xpdev_flag_test XDF_CDEV_EVENT xp then total_weight n xp (map Events_cdev [0..<xp_user_max xp]) else 0)
     - (if xpdev_flag_test XDF_CDEV_CTRL xp then total_weight n xp [Ctrl_cdev] else 0)
     - (if xpdev_flag_test XDF_CDEV_USER xp then total_weight n xp [User_cdev] else 0)
     - (if xpdev_flag_test XDF_CDEV_XVC xp then total_weight n xp [Xvc_cdev] else 0)
     - (if xpdev_flag_test XDF_CDEV_BYPASS xp
        then total_weight n xp (map Bypass_h2c [0..<xp_h2c_channel_max xp] @ map Bypass_c2h [0..<xp_c2h_channel_max xp] @ [Bypass_base]) else 0)"
  unfolding xpdev_destroy_interfaces_def Let_def by (simp only: live_frame destroy_group_live split: if_split) simp

text \<open>The slots the groups fill; an absent engine has no node.\<close>

lemma slots_specs:
  "map fst (h2c_specs slot type xp s) = map slot (filter (\<lambda>i. emagic (get_eng s (H2C i)) = MAGIC_ENGINE) [0..<xp_h2c_channel_max xp])"
  "map fst (c2h_specs slot type xp s) = map slot (filter (\<lambda>i. emagic (get_eng s (C2H i)) = MAGIC_ENGINE) [0..<xp_c2h_channel_max xp])"
  by (simp_all add: h2c_specs_def c2h_specs_def comp_def)

lemma group_slots: "map fst (concat (map fst (cdev_groups xp s))) =
     [Ctrl_cdev] @ map Events_cdev [0..<xp_user_max xp] @ map fst (h2c_specs Sgdma_h2c CHAR_XDMA_H2C xp s)
     @ map fst (c2h_specs Sgdma_c2h CHAR_XDMA_C2H xp s)
     @ (if 0 < bypass_bar_idx (xdev s) then map fst (h2c_specs Bypass_h2c CHAR_BYPASS_H2C xp s)
          @ map fst (c2h_specs Bypass_c2h CHAR_BYPASS_C2H xp s) @ [Bypass_base] else [])
     @ (if 0 \<le> user_bar_idx (xdev s) then [User_cdev, Xvc_cdev] else [])"
  by (simp add: cdev_groups_def comp_def)

lemma group_flags: "map snd (cdev_groups xp s) = [XDF_CDEV_CTRL, XDF_CDEV_EVENT, XDF_CDEV_SG]
     @ (if 0 < bypass_bar_idx (xdev s) then [XDF_CDEV_BYPASS] else [])
     @ (if 0 \<le> user_bar_idx (xdev s) then [XDF_CDEV_USER, XDF_CDEV_XVC] else [])"
  by (simp add: cdev_groups_def)

lemma distinct_slots: "distinct (map fst (concat (map fst (cdev_groups xp s))))"
  unfolding group_slots slots_specs by (auto simp: distinct_map inj_on_def)

lemma total_weight_simps:
  "total_weight n xp [] = 0" "total_weight n xp (r # bs) = node_weight n (xp_cdevs xp r) + total_weight n xp bs"
  "total_weight n xp (as @ bs) = total_weight n xp as + total_weight n xp bs"
  by (simp_all add: total_weight_def)

lemma total_weight_filter:
  assumes "\<And>i. i \<in> set is \<Longrightarrow> \<not> P i \<Longrightarrow> cd_magic (xp_cdevs xp (f i)) = 0"
  shows "total_weight n xp (map f (filter P is)) = total_weight n xp (map f is)"
  using assms by (induction "is") (auto simp: total_weight_def node_weight_def node_ready_def MAGIC_CHAR_def)

text \<open>C31: the nodes of a board are created and destroyed in balance.  When all interfaces of a fresh board
  could be created, destroying them again leaves every device number live as often as before, whatever
  engines, user interrupts and BARs the board has.\<close>

theorem xpdev_interfaces_balanced:
  assumes "xpdev_create_interfaces E xp s = (Inr (), xp', s')" and "xp_xdev xp \<noteq> 0" and "xp_flags xp = 0"
    and "\<forall>r. cd_magic (xp_cdevs xp r) = 0 \<and> \<not> sys_device (xp_cdevs xp r)"
  shows "live_nodes n (xpdev_destroy_interfaces xp' s') = live_nodes n s"
proof -
  have c: "create_stages E (cdev_groups xp s) (xp, s) = (Inr (), xp', s')"
    using assms(1) by (auto simp: xpdev_create_interfaces_def split: sum.splits prod.splits)
  have "\<forall>r \<in> set (map fst (concat (map fst (cdev_groups xp s)))). \<not> sys_device (xp_cdevs xp r)" using assms(4) by simp
  note e = create_stages_effect [OF c assms(2) distinct_slots this]
  let ?P = "\<lambda>e. emagic (get_eng s e) = MAGIC_ENGINE"
  have same: "xp_user_max xp' = xp_user_max xp" "xp_h2c_channel_max xp' = xp_h2c_channel_max xp"
    "xp_c2h_channel_max xp' = xp_c2h_channel_max xp" using e by (simp_all add: xp_same_def)
  have fl: "xpdev_flag_test b xp' \<longleftrightarrow> b \<in> set (map snd (cdev_groups xp s))" for b
    using e assms(3) by (simp add: xpdev_flag_test_def)
  have z: "cd_magic (xp_cdevs xp' r) = 0" if "r \<notin> set (map fst (concat (map fst (cdev_groups xp s))))" for r
    using e assms(4) that by simp
  let ?w = "total_weight n xp'"
  have w: "?w (map Sgdma_h2c (filter (\<lambda>i. ?P (H2C i)) [0..<xp_h2c_channel_max xp])) = ?w (map Sgdma_h2c [0..<xp_h2c_channel_max xp])"
    "?w (map Sgdma_c2h (filter (\<lambda>i. ?P (C2H i)) [0..<xp_c2h_channel_max xp])) = ?w (map Sgdma_c2h [0..<xp_c2h_channel_max xp])"
    "?w (map Bypass_h2c (filter (\<lambda>i. ?P (H2C i)) [0..<xp_h2c_channel_max xp])) = ?w (map Bypass_h2c [0..<xp_h2c_channel_max xp])"
    "?w (map Bypass_c2h (filter (\<lambda>i. ?P (C2H i)) [0..<xp_c2h_channel_max xp])) = ?w (map Bypass_c2h [0..<xp_c2h_channel_max xp])"
    by (rule total_weight_filter, rule z, unfold group_slots slots_specs, auto)+
  have l: "live_nodes n s' = live_nodes n s + ?w (map fst (concat (map fst (cdev_groups xp s))))" using e by blast
  have fl': "xpdev_flag_test XDF_CDEV_CTRL xp'" "xpdev_flag_test XDF_CDEV_EVENT xp'" "xpdev_flag_test XDF_CDEV_SG xp'"
    "xpdev_flag_test XDF_CDEV_BYPASS xp' \<longleftrightarrow> 0 < bypass_bar_idx (xdev s)"
    "xpdev_flag_test XDF_CDEV_USER xp' \<longleftrightarrow> 0 \<le> user_bar_idx (xdev s)"
    "xpdev_flag_test XDF_CDEV_XVC xp' \<longleftrightarrow> 0 \<le> user_bar_idx (xdev s)"
    unfolding fl group_flags by auto
  show ?thesis
    unfolding xpdev_destroy_interfaces_live l same group_slots slots_specs by (simp add: fl' total_weight_simps w)
qed

text \<open>A board with one user interrupt and the user BAR, on a kernel that grants everything.\<close>

definition node_env :: env where
  "node_env = env0\<lparr>kernel := (\<lambda>_ f _. if f = ''device_create'' \<or> f = ''MAJOR'' then 240 else 0)\<rparr>"

definition node_world :: world where
  "node_world = upd_xdev (\<lambda>d. d\<lparr>user_bar_idx := 0, config_bar_idx := 1\<rparr>) world0"

definition fresh_xpdev :: xdma_pci_dev where
  "fresh_xpdev = \<lparr>xp_magic = MAGIC_DEVICE, xp_pdev = 1, xp_xdev = 1, xp_major = 0, xp_user_max = 2,
     xp_c2h_channel_max = 1, xp_h2c_channel_max = 1, xp_flags = 0, xp_cdevs = (\<lambda>_. cdev_zero)\<rparr>"

text \<open>What a kernel decides that answers every call by its name and arguments alone.\<close>

lemma create_xcdev_outcome:
  assumes "\<And>tr f as. kernel E tr f as = k f as" and "k ''alloc_chrdev_region'' [XDMA_MINOR_BASE, XDMA_MINOR_COUNT] = 0"
    and "\<And>as. 0 \<le> k ''kobject_set_name'' as" and "\<And>as. k ''device_create'' as \<noteq> 0"
    and "k ''MAJOR'' [] = M" and "xp_major (fst st) \<in> {0, M}"
    and "type \<in> {CHAR_CTRL, CHAR_EVENTS, CHAR_USER, CHAR_XVC, CHAR_BYPASS}"
  shows "fst (create_xcdev E r b None type st) =
      (if k ''cdev_add'' [M, cdev_minor type b 0] < 0 then Inl (kerr (k ''cdev_add'' [M, cdev_minor type b 0])) else Inr ())"
    and "xp_major (fst (snd (create_xcdev E r b None type st))) = M"
proof -
  obtain xp s where st: "st = (xp, s)" by fastforce
  obtain xp1 s1 where a: "alloc_region E xp s = (Inr (), xp1, s1)" "xp_major xp1 = M"
    using assms(1,2,5,6) by (cases "M = 0"; cases "xp_major xp = M") (auto simp: alloc_region_def st kcall_def Let_def)
  obtain s2 where c: "config_kobject E ((xp_cdevs xp1 r)\<lparr>cd_magic := MAGIC_CHAR, cd_xdev := (xp_xdev xp1 \<noteq> 0),
      cd_engine := None, cd_bar := b\<rparr>) type s1 = (Inr (), s2)"
    using assms(1,3,7) by (auto simp: config_kobject_def kcall_def Let_def not_less)
  show "fst (create_xcdev E r b None type st) =
      (if k ''cdev_add'' [M, cdev_minor type b 0] < 0 then Inl (kerr (k ''cdev_add'' [M, cdev_minor type b 0])) else Inr ())"
    "xp_major (fst (snd (create_xcdev E r b None type st))) = M"
    unfolding create_xcdev_def st prod.case a(1) sum.case Let_def c
    using assms(1,4) a(2) by (simp_all add: kcall_def no_arg_def cdev_channel_def create_sys_device_def Let_def set_cdev_def)
qed

theorem xpdev_interfaces_balanced_witness:
  "live_nodes (240, 10) (xpdev_destroy_interfaces (fst (snd (xpdev_create_interfaces node_env fresh_xpdev node_world)))
     (snd (snd (xpdev_create_interfaces node_env fresh_xpdev node_world)))) = 0"
proof -
  let ?r = "xpdev_create_interfaces node_env fresh_xpdev node_world"
  let ?k = "\<lambda>f as. if f = ''device_create'' \<or> f = ''MAJOR'' then 240 else 0"
  have k: "kernel node_env tr f as = ?k f as" for tr f as by (simp add: node_env_def)
  note o1 = create_xcdev_outcome [where E = node_env and k = ?k and M = 240, OF k]
  have g: "cdev_groups fresh_xpdev node_world = [([(Ctrl_cdev, 1, None, CHAR_CTRL)], XDF_CDEV_CTRL),
      ([(Events_cdev 0, 0, None, CHAR_EVENTS), (Events_cdev 1, 1, None, CHAR_EVENTS)], XDF_CDEV_EVENT), ([], XDF_CDEV_SG),
      ([(User_cdev, 0, None, CHAR_USER)], XDF_CDEV_USER), ([(Xvc_cdev, 0, None, CHAR_XVC)], XDF_CDEV_XVC)]"
    by (simp add: cdev_groups_def h2c_specs_def c2h_specs_def fresh_xpdev_def node_world_def xdev0_def get_eng.simps
        engine_zero_def MAGIC_ENGINE_def upt_rec)
  have m: "xp_major (xpdev_flag_set b xp) = xp_major xp" for b xp by (simp add: xpdev_flag_set_def)
  have m0: "xp_major fresh_xpdev = 0" by (simp add: fresh_xpdev_def)
  have c1: "create_each node_env ((r, b, eo, type) # l) st = create_each node_env l (snd (create_xcdev node_env r b eo type st))"
    if "fst (create_xcdev node_env r b eo type st) = Inr ()" for r b eo type l st
    using case_res_Inr [OF that] by simp
  have c2: "create_stages node_env ((l, b) # gs) st =
      create_stages node_env gs (xpdev_flag_set b (fst (snd (create_each node_env l st))), snd (snd (create_each node_env l st)))"
    if "fst (create_each node_env l st) = Inr ()" for l b gs st
    using that by (cases "create_each node_env l st") auto
  have f: "fst (create_stages node_env (cdev_groups fresh_xpdev node_world) (fresh_xpdev, node_world)) = Inr ()"
    unfolding g by (simp add: c1 c2 o1 m m0 del: create_each.simps(2) create_stages.simps(2))
  then have "fst ?r = Inr ()"
    using case_res_Inr [OF f] by (simp add: xpdev_create_interfaces_def split_beta)
  then have "?r = (Inr (), fst (snd ?r), snd (snd ?r))" by (simp only: prod_eq_iff fst_conv snd_conv simp_thms)
  from xpdev_interfaces_balanced [OF this, of "(240, 10)"] show ?thesis
    by (simp add: fresh_xpdev_def cdev_zero_def node_world_def live_nodes_def balance_def)
qed

definition ctrl_spec :: "world \<Rightarrow> cdev_spec" where
  "ctrl_spec s = (Ctrl_cdev, config_bar_idx (xdev s), None, CHAR_CTRL)"

definition event_specs :: "nat \<Rightarrow> cdev_spec list" where
  "event_specs n = map (\<lambda>i. (Events_cdev i, int i, None, CHAR_EVENTS)) [0..<n]"

text \<open>A failure in the middle of a group leaks, and what was complete is destroyed twice.  When the
  nodes of the user interrupts cannot all be created, the creation fails and destroys what it made, but the
  nodes of the interrupts before the failing one stay live, since the flag that makes the destruction look at
  them is set for complete groups only; and the flags stay set, so that freeing the board, which is what the
  probe does next, deletes the control node a second time.\<close>

theorem xpdev_create_interfaces_leak:
  assumes "create_each E [ctrl_spec s] (xp, s) = (Inr (), xp1, s1)"
    and "create_each E (event_specs (xp_user_max xp)) (xpdev_flag_set XDF_CDEV_CTRL xp1, s1) = (Inl rv, xp2, s2)"
    and "xp_xdev xp \<noteq> 0" and "xp_flags xp = 0" and "\<forall>r. \<not> sys_device (xp_cdevs xp r)"
  shows "xpdev_create_interfaces E xp s = (Inl EPERM, xp2, xpdev_destroy_interfaces xp2 s2)
    \<and> live_nodes n (xpdev_destroy_interfaces xp2 s2) =
        live_nodes n s + total_weight n xp2 (map Events_cdev [0..<xp_user_max xp])
    \<and> live_nodes n (xpdev_destroy_interfaces xp2 (xpdev_destroy_interfaces xp2 s2)) =
        live_nodes n (xpdev_destroy_interfaces xp2 s2) - node_weight n (xp_cdevs xp2 Ctrl_cdev)
    \<and> node_ready (xp_cdevs xp2 Ctrl_cdev)"
proof -
  have d: "distinct (map fst [ctrl_spec s])" by simp
  note e1 = create_each_effect [OF assms(1,3) d] assms(5)
  let ?xp = "xpdev_flag_set XDF_CDEV_CTRL xp1"
  have x1: "xp_xdev ?xp \<noteq> 0" using e1 assms(3) by (simp add: xp_same_def xpdev_flag_set_def)
  have m: "map fst (event_specs (xp_user_max xp)) = map Events_cdev [0..<xp_user_max xp]"
    by (simp add: event_specs_def comp_def)
  have d2: "distinct (map fst (event_specs (xp_user_max xp)))" unfolding m by (auto simp: distinct_map inj_on_def)
  have old: "\<forall>r \<in> set (map fst (event_specs (xp_user_max xp))). \<not> sys_device (xp_cdevs ?xp r)"
    using e1 unfolding m by (auto simp: ctrl_spec_def set_flag_cdevs)
  note e2 = create_each_effect [OF assms(2) x1 d2 old]
  have g: "\<exists>gs. cdev_groups xp s = ([ctrl_spec s], XDF_CDEV_CTRL) # (event_specs (xp_user_max xp), XDF_CDEV_EVENT) # gs"
    by (simp add: cdev_groups_def ctrl_spec_def event_specs_def)
  have fl: "xpdev_flag_test b xp2 \<longleftrightarrow> b = XDF_CDEV_CTRL" for b
  proof -
    have "xpdev_flag_test b xp2 \<longleftrightarrow> xpdev_flag_test b ?xp" using e2 by (simp add: xpdev_flag_test_def)
    moreover have "xpdev_flag_test b xp1 \<longleftrightarrow> xpdev_flag_test b xp"
      using e1 by (simp add: xpdev_flag_test_def ctrl_spec_def)
    ultimately show ?thesis using assms(4) by (simp add: xpdev_flag_test_set) (simp add: xpdev_flag_test_def)
  qed
  have c: "xp_cdevs xp2 Ctrl_cdev = xp_cdevs xp1 Ctrl_cdev"
    using e2 unfolding m by (auto simp: set_flag_cdevs)
  have "live_nodes n s2 = live_nodes n s + total_weight n xp2 [Ctrl_cdev]
      + total_weight n xp2 (map Events_cdev [0..<xp_user_max xp])"
    using e1 e2 c unfolding m by (auto simp: ctrl_spec_def total_weight_simps)
  moreover have "xp_user_max xp2 = xp_user_max xp" using e1 e2
    by (simp add: xp_same_def xpdev_flag_set_def ctrl_spec_def)
  moreover have "node_ready (xp_cdevs xp2 Ctrl_cdev)"
    using create_xcdev_effect(4) [of E Ctrl_cdev _ _ _ xp s "Inr ()" xp1 s1] assms(1,3,5) c
    by (fastforce simp: ctrl_spec_def split: sum.splits prod.splits)
  ultimately show ?thesis
    using g assms(1,2) by (auto simp: xpdev_create_interfaces_def xpdev_destroy_interfaces_live fl total_weight_simps)
qed

text \<open>The kernel refuses the second event node.\<close>

definition leak_env :: env where
  "leak_env = env0\<lparr>kernel := (\<lambda>_ f as. if f = ''device_create'' \<or> f = ''MAJOR'' then 240
     else if f = ''cdev_add'' \<and> as = [240, 11] then -16 else 0)\<rparr>"

theorem xpdev_create_interfaces_leak_witness:
  "\<exists>xp2 s2. xpdev_create_interfaces leak_env fresh_xpdev node_world = (Inl EPERM, xp2, xpdev_destroy_interfaces xp2 s2)
     \<and> live_nodes (240, 10) (xpdev_destroy_interfaces xp2 s2) =
        total_weight (240, 10) xp2 [Events_cdev 0, Events_cdev 1]"
proof -
  let ?k = "\<lambda>f as. if f = ''device_create'' \<or> f = ''MAJOR'' then 240 else if f = ''cdev_add'' \<and> as = [240, 11] then -16 else 0"
  have k: "kernel leak_env tr f as = ?k f as" for tr f as by (simp add: leak_env_def)
  note o1 = create_xcdev_outcome [where E = leak_env and k = ?k and M = 240, OF k]
  have m0: "xp_major fresh_xpdev = 0" by (simp add: fresh_xpdev_def)
  obtain xp1 s1 where a: "create_xcdev leak_env Ctrl_cdev 1 None CHAR_CTRL (fresh_xpdev, node_world) = (Inr (), xp1, s1)"
    and a1: "xp_major xp1 = 240"
    using o1 [of "(fresh_xpdev, node_world)" CHAR_CTRL Ctrl_cdev 1]
    by (cases "create_xcdev leak_env Ctrl_cdev 1 None CHAR_CTRL (fresh_xpdev, node_world)") (auto simp: m0 cdev_minor_def)
  let ?xp = "xpdev_flag_set XDF_CDEV_CTRL xp1"
  have a2: "xp_major ?xp = 240" by (simp add: xpdev_flag_set_def a1)
  obtain xp2 s2 where b: "create_xcdev leak_env (Events_cdev 0) 0 None CHAR_EVENTS (?xp, s1) = (Inr (), xp2, s2)"
    and b1: "xp_major xp2 = 240"
    using o1 [of "(?xp, s1)" CHAR_EVENTS "Events_cdev 0" 0]
    by (cases "create_xcdev leak_env (Events_cdev 0) 0 None CHAR_EVENTS (?xp, s1)") (auto simp: a2 cdev_minor_def)
  obtain rv xp3 s3 where c: "create_xcdev leak_env (Events_cdev 1) 1 None CHAR_EVENTS (xp2, s2) = (Inl rv, xp3, s3)"
    using o1 [of "(xp2, s2)" CHAR_EVENTS "Events_cdev 1" 1]
    by (cases "create_xcdev leak_env (Events_cdev 1) 1 None CHAR_EVENTS (xp2, s2)") (auto simp: b1 cdev_minor_def)
  have "create_each leak_env [ctrl_spec node_world] (fresh_xpdev, node_world) = (Inr (), xp1, s1)"
    using a by (simp add: ctrl_spec_def node_world_def)
  moreover have "create_each leak_env (event_specs (xp_user_max fresh_xpdev)) (?xp, s1) = (Inl rv, xp3, s3)"
    using b c by (simp add: event_specs_def fresh_xpdev_def upt_rec)
  ultimately show ?thesis
    using xpdev_create_interfaces_leak [where n = "(240, 10)" and E = leak_env and xp = fresh_xpdev and s = node_world]
    by (fastforce simp: fresh_xpdev_def cdev_zero_def node_world_def live_nodes_def balance_def upt_rec)
qed

section \<open>Device numbers\<close>

text \<open>The minor numbers of the nodes to be created on a board whose engines know their channels.\<close>

definition spec_minor :: "world \<Rightarrow> cdev_spec \<Rightarrow> int" where
  "spec_minor s = (\<lambda>(r, b, eo, type). cdev_minor type b (cdev_channel eo s))"

lemma minor_runs:
  assumes "u \<le> 16" "h \<le> 4" "c \<le> 4"
    and "ns = [1] @ map (\<lambda>i. 10 + int i) [0..<u] @ map (\<lambda>i. 32 + int i) (filter P [0..<h])
     @ map (\<lambda>i. 36 + int i) (filter Q [0..<c])
     @ (if bp then map (\<lambda>i. 64 + int i) (filter P [0..<h]) @ map (\<lambda>i. 68 + int i) (filter Q [0..<c]) @ [100] else [])
     @ (if us then [0, 2] else [])"
  shows "distinct ns \<and> (\<forall>n \<in> set ns. 0 \<le> n \<and> n < 255)"
proof -
  define A B C D F G where "A = map (\<lambda>i. 10 + int i) [0..<u]" and "B = map (\<lambda>i. 32 + int i) (filter P [0..<h])"
    and "C = map (\<lambda>i. 36 + int i) (filter Q [0..<c])"
    and "D = (if bp then map (\<lambda>i. 64 + int i) (filter P [0..<h]) else [])"
    and "F = (if bp then map (\<lambda>i. 68 + int i) (filter Q [0..<c]) @ [100] else [])"
    and "G = (if us then [0, 2 :: int] else [])"
  have r: "\<forall>x\<in>set A. 10 \<le> x \<and> x < 26" "\<forall>x\<in>set B. 32 \<le> x \<and> x < 36" "\<forall>x\<in>set C. 36 \<le> x \<and> x < 40"
    "\<forall>x\<in>set D. 64 \<le> x \<and> x < 68" "\<forall>x\<in>set F. 68 \<le> x \<and> x < 101" "\<forall>x\<in>set G. x = 0 \<or> x = 2"
    using assms(1-3) by (auto simp: A_def B_def C_def D_def F_def G_def)
  have d: "distinct A" "distinct B" "distinct C" "distinct D" "distinct F" "distinct G"
    using assms(3) by (auto simp: A_def B_def C_def D_def F_def G_def distinct_map inj_on_def)
  have ns: "ns = [1] @ A @ B @ C @ D @ F @ G"
    unfolding assms(4) A_def B_def C_def D_def F_def G_def by simp
  have "distinct ns" unfolding ns using d r by (simp only: distinct_append) (fastforce simp: disjoint_iff)
  moreover have "0 \<le> n \<and> n < 255" if "n \<in> set ns" for n
    using that r unfolding ns by (simp only: set_append Un_iff) fastforce
  ultimately show ?thesis by blast
qed


definition channel_world :: world where
  "channel_world = upd_xdev (\<lambda>d. d\<lparr>engine_h2c := (\<lambda>i. engine_zero\<lparr>channel := i, emagic := MAGIC_ENGINE\<rparr>),
     engine_c2h := (\<lambda>i. engine_zero\<lparr>channel := i, emagic := MAGIC_ENGINE\<rparr>)\<rparr>) node_world"


end
