(* ===== verification/Aperture.thy ===== *)
theory Aperture
  imports Submit
begin

text \<open>
  Transfers through an aperture (\<open>xdma_xfer_aperture\<close> of \<open>libxdma.c\<close>): a device address window of
  \<open>aperture\<close> bytes that the data is written to, or read from, again and again.
\<close>

section \<open>Building a chain\<close>

text \<open>
  What the two nested loops over the scatter-gather list change: the descriptor pool, the index of
  the next descriptor, the number of descriptors, the device address, the offset inside the current
  entry, the offset inside the request and the length of the transfer.
\<close>

record aperture_st =
  ap_pool :: desc_pool
  ap_idx :: u32
  ap_cnt :: u32
  ap_ep :: u64
  ap_sgoff :: u32
  ap_off :: u32
  ap_len :: u32

text \<open>
  What the loops only read: the direction, the first and the last device address of the window, the
  greatest length of a descriptor and the size of the pool.
\<close>

record aperture_cfg =
  ap_dir :: dma_data_direction
  ap_base :: u64
  ap_last :: u64
  ap_maxlen :: u32
  ap_max :: u32

definition ap_wrap :: "aperture_cfg \<Rightarrow> u64 \<Rightarrow> u64" where
  "ap_wrap c ep = (if ap_last c < ep then ap_base c else ep)"

definition ap_piece :: "aperture_cfg \<Rightarrow> u64 \<Rightarrow> u32 \<Rightarrow> u32" where
  "ap_piece c ep tlen =
     (let len = min tlen (ap_maxlen c)
      in if ap_last c < ep + ucast len then ucast (ap_last c - ep + 1) else len)"

text \<open>One iteration of the inner loop: one descriptor.\<close>

definition ap_step :: "aperture_cfg \<Rightarrow> u64 \<Rightarrow> u32 \<Rightarrow> aperture_st \<Rightarrow> u32 \<times> aperture_st" where
  "ap_step c addr tlen st =
     (let ep = ap_wrap c (ap_ep st);
          len = ap_piece c ep tlen;
          k = unat (ap_idx st)
      in (len, st\<lparr>ap_pool := (ap_pool st)(k := xdma_desc_set (ap_pool st k) addr ep len (ap_dir c)),
                 ap_idx := ap_idx st + 1, ap_cnt := ap_cnt st + 1, ap_ep := ep + ucast len,
                 ap_sgoff := ap_sgoff st + len, ap_off := ap_off st + len, ap_len := ap_len st + len\<rparr>))"

lemma unat_pred_less: "(w :: u32) \<noteq> 0 \<Longrightarrow> unat (w - 1) < unat w"
  by (simp add: unat_minus_one unat_gt_0)

text \<open>
  The inner loop: it ends with the bytes of the entry that are left.  Every iteration uses up a descriptor,
  and the loop stops at the end of the pool.
\<close>

function ap_entry :: "aperture_cfg \<Rightarrow> u64 \<Rightarrow> u32 \<Rightarrow> aperture_st \<Rightarrow> u32 \<times> aperture_st" where
  "ap_entry c addr tlen st =
     (if tlen = 0 then (0, st)
      else case ap_step c addr tlen st of (len, st') \<Rightarrow>
             if ap_idx st' = ap_max c then (tlen - len, st')
             else ap_entry c (addr + ucast len) (tlen - len) st')"
  by pat_completeness auto

termination
proof (relation "measure (\<lambda>(c, _, _, st). unat (ap_max c - ap_idx st - 1))", goal_cases)
  case 1
  show ?case by simp
next
  case (2 c addr tlen st len st')
  have "ap_idx st' = ap_idx st + 1" using 2(2) by (auto simp: ap_step_def Let_def)
  with 2(3) have n: "ap_max c - ap_idx st - 1 \<noteq> 0" and e: "ap_max c - ap_idx st' - 1 = ap_max c - ap_idx st - 1 - 1"
    by (auto simp: algebra_simps)
  from unat_pred_less [OF n] show ?case unfolding in_measure split e .
qed

declare ap_entry.simps [simp del]

text \<open>The outer loop, from entry number \<open>i\<close> on.  A zero \<open>sg_offset\<close> leaves length and address as they are.\<close>

fun ap_sgl :: "aperture_cfg \<Rightarrow> u32 \<Rightarrow> sgl \<Rightarrow> u32 \<Rightarrow> aperture_st \<Rightarrow> u32 \<times> aperture_st" where
  "ap_sgl c sg_max [] i st = (i, st)"
| "ap_sgl c sg_max ((addr, len) # sg) i st =
     (if \<not> (i < sg_max \<and> ap_idx st < ap_max c) then (i, st)
      else case ap_entry c (addr + ucast (ap_sgoff st)) (len - ap_sgoff st) st of
             (tlen, st) \<Rightarrow>
               if tlen = 0 then ap_sgl c sg_max sg (i + 1) (st\<lparr>ap_sgoff := 0\<rparr>) else (i, st))"

text \<open>
  The linked list and the adjacent counts over \<open>cnt\<close> descriptors from \<open>dv\<close> on.  With \<open>cnt = 0\<close> the
  bound \<open>desc_cnt - 1\<close> of the source is the greatest unsigned number and the loop overruns the pool:
  no result.
\<close>

definition ap_link :: "nat \<Rightarrow> u64 \<Rightarrow> u32 \<Rightarrow> desc_pool \<Rightarrow> desc_pool option" where
  "ap_link dv bus cnt m =
     (if cnt = 0 then None
      else let n = unat cnt;
               m = pool_loop dv (\<lambda>i h. let b = bus + 32 * of_nat (i + 1)
                     in h\<lparr>next_lo := PCI_DMA_L b, next_hi := PCI_DMA_H b, control := DESC_MAGIC\<rparr>) (n - 1) m;
               m = m(dv + (n - 1) := (m (dv + (n - 1)))\<lparr>next_lo := 0, next_hi := 0,
                     control := DESC_MAGIC OR XDMA_DESC_STOPPED OR XDMA_DESC_EOP OR XDMA_DESC_COMPLETED\<rparr>)
           in Some (pool_loop dv (\<lambda>i h. xdma_desc_adjacent h
                 (xdma_get_next_adj (cnt - of_nat i - 1) (next_lo h))) n m))"

section \<open>One transfer\<close>

definition ap_cfg :: "env \<Rightarrow> xdma_engine \<Rightarrow> bool \<Rightarrow> xdma_request_cb \<Rightarrow> aperture_cfg" where
  "ap_cfg E g write req = \<lparr>ap_dir = write_dir write, ap_base = ep_addr req,
     ap_last = ep_addr req + ucast (aperture req) - 1,
     ap_maxlen = min (aperture req) (desc_blen_max E), ap_max = desc_max g\<rparr>"

definition ap_start :: "xdma_engine \<Rightarrow> xdma_request_cb \<Rightarrow> aperture_st" where
  "ap_start g req = \<lparr>ap_pool = desc_mem g, ap_idx = word_of_int (desc_idx g), ap_cnt = 0,
     ap_ep = ep_addr req + ucast (offset req AND (aperture req - 1)),
     ap_sgoff = sg_offset req, ap_off = offset req, ap_len = 0\<rparr>"

text \<open>
  The code walks the list from \<open>req->sg\<close>, which stays the first entry of the table, while the index
  goes on from \<open>req->sg_idx\<close>.
\<close>

definition ap_build :: "env \<Rightarrow> xdma_engine \<Rightarrow> bool \<Rightarrow> sg_table \<Rightarrow> xdma_request_cb \<Rightarrow> u32 \<times> aperture_st" where
  "ap_build E g write sgt req =
     ap_sgl (ap_cfg E g write req) (of_nat (sg_nents sgt)) (mapped sgt) (sg_idx req) (ap_start g req)"

definition aperture_prepare ::
  "env \<Rightarrow> eref \<Rightarrow> xref \<Rightarrow> bool \<Rightarrow> sg_table \<Rightarrow> bool \<Rightarrow> xdma_request_cb \<Rightarrow> world \<Rightarrow> (xdma_request_cb \<times> world) option" where
  "aperture_prepare E e x write sgt dma_mapped req s =
     (let g = get_eng s e;
          t = (transfer_start g)\<lparr>xflags := (if dma_mapped then 0 else XFER_FLAG_NEED_UNMAP)\<rparr>;
          (i, st) = ap_build E g write sgt req;
          n = ap_cnt st
      in do {
        m \<leftarrow> ap_link (desc_virt t) (xdesc_bus t) n (ap_pool st);
        let req = req\<lparr>offset := ap_off st, sg_offset := ap_sgoff st, sg_idx := i\<rparr>;
        let s = upd_xfer x (\<lambda>_. t\<lparr>xlen := ap_len st, desc_adjacent := uint n, desc_num := uint n,
                  desc_cmpl_th := uint n, last_in_request := (offset req = total_len req)\<rparr>) s;
        Some (req, upd_eng e (\<lambda>g. g\<lparr>desc_mem := m, desc_used := desc_used g + uint n,
                     desc_idx := (desc_idx g + uint n) mod uint (desc_max g)\<rparr>) s)
      })"

definition aperture_verdict :: "env \<Rightarrow> eref \<Rightarrow> xref \<Rightarrow> int \<Rightarrow> world \<Rightarrow> unit res \<times> int \<times> world" where
  "aperture_verdict E e x done s =
     (case xstate (get_xfer s x) of
        TRANSFER_STATE_COMPLETED \<Rightarrow> (Inr (), done + uint (xlen (get_xfer s x)), s)
      | TRANSFER_STATE_FAILED \<Rightarrow> (Inl EIO, done, s)
      | _ \<Rightarrow> (Inl ERESTARTSYS, done, xfer_timeout E e x s))"

type_synonym aperture_round_st = "int \<times> sg_table \<times> xdma_request_cb \<times> world"

definition aperture_round ::
  "env \<Rightarrow> eref \<Rightarrow> xref \<Rightarrow> bool \<Rightarrow> bool \<Rightarrow> aperture_round_st \<Rightarrow> (unit res \<times> aperture_round_st) option" where
  "aperture_round E e x write dma_mapped = (\<lambda>(done, sgt, req, s). do {
     (req, s) \<leftarrow> aperture_prepare E e x write sgt dma_mapped req s;
     case transfer_queue E (Some e) (Some x) s of
       (Inl rv, s) \<Rightarrow> Some (Inl rv, done, sgt, req, s)
     | (Inr _, s) \<Rightarrow> do {
         s \<leftarrow> xfer_wait E e x s;
         let (rv, done, s) = aperture_verdict E e x done s;
         let (sgt, s) = xfer_release e x sgt s;
         Some (rv, done, sgt, req, s)
       }
   })"

partial_function (option) aperture_loop ::
  "env \<Rightarrow> eref \<Rightarrow> xref \<Rightarrow> bool \<Rightarrow> bool \<Rightarrow> aperture_round_st \<Rightarrow> (unit res \<times> aperture_round_st) option" where
  "aperture_loop E e x write dma_mapped st =
     (case st of (done, sgt, req, s) \<Rightarrow>
        if \<not> offset req < total_len req then Some (Inr (), st)
        else do {
          (rv, st) \<leftarrow> aperture_round E e x write dma_mapped st;
          case rv of Inl r \<Rightarrow> Some (Inl r, st) | Inr _ \<Rightarrow> aperture_loop E e x write dma_mapped st
        })"

declare aperture_loop.simps [code]

section \<open>The whole transfer\<close>

definition aperture_check :: "eref option \<Rightarrow> bool \<Rightarrow> world \<Rightarrow> eref res" where
  "aperture_check eo write s =
     (case eo of
        None \<Rightarrow> Inl EINVAL
      | Some e \<Rightarrow>
          (case check_engine s e write of
             Inl rv \<Rightarrow> Inl rv
           | Inr _ \<Rightarrow> if streaming (get_eng s e) then Inl EINVAL else Inr e))"

definition aperture_map ::
  "env \<Rightarrow> sg_table \<Rightarrow> bool \<Rightarrow> bool \<Rightarrow> world \<Rightarrow> unit res \<times> sg_table \<times> world" where
  "aperture_map E sgt dma_mapped write s =
     (let (sgt, s) = (if dma_mapped then (sgt, s)
                      else let (n, s) = sg_map E sgt (write_dir write) s in (sgt\<lparr>sg_nents := n\<rparr>, s))
      in (if sg_nents sgt = 0 then Inl EIO else Inr (), sgt, s))"

definition aperture_request :: "u64 \<Rightarrow> u32 \<Rightarrow> sg_table \<Rightarrow> xdma_request_cb" where
  "aperture_request ep ap sgt =
     request_zero\<lparr>ep_addr := ep, aperture := ap, total_len := sum_list (map snd (mapped sgt))\<rparr>"

definition xdma_xfer_aperture ::
  "env \<Rightarrow> nat \<Rightarrow> eref option \<Rightarrow> bool \<Rightarrow> u64 \<Rightarrow> u32 \<Rightarrow> sg_table \<Rightarrow> bool \<Rightarrow> world \<Rightarrow> (int res \<times> sg_table \<times> world) option" where
  "xdma_xfer_aperture E rid eo write ep ap sgt dma_mapped s =
     (case aperture_check eo write s of
        Inl rv \<Rightarrow> Some (Inl rv, sgt, s)
      | Inr e \<Rightarrow>
          (case aperture_map E sgt dma_mapped write s of
             (Inl rv, sgt, s) \<Rightarrow> Some (Inl rv, sgt, s)
           | (Inr _, sgt, s) \<Rightarrow>
               if \<not> kzalloc E (trace s)
               then let (sgt, s) = unmap_sgl dma_mapped write sgt s in Some (Inl ENOMEM, sgt, s)
               else do {
                 (rv, done, sgt, req, s) \<leftarrow>
                   aperture_loop E e (rid, 0) write dma_mapped (0, sgt, aperture_request ep ap sgt, emit (KAlloc 0) s);
                 let (sgt, s) = unmap_sgl dma_mapped write sgt s;
                 Some (xfer_result done rv, sgt, xdma_request_free req s)
               }))"

section \<open>The window\<close>

text \<open>
  A window of \<open>A\<close> bytes that lies, with as much again behind it, below the end of the 64-bit address
  space; no descriptor may be longer than the window.
\<close>

definition window :: "aperture_cfg \<Rightarrow> nat \<Rightarrow> bool" where
  "window c A \<longleftrightarrow> 0 < A \<and> A < 2 ^ 32 \<and> unat (ap_base c) + 2 * A < 2 ^ 64
     \<and> unat (ap_last c) = unat (ap_base c) + A - 1 \<and> 0 < ap_maxlen c \<and> unat (ap_maxlen c) \<le> A"

text \<open>Host and device address of a descriptor by direction, and the host bytes of a chain in order.\<close>

definition host_addr :: "dma_data_direction \<Rightarrow> xdma_desc \<Rightarrow> u64" where
  "host_addr d h = (if d = DMA_TO_DEVICE then desc_src h else desc_dst h)"

definition dev_addr :: "dma_data_direction \<Rightarrow> xdma_desc \<Rightarrow> u64" where
  "dev_addr d h = (if d = DMA_TO_DEVICE then desc_dst h else desc_src h)"

definition run_bytes :: "u64 \<Rightarrow> nat \<Rightarrow> u64 list" where
  "run_bytes a n = map (\<lambda>j. a + of_nat j) [0..<n]"

definition chain_bytes :: "dma_data_direction \<Rightarrow> desc_pool \<Rightarrow> nat \<Rightarrow> nat \<Rightarrow> u64 list" where
  "chain_bytes d m dv n = concat (map (\<lambda>k. run_bytes (host_addr d (m (dv + k))) (unat (bytes (m (dv + k))))) [0..<n])"

text \<open>
  Descriptor \<open>k\<close> of a chain that starts at offset \<open>off\<close> of the data serves its bytes inside the window,
  at the place the window arithmetic gives.
\<close>

definition in_window :: "aperture_cfg \<Rightarrow> nat \<Rightarrow> nat \<Rightarrow> desc_pool \<Rightarrow> nat \<Rightarrow> nat \<Rightarrow> bool" where
  "in_window c A off m dv k \<longleftrightarrow>
     (let o' = off + length (chain_bytes (ap_dir c) m dv k); h = m (dv + k)
      in unat (dev_addr (ap_dir c) h) = unat (ap_base c) + o' mod A \<and> 0 < bytes h
         \<and> bytes h \<le> ap_maxlen c \<and> o' mod A + unat (bytes h) \<le> A)"

definition ap_inv :: "aperture_cfg \<Rightarrow> nat \<Rightarrow> nat \<Rightarrow> nat \<Rightarrow> desc_pool \<Rightarrow> u64 list \<Rightarrow> aperture_st \<Rightarrow> bool" where
  "ap_inv c A off dv m0 H st \<longleftrightarrow>
     unat (ap_idx st) = dv + unat (ap_cnt st) \<and> dv + unat (ap_cnt st) \<le> unat (ap_max c)
     \<and> unat (ap_off st) = off + length H \<and> unat (ap_len st) = length H
     \<and> chain_bytes (ap_dir c) (ap_pool st) dv (unat (ap_cnt st)) = H
     \<and> (\<exists>r\<le>A. unat (ap_ep st) = unat (ap_base c) + r \<and> r mod A = (off + length H) mod A)
     \<and> (\<forall>k<unat (ap_cnt st). in_window c A off (ap_pool st) dv k)
     \<and> (\<forall>k. \<not> (dv \<le> k \<and> k < dv + unat (ap_cnt st)) \<longrightarrow> ap_pool st k = m0 k)"

lemma unat_u32: "unat (w :: u32) < 2 ^ 32"
  using unsigned_less [of w] by simp

lemma unat_ucast32: "unat (ucast (w :: u32) :: u64) = unat w"
proof -
  have "unat w < 2 ^ 32" by (rule unat_u32)
  then have "unat w < 2 ^ 64" by simp
  then show ?thesis by (simp add: unsigned_ucast_eq take_bit_nat_eq_self)
qed

lemma unat_ucast64: "unat (ucast (w :: u64) :: u32) = unat w mod 2 ^ 32"
  by (simp add: unsigned_ucast_eq take_bit_eq_mod)

lemma run_bytes_simps [simp]: "length (run_bytes a n) = n" "run_bytes a 0 = []"
  by (simp_all add: run_bytes_def)

lemma run_bytes_append: "run_bytes a m @ run_bytes (a + of_nat m) n = run_bytes a (m + n)"
proof -
  have "map (\<lambda>j. a + of_nat j) [m..<m + n] = map (\<lambda>j. a + of_nat m + of_nat j) [0..<n]"
    by (rule nth_equalityI) (simp_all add: algebra_simps)
  then show ?thesis by (simp add: run_bytes_def upt_add_eq_append [of 0 m n])
qed

lemma take_run_bytes: "k \<le> n \<Longrightarrow> take k (run_bytes a n) = run_bytes a k"
  by (simp add: run_bytes_def take_map take_upt)

lemma chain_bytes_cong:
  assumes "\<And>k. k < n \<Longrightarrow> m' (dv + k) = m (dv + k)"
  shows "chain_bytes d m' dv n = chain_bytes d m dv n"
  unfolding chain_bytes_def using assms by (auto intro!: arg_cong [where f = concat] map_cong)

lemma chain_bytes_Suc:
  "chain_bytes d m dv (Suc n) =
     chain_bytes d m dv n @ run_bytes (host_addr d (m (dv + n))) (unat (bytes (m (dv + n))))"
  by (simp add: chain_bytes_def)

lemma desc_set_views:
  "host_addr d (xdma_desc_set h rc ep len d) = rc" "dev_addr d (xdma_desc_set h rc ep len d) = ep"
  "bytes (xdma_desc_set h rc ep len d) = len"
  by (simp_all add: host_addr_def dev_addr_def xdma_desc_set_def Let_def desc_views)

subsection \<open>One descriptor\<close>

lemma ap_wrap_nat:
  assumes "window c A" and "r \<le> A" and "unat ep = unat (ap_base c) + r"
  shows "unat (ap_wrap c ep) = unat (ap_base c) + r mod A"
proof (cases "r = A")
  case True
  then show ?thesis using assms by (auto simp: window_def ap_wrap_def word_less_nat_alt)
next
  case False
  with assms(2) have "r < A" by simp
  with assms show ?thesis by (auto simp: window_def ap_wrap_def word_less_nat_alt)
qed

lemma ap_piece_nat:
  assumes "window c A" and "r < A" and "unat ep = unat (ap_base c) + r"
  shows "unat (ap_piece c ep tlen) = min (min (unat tlen) (unat (ap_maxlen c))) (A - r)"
proof -
  let ?l = "min tlen (ap_maxlen c)"
  have l: "unat ?l = min (unat tlen) (unat (ap_maxlen c))" by (simp add: min_def word_le_nat_alt)
  then have la: "unat ?l \<le> A" using assms(1) by (simp add: window_def min.coboundedI2)
  have u: "unat (ucast ?l :: u64) = unat ?l" by (simp add: unat_ucast32)
  have s: "unat (ep + ucast ?l) = unat (ap_base c) + r + unat ?l"
    using assms la u by (simp add: unat_word_ariths window_def)
  have e: "unat (ap_last c - ep + 1) = A - r"
  proof -
    have "ep \<le> ap_last c" using assms by (simp add: window_def word_le_nat_alt)
    then have "unat (ap_last c - ep) = A - 1 - r" using assms by (simp add: unat_sub window_def)
    moreover have "A - 1 - r + 1 < 2 ^ 64" using assms(1) unfolding window_def by linarith
    ultimately have "unat (ap_last c - ep + 1) = A - 1 - r + 1" by (simp add: unat_word_ariths del: Suc_eq_plus1 add_Suc_right)
    with assms(2) show ?thesis by simp
  qed
  have e': "unat (ucast (ap_last c - ep + 1) :: u32) = A - r"
  proof -
    have "A - r < 2 ^ 32" using assms(1) unfolding window_def by linarith
    then show ?thesis unfolding unat_ucast64 e by simp
  qed
  show ?thesis
  proof (cases "ap_last c < ep + ucast ?l")
    case True
    then have "unat (ap_base c) + A - 1 < unat (ap_base c) + r + unat ?l"
      using assms(1) s by (simp add: word_less_nat_alt window_def)
    then have "A - r \<le> unat ?l" using assms(1) by (simp add: window_def)
    with True e' l show ?thesis by (simp add: ap_piece_def Let_def)
  next
    case False
    then have "\<not> unat (ap_base c) + A - 1 < unat (ap_base c) + r + unat ?l"
      using assms(1) s by (simp add: word_less_nat_alt window_def)
    then have "unat ?l < A - r \<or> unat ?l = 0" using assms(1) by (simp add: window_def) linarith
    with False l show ?thesis by (auto simp: ap_piece_def Let_def)
  qed
qed

lemma ap_step_inv:
  assumes w: "window c A" and i: "ap_inv c A off dv m0 H st" and t: "0 < tlen"
    and free: "ap_idx st \<noteq> ap_max c" and fits: "off + length H + unat tlen < 2 ^ 32"
  obtains len st' where "ap_step c addr tlen st = (len, st')" "0 < len" "len \<le> tlen"
    "ap_inv c A off dv m0 (H @ run_bytes addr (unat len)) st'"
    "ap_idx st' = ap_idx st + 1" "ap_sgoff st' = ap_sgoff st + len"
proof -
  let ?d = "ap_dir c" and ?n = "unat (ap_cnt st)"
  obtain r where r: "r \<le> A" "unat (ap_ep st) = unat (ap_base c) + r" "r mod A = (off + length H) mod A"
    using i by (auto simp: ap_inv_def)
  define ep where "ep = ap_wrap c (ap_ep st)"
  define len where "len = ap_piece c ep tlen"
  define q where "q = r mod A"
  have A: "0 < A" using w by (simp add: window_def)
  have q: "q < A" "unat ep = unat (ap_base c) + q" "q = (off + length H) mod A"
    using A ap_wrap_nat [OF w r(1,2)] r(3) by (simp_all add: q_def ep_def)
  have len: "unat len = min (min (unat tlen) (unat (ap_maxlen c))) (A - q)"
    unfolding len_def by (rule ap_piece_nat [OF w q(1,2)])
  then have pos: "0 < unat len" using w t q(1) by (auto simp: window_def unat_gt_0)
  have le: "unat len \<le> unat tlen" "unat len \<le> unat (ap_maxlen c)" "q + unat len \<le> A"
    using len q(1) by simp_all
  have idx: "unat (ap_idx st) = dv + ?n" "dv + ?n \<le> unat (ap_max c)" using i by (simp_all add: ap_inv_def)
  then have lt: "unat (ap_idx st) < unat (ap_max c)" using free by (metis le_neq_implies_less word_unat_eq_iff)
  have bound: "unat (ap_max c) < 2 ^ 32" by (rule unat_u32)
  have idx': "unat (ap_idx st + 1) = unat (ap_idx st) + 1" "unat (ap_cnt st + 1) = ?n + 1"
    using lt bound idx by (simp_all add: unat_word_ariths)
  define m where "m = (ap_pool st)(unat (ap_idx st) := xdma_desc_set (ap_pool st (unat (ap_idx st))) addr ep len ?d)"
  define st' where "st' = st\<lparr>ap_pool := m, ap_idx := ap_idx st + 1, ap_cnt := ap_cnt st + 1, ap_ep := ep + ucast len,
      ap_sgoff := ap_sgoff st + len, ap_off := ap_off st + len, ap_len := ap_len st + len\<rparr>"
  have step: "ap_step c addr tlen st = (len, st')"
    by (simp add: ap_step_def Let_def ep_def len_def m_def st'_def)
  have at: "m (dv + ?n) = xdma_desc_set (ap_pool st (dv + ?n)) addr ep len ?d" using idx(1) by (simp add: m_def)
  have old: "m k = ap_pool st k" if "k \<noteq> dv + ?n" for k using that idx(1) by (simp add: m_def)
  have H0: "chain_bytes ?d (ap_pool st) dv ?n = H" using i by (simp add: ap_inv_def)
  have cb: "chain_bytes ?d m dv k = chain_bytes ?d (ap_pool st) dv k" if "k \<le> ?n" for k
    using that by (intro chain_bytes_cong old) simp
  have H': "chain_bytes ?d m dv (Suc ?n) = H @ run_bytes addr (unat len)"
    by (simp add: chain_bytes_Suc cb H0 at desc_set_views)
  have new: "in_window c A off m dv ?n"
    using q pos le by (simp add: in_window_def Let_def cb H0 at desc_set_views word_le_nat_alt word_less_nat_alt)
  have win: "in_window c A off m dv k" if "k < Suc ?n" for k
  proof (cases "k = ?n")
    case False
    with that have k: "k < ?n" by simp
    then have "in_window c A off (ap_pool st) dv k" using i by (simp add: ap_inv_def)
    then show ?thesis using k by (simp add: in_window_def Let_def cb old)
  qed (use new in simp)
  have e: "unat (ep + ucast len) = unat (ap_base c) + (q + unat len)"
    using q(2) le(3) w by (simp add: unat_word_ariths unat_ucast32 window_def)
  have "(q + unat len) mod A = (off + length (H @ run_bytes addr (unat len))) mod A"
    unfolding q(3) by (simp add: mod_add_left_eq add.assoc)
  then have ex: "\<exists>r\<le>A. unat (ep + ucast len) = unat (ap_base c) + r
      \<and> r mod A = (off + length (H @ run_bytes addr (unat len))) mod A" using e le(3) by blast
  have offs: "unat (ap_off st + len) = off + length H + unat len" "unat (ap_len st + len) = length H + unat len"
    using i le(1) fits by (simp_all add: ap_inv_def unat_word_ariths)
  have rest: "m k = m0 k" if "\<not> (dv \<le> k \<and> k < dv + Suc ?n)" for k
    using that i old [of k] by (auto simp: ap_inv_def)
  have "ap_inv c A off dv m0 (H @ run_bytes addr (unat len)) st'"
    unfolding ap_inv_def using idx idx' lt offs H' ex win rest by (simp add: st'_def)
  with step pos le show thesis
    by (intro that [of len st']) (simp_all add: st'_def word_le_nat_alt word_less_nat_alt)
qed

subsection \<open>An entry and the list\<close>

lemma ap_entry_inv:
  assumes "window c A" and "ap_inv c A off dv m0 H st" and "ap_idx st \<noteq> ap_max c"
    and "off + length H + unat tlen < 2 ^ 32"
  shows "\<exists>d\<le>tlen. \<exists>st'. ap_entry c addr tlen st = (tlen - d, st')
     \<and> ap_inv c A off dv m0 (H @ run_bytes addr (unat d)) st' \<and> ap_sgoff st' = ap_sgoff st + d
     \<and> (d = tlen \<or> ap_idx st' = ap_max c)"
  using assms
proof (induction c addr tlen st arbitrary: H rule: ap_entry.induct)
  case (1 c addr tlen st)
  show ?case
  proof (cases "tlen = 0")
    case True
    then show ?thesis using 1 by (intro exI [of _ 0]) (simp add: ap_entry.simps)
  next
    case False
    then have t: "0 < tlen" by (simp add: word_neq_0_conv)
    obtain len st1 where s: "ap_step c addr tlen st = (len, st1)" "0 < len" "len \<le> tlen"
      "ap_inv c A off dv m0 (H @ run_bytes addr (unat len)) st1" "ap_idx st1 = ap_idx st + 1"
      "ap_sgoff st1 = ap_sgoff st + len"
      using ap_step_inv [OF "1.prems"(1,2) t "1.prems"(3,4)] by blast
    show ?thesis
    proof (cases "ap_idx st1 = ap_max c")
      case True
      then show ?thesis using s False
        by (intro exI [of _ len]) (simp add: ap_entry.simps [of c addr tlen])
    next
      case end': False
      have sub: "unat (tlen - len) = unat tlen - unat len" using s(3) by (simp add: unat_sub)
      have le: "unat len \<le> unat tlen" using s(3) by (simp add: word_le_nat_alt)
      have "off + length (H @ run_bytes addr (unat len)) + unat (tlen - len) < 2 ^ 32"
        using "1.prems"(4) sub le by simp
      from "1.IH" [OF False s(1) [symmetric] end' "1.prems"(1) s(4) end' this] obtain d st' where d: "d \<le> tlen - len"
        "ap_entry c (addr + ucast len) (tlen - len) st1 = (tlen - len - d, st')"
        "ap_inv c A off dv m0 ((H @ run_bytes addr (unat len)) @ run_bytes (addr + ucast len) (unat d)) st'"
        "ap_sgoff st' = ap_sgoff st1 + d" "d = tlen - len \<or> ap_idx st' = ap_max c" by blast
      have dn: "unat d \<le> unat tlen - unat len" using d(1) sub by (simp add: word_le_nat_alt)
      have "unat tlen < 2 ^ 32" by (rule unat_u32)
      then have ld: "unat (len + d) = unat len + unat d" using dn le by (simp add: unat_word_ariths)
      have "(H @ run_bytes addr (unat len)) @ run_bytes (addr + ucast len) (unat d) = H @ run_bytes addr (unat (len + d))"
        using run_bytes_append [of addr "unat len" "unat d"] by (simp add: ld)
      moreover have "len + d \<le> tlen" using ld dn le by (simp add: word_le_nat_alt)
      moreover have "len + d = tlen \<longleftrightarrow> d = tlen - len" by auto
      moreover have "ap_entry c addr tlen st = (tlen - (len + d), st')"
        using False end' d(2) s(1) by (subst ap_entry.simps) (simp add: diff_diff_eq)
      moreover have "ap_sgoff st' = ap_sgoff st + (len + d)" using d(4) s(6) by (simp add: add.assoc)
      ultimately show ?thesis using d(3,5) by (intro exI [of _ "len + d"]) auto
    qed
  qed
qed

lemma ap_inv_sgoff: "ap_inv c A off dv m0 H (st\<lparr>ap_sgoff := v\<rparr>) = ap_inv c A off dv m0 H st"
  by (simp add: ap_inv_def)

definition sg_total :: "sgl \<Rightarrow> nat" where
  "sg_total sg = sum_list (map (unat \<circ> snd) sg)"

definition sg_run :: "sgl \<Rightarrow> u64 list" where
  "sg_run sg = concat (map (\<lambda>p. run_bytes (fst p) (unat (snd p))) sg)"

lemma length_sg_run: "length (sg_run sg) = sg_total sg"
  by (induction sg) (simp_all add: sg_run_def sg_total_def)

lemma ap_sgl_inv:
  assumes "window c A"
  shows "ap_inv c A off dv m0 H st \<Longrightarrow> ap_sgoff st = 0 \<Longrightarrow> unat i + length sg = unat sg_max \<Longrightarrow>
     off + length H + sg_total sg < 2 ^ 32 \<Longrightarrow>
     \<exists>q. q \<le> sg_total sg \<and> (\<exists>i' st'. ap_sgl c sg_max sg i st = (i', st')
       \<and> ap_inv c A off dv m0 (H @ take q (sg_run sg)) st' \<and> (q = sg_total sg \<or> ap_idx st' = ap_max c))"
proof (induction sg arbitrary: H i st)
  case Nil
  then show ?case by (simp add: sg_total_def sg_run_def)
next
  case (Cons p sg)
  obtain addr len where p: "p = (addr, len)" by (cases p)
  have tot: "sg_total (p # sg) = unat len + sg_total sg" by (simp add: sg_total_def p)
  have run: "sg_run (p # sg) = run_bytes addr (unat len) @ sg_run sg" by (simp add: sg_run_def p)
  have i: "i < sg_max" using Cons.prems(3) by (simp add: word_less_nat_alt)
  have leq: "unat (ap_idx st) \<le> unat (ap_max c)" using Cons.prems(1) by (simp add: ap_inv_def)
  show ?case
  proof (cases "ap_idx st = ap_max c")
    case True
    then have "ap_sgl c sg_max (p # sg) i st = (i, st)" by (simp add: p)
    then show ?thesis using Cons.prems(1) True by (intro exI [of _ 0]) simp
  next
    case False
    with leq have lt: "ap_idx st < ap_max c" by (metis le_neq_implies_less word_less_nat_alt word_unat_eq_iff)
    have "off + length H + unat len < 2 ^ 32" using Cons.prems(4) tot by simp
    from ap_entry_inv [OF assms Cons.prems(1) False this, of addr] obtain d st1 where d: "d \<le> len"
      "ap_entry c addr len st = (len - d, st1)" "ap_inv c A off dv m0 (H @ run_bytes addr (unat d)) st1"
      "d = len \<or> ap_idx st1 = ap_max c" by blast
    have e: "ap_entry c (addr + ucast (ap_sgoff st)) (len - ap_sgoff st) st = (len - d, st1)"
      using d(2) Cons.prems(2) by simp
    show ?thesis
    proof (cases "d = len")
      case True
      let ?H = "H @ run_bytes addr (unat len)" and ?st = "st1\<lparr>ap_sgoff := 0\<rparr>"
      have s: "ap_sgl c sg_max (p # sg) i st = ap_sgl c sg_max sg (i + 1) ?st"
        using e True i lt by (simp add: p)
      have "unat i + 1 < 2 ^ 32" using Cons.prems(3) unat_u32 [of sg_max] by simp
      then have i1: "unat (i + 1) + length sg = unat sg_max" using Cons.prems(3) by (simp add: unat_word_ariths)
      have "off + length ?H + sg_total sg < 2 ^ 32" using Cons.prems(4) tot by simp
      from Cons.IH [of ?H ?st "i + 1", OF _ _ i1 this] d(3) True obtain q i' st' where q: "q \<le> sg_total sg"
        "ap_sgl c sg_max sg (i + 1) ?st = (i', st')" "ap_inv c A off dv m0 (?H @ take q (sg_run sg)) st'"
        "q = sg_total sg \<or> ap_idx st' = ap_max c" by (auto simp: ap_inv_sgoff)
      have "H @ take (unat len + q) (sg_run (p # sg)) = ?H @ take q (sg_run sg)" by (simp add: run)
      then show ?thesis using q s tot by (intro exI [of _ "unat len + q"]) auto
    next
      case False
      then have s: "ap_sgl c sg_max (p # sg) i st = (i, st1)" using e i lt by (simp add: p)
      have "unat d \<le> unat len" using d(1) by (simp add: word_le_nat_alt)
      then have "take (unat d) (sg_run (p # sg)) = run_bytes addr (unat d)" by (simp add: run take_run_bytes)
      then show ?thesis using s d(3,4) False tot \<open>unat d \<le> unat len\<close> by (intro exI [of _ "unat d"]) simp
    qed
  qed
qed

subsection \<open>The finished chain\<close>

lemma ap_link_views:
  assumes "ap_link dv b cnt m = Some m'"
  shows "host_addr d (m' k) = host_addr d (m k)" "dev_addr d (m' k) = dev_addr d (m k)"
    "bytes (m' k) = bytes (m k)" "\<not> (dv \<le> k \<and> k < dv + unat cnt) \<Longrightarrow> m' k = m k"
proof -
  have c: "cnt \<noteq> 0" using assms by (auto simp: ap_link_def split: if_splits)
  then have n: "0 < unat cnt" by (simp add: unat_gt_0)
  show "host_addr d (m' k) = host_addr d (m k)" "dev_addr d (m' k) = dev_addr d (m k)" "bytes (m' k) = bytes (m k)"
    using assms c by (auto simp: ap_link_def Let_def pool_loop_apply xdma_desc_adjacent_def host_addr_def dev_addr_def
        desc_views)
  show "m' k = m k" if "\<not> (dv \<le> k \<and> k < dv + unat cnt)"
    using assms c n that by (auto simp: ap_link_def Let_def pool_loop_apply)
qed

lemma chain_bytes_views:
  assumes "\<And>k. host_addr d (m' k) = host_addr d (m k)" and "\<And>k. bytes (m' k) = bytes (m k)"
  shows "chain_bytes d m' dv n = chain_bytes d m dv n"
  by (simp add: chain_bytes_def assms)

lemma window_cfg:
  assumes "0 < ap" and "unat ep + 2 * unat ap < 2 ^ 64" and "0 < desc_blen_max E"
  shows "window (ap_cfg E g write (aperture_request ep ap sgt)) (unat ap)"
proof -
  have "unat (ep + ucast ap) = unat ep + unat ap" using assms(2) by (simp add: unat_word_ariths unat_ucast32)
  moreover have a: "0 < unat ap" using assms(1) by (simp add: word_less_nat_alt)
  ultimately have "unat (ep + ucast ap) \<noteq> 0" and e: "unat (ep + ucast ap) = unat ep + unat ap" by linarith+
  then have "ep + ucast ap \<noteq> 0" by (metis unat_0)
  then have l: "unat (ep + ucast ap - 1) = unat ep + unat ap - 1" unfolding e [symmetric] by (rule unat_minus_one)
  have "unat (min ap (desc_blen_max E)) \<le> unat ap" by (simp add: min_def word_le_nat_alt)
  moreover have "0 < min ap (desc_blen_max E)" using assms(1,3) by (simp add: min_def)
  ultimately show ?thesis
    using assms(2) l a unat_u32 [of ap] by (simp add: window_def ap_cfg_def aperture_request_def)
qed

lemma ap_start_inv:
  assumes "0 \<le> desc_idx g" and "desc_idx g < uint (desc_max g)" and "0 < A" and "ap_base c = ep" and "ap_max c = desc_max g"
  shows "ap_inv c A 0 (nat (desc_idx g)) (desc_mem g) [] (ap_start g (aperture_request ep ap sgt))"
proof -
  have u: "uint (word_of_int (desc_idx g) :: u32) = desc_idx g"
    using assms(1,2) uint_lt2p [of "desc_max g"] by (simp add: uint_word_of_int)
  have "unat (word_of_int (desc_idx g) :: u32) = nat (desc_idx g)" by (simp only: unat_eq_nat_uint u)
  moreover have "nat (desc_idx g) \<le> unat (desc_max g)" using assms(2) by (simp only: unat_eq_nat_uint)
  ultimately show ?thesis
    using assms by (simp add: ap_inv_def ap_start_def aperture_request_def request_zero_def chain_bytes_def)
qed

text \<open>What building a chain from a fresh request leaves: some bytes are served, and all of them or as many as the
  pool has room for.\<close>

lemma ap_build_effect:
  fixes E :: env and s :: world and sgt :: sg_table
  assumes "0 < ap" and "unat ep + 2 * unat ap < 2 ^ 64" and "0 < desc_blen_max E"
    and "0 \<le> desc_idx (get_eng s e)" and "desc_idx (get_eng s e) < uint (desc_max (get_eng s e))"
    and "length (mapped sgt) = sg_nents sgt" and "sg_nents sgt < 2 ^ 32"
    and "0 < sg_total (mapped sgt)" and "sg_total (mapped sgt) < 2 ^ 32"
  obtains q i' st where "q \<le> sg_total (mapped sgt)" "ap_build E (get_eng s e) out sgt (aperture_request ep ap sgt) = (i', st)" "ap_cnt st \<noteq> 0"
    "ap_inv (ap_cfg E (get_eng s e) out (aperture_request ep ap sgt)) (unat ap) 0 (nat (desc_idx (get_eng s e)))
       (desc_mem (get_eng s e)) (take q (sg_run (mapped sgt))) st"
    "q = sg_total (mapped sgt) \<or> ap_idx st = desc_max (get_eng s e)"
proof -
  let ?g = "get_eng s e" and ?r = "aperture_request ep ap sgt"
  let ?sg = "mapped sgt" and ?c = "ap_cfg E ?g out ?r" and ?dv = "nat (desc_idx ?g)"
  have w: "window ?c (unat ap)" by (rule window_cfg [OF assms(1-3)])
  have cf: "ap_base ?c = ep" "ap_max ?c = desc_max ?g" by (simp_all add: ap_cfg_def aperture_request_def)
  have A: "0 < unat ap" using assms(1) by (simp add: word_less_nat_alt)
  have i0: "ap_inv ?c (unat ap) 0 ?dv (desc_mem ?g) [] (ap_start ?g ?r)"
    by (rule ap_start_inv [OF assms(4,5) A cf])
  have z: "ap_sgoff (ap_start ?g ?r) = 0" "sg_idx ?r = 0" by (simp_all add: ap_start_def aperture_request_def request_zero_def)
  have u: "unat (of_nat (sg_nents sgt) :: u32) = sg_nents sgt" using assms(7) by (simp add: unat_of_nat)
  have "0 + length ([] :: u64 list) + sg_total ?sg < 2 ^ 32" using assms(9) by simp
  from ap_sgl_inv [OF w i0 z(1), of 0 ?sg "of_nat (sg_nents sgt)", OF _ this] assms(6) u
  obtain q i' st where q: "q \<le> sg_total ?sg" "ap_build E ?g out sgt ?r = (i', st)"
    "ap_inv ?c (unat ap) 0 ?dv (desc_mem ?g) (take q (sg_run ?sg)) st" "q = sg_total ?sg \<or> ap_idx st = desc_max ?g"
    by (auto simp: ap_build_def z(2) cf(2))
  have "ap_cnt st \<noteq> 0"
  proof
    have len: "length (take q (sg_run ?sg)) = q" using q(1) by (simp add: length_sg_run)
    assume "ap_cnt st = 0"
    with q(3) have "take q (sg_run ?sg) = []" and i: "unat (ap_idx st) = ?dv" by (simp_all add: ap_inv_def chain_bytes_def)
    then have "q = 0" using len by (metis list.size(3))
    then have "ap_idx st = desc_max ?g" using q(4) assms(8) by simp
    then have "nat (uint (desc_max ?g)) = ?dv" using i by (simp only: unat_eq_nat_uint)
    then show False using assms(4,5) by linarith
  qed
  with q show thesis by (rule_tac that)
qed

text \<open>What preparing a round leaves in the request, the transfer and the pool.\<close>

lemma aperture_prepare_effect:
  assumes "ap_build E (get_eng s e) out sgt r = (i', st)"
    and "ap_link (nat (desc_idx (get_eng s e))) (desc_bus (get_eng s e) + 32 * word_of_int (desc_idx (get_eng s e))) (ap_cnt st)
      (ap_pool st) = Some m"
  obtains req' s' where "aperture_prepare E e x out sgt dma_mapped r s = Some (req', s')"
    "offset req' = ap_off st" "desc_mem (get_eng s' e) = m" "desc_num (get_xfer s' x) = uint (ap_cnt st)"
    "xlen (get_xfer s' x) = ap_len st" "last_in_request (get_xfer s' x) = (ap_off st = total_len r)"
proof -
  define s' where "s' = snd (the (aperture_prepare E e x out sgt dma_mapped r s))"
  define req' where "req' = fst (the (aperture_prepare E e x out sgt dma_mapped r s))"
  have ts: "desc_virt (transfer_start (get_eng s e)) = nat (desc_idx (get_eng s e))"
    "xdesc_bus (transfer_start (get_eng s e)) = desc_bus (get_eng s e) + 32 * word_of_int (desc_idx (get_eng s e))"
    by (simp_all add: transfer_start_def)
  show thesis
    by (rule that [of req' s'])
      (simp_all add: req'_def s'_def aperture_prepare_def Let_def assms ts get_xfer_def upd_xfer_def)
qed

text \<open>C27: the first chain of an aperture transfer.  In order, its descriptors serve the first bytes of the
  scatter-gather list, as many as the transfer records; the byte at offset \<open>o\<close> of the data meets the
  device address \<open>ep + o mod ap\<close>, and no descriptor reaches outside the window
  \<open>[ep, ep + ap)\<close>.  The chain ends with the data, and then the transfer is the last one, or at the
  end of the descriptor pool.  Descriptors outside the chain are untouched.\<close>

theorem aperture_chain:
  fixes E :: env and s :: world and sgt :: sg_table
  assumes "0 < ap" and "unat ep + 2 * unat ap < 2 ^ 64" and "0 < desc_blen_max E"
    and "0 \<le> desc_idx (get_eng s e)" and "desc_idx (get_eng s e) < uint (desc_max (get_eng s e))"
    and "length (mapped sgt) = sg_nents sgt" and "sg_nents sgt < 2 ^ 32"
    and "0 < sg_total (mapped sgt)" and "sg_total (mapped sgt) < 2 ^ 32"
  shows "\<exists>req' s'. aperture_prepare E e x out sgt dma_mapped (aperture_request ep ap sgt) s = Some (req', s')
     \<and> (let m = desc_mem (get_eng s' e); d = write_dir out; dv = nat (desc_idx (get_eng s e)); n = nat (desc_num (get_xfer s' x))
        in 0 < n \<and> dv + n \<le> unat (desc_max (get_eng s e))
           \<and> chain_bytes d m dv n = take (unat (offset req')) (sg_run (mapped sgt))
           \<and> xlen (get_xfer s' x) = offset req'
           \<and> last_in_request (get_xfer s' x) = (unat (offset req') = sg_total (mapped sgt))
           \<and> (last_in_request (get_xfer s' x) \<or> dv + n = unat (desc_max (get_eng s e)))
           \<and> (\<forall>k<n. unat (dev_addr d (m (dv + k))) = unat ep + length (chain_bytes d m dv k) mod unat ap
                  \<and> unat (dev_addr d (m (dv + k))) + unat (bytes (m (dv + k))) \<le> unat ep + unat ap)
           \<and> (\<forall>k. \<not> (dv \<le> k \<and> k < dv + n) \<longrightarrow> m k = desc_mem (get_eng s e) k))"
proof -
  let ?g = "get_eng s e" and ?r = "aperture_request ep ap sgt" and ?sg = "mapped sgt" and ?d = "write_dir out"
  let ?c = "ap_cfg E ?g out ?r" and ?dv = "nat (desc_idx (get_eng s e))"
  have cf: "ap_dir ?c = ?d" "ap_base ?c = ep" "ap_max ?c = desc_max ?g"
    by (simp_all add: ap_cfg_def aperture_request_def)
  obtain q i' st where q: "q \<le> sg_total ?sg" "ap_build E ?g out sgt ?r = (i', st)" "ap_cnt st \<noteq> 0"
    "ap_inv ?c (unat ap) 0 ?dv (desc_mem ?g) (take q (sg_run ?sg)) st" "q = sg_total ?sg \<or> ap_idx st = desc_max ?g"
    by (rule ap_build_effect [OF assms])
  have len: "length (take q (sg_run ?sg)) = q" using q(1) by (simp add: length_sg_run)
  note inv = q(4) [unfolded ap_inv_def cf len]
  obtain m where m: "ap_link ?dv (desc_bus ?g + 32 * word_of_int (desc_idx ?g)) (ap_cnt st) (ap_pool st) = Some m"
    using q(3) by (auto simp: ap_link_def Let_def)
  obtain req' s' where p: "aperture_prepare E e x out sgt dma_mapped ?r s = Some (req', s')"
    and r: "offset req' = ap_off st" "desc_mem (get_eng s' e) = m" "desc_num (get_xfer s' x) = uint (ap_cnt st)"
      "xlen (get_xfer s' x) = ap_len st" "last_in_request (get_xfer s' x) = (ap_off st = total_len ?r)"
    by (rule aperture_prepare_effect [OF q(2) m])
  note v = ap_link_views [OF m]
  have cb: "chain_bytes d m ?dv k = chain_bytes d (ap_pool st) ?dv k" for d k
    by (rule chain_bytes_views) (simp_all add: v)
  have "total_len ?r = sum_list (map snd ?sg)" by (simp add: aperture_request_def)
  then have tn: "unat (total_len ?r) = sg_total ?sg"
    using assms(9) unat_sum_list [of snd ?sg] by (simp add: sg_total_def comp_def)
  have n: "nat (desc_num (get_xfer s' x)) = unat (ap_cnt st)" by (simp add: r(3))
  have offq: "unat (ap_off st) = q" "unat (ap_len st) = q" using inv by simp_all
  have lst: "last_in_request (get_xfer s' x) = (q = sg_total ?sg)"
    unfolding r(5) by (metis offq(1) tn word_unat_eq_iff)
  have end': "?dv + unat (ap_cnt st) = unat (desc_max ?g)" if "q \<noteq> sg_total ?sg" using that q(5) inv by simp
  have "unat (dev_addr ?d (m (?dv + k))) = unat ep + length (chain_bytes ?d m ?dv k) mod unat ap
      \<and> unat (dev_addr ?d (m (?dv + k))) + unat (bytes (m (?dv + k))) \<le> unat ep + unat ap" if "k < unat (ap_cnt st)" for k
    using inv that by (simp add: in_window_def Let_def cf v cb)
  moreover have "0 < unat (ap_cnt st)" using q(3) by (simp add: unat_gt_0)
  moreover have "\<forall>k. \<not> (?dv \<le> k \<and> k < ?dv + unat (ap_cnt st)) \<longrightarrow> m k = desc_mem ?g k" using inv v(4) by simp
  moreover have "chain_bytes ?d m ?dv (unat (ap_cnt st)) = take q (sg_run ?sg)"
    "?dv + unat (ap_cnt st) \<le> unat (desc_max ?g)" using inv by (simp_all add: cb)
  moreover have "ap_len st = ap_off st" using offq by (simp add: word_unat_eq_iff)
  ultimately show ?thesis
    using p end' by (intro exI [of _ req'] exI [of _ s']) (simp only: Let_def n r(1,2,4) lst offq simp_thms, blast)
qed

text \<open>Two entries for an engine at the start of a pool of two descriptors.\<close>

definition window_sgt :: sg_table where
  "window_sgt = \<lparr>sgl_ents = [(0x1000, 6), (0x2000, 2)], orig_nents = 2, sg_nents = 2\<rparr>"

definition window_world :: world where
  "window_world = upd_eng (H2C 0) (\<lambda>g. g\<lparr>emagic := MAGIC_ENGINE, edir := DMA_TO_DEVICE, desc_max := 2\<rparr>) world0"

theorem aperture_chain_witness:
  "\<exists>req' s'. aperture_prepare env0 (H2C 0) (7, 0) True window_sgt True (aperture_request 0x100 4 window_sgt) window_world
     = Some (req', s') \<and> (\<forall>k<nat (desc_num (get_xfer s' (7, 0))).
          unat (dev_addr DMA_TO_DEVICE (desc_mem (get_eng s' (H2C 0)) k)) + unat (bytes (desc_mem (get_eng s' (H2C 0)) k)) \<le> 260)"
proof -
  have m: "mapped window_sgt = [(0x1000, 6), (0x2000, 2)]" "sg_nents window_sgt = 2" by (simp_all add: window_sgt_def mapped_def)
  have g: "desc_idx (get_eng window_world (H2C 0)) = 0" "desc_max (get_eng window_world (H2C 0)) = 2"
    by (simp_all add: window_world_def engine_zero_def)
  have b: "0 < desc_blen_max env0" by (simp add: env0_def)
  show ?thesis
    using aperture_chain [where ap = "4" and ep = "0x100" and E = env0 and s = window_world and e = "H2C 0" and sgt = window_sgt
        and x = "(7, 0)" and out = True and dma_mapped = True, OF _ _ b]
    by (fastforce simp: m g sg_total_def write_dir_def Let_def)
qed

text \<open>
  The second chain of a transfer, when the first one has filled the pool.  The code takes up the list at
  its first entry again, so what should be the third entry is read from the address of the first.
\<close>

definition restart_sgt :: sg_table where
  "restart_sgt = \<lparr>sgl_ents = [(0x1000, 2), (0x2000, 2), (0x3000, 2)], orig_nents = 3, sg_nents = 3\<rparr>"

text \<open>Three entries through a pool of two descriptors: the chain of the second round, which has to
  serve the entry at \<open>0x3000\<close>, is built from the entry at \<open>0x1000\<close>, sent before.\<close>

theorem aperture_second_chain_restarts:
  "(case aperture_prepare env0 (H2C 0) (7, 0) True restart_sgt True (aperture_request 0x100 16 restart_sgt) window_world of
      Some (req, s) \<Rightarrow>
        offset req = 4 \<and> sg_idx req = 2
        \<and> chain_bytes DMA_TO_DEVICE (desc_mem (get_eng s (H2C 0))) 0 2 = [0x1000, 0x1001, 0x2000, 0x2001]
        \<and> (case aperture_prepare env0 (H2C 0) (7, 0) True restart_sgt True req s of
             Some (req, s) \<Rightarrow> offset req = total_len req
               \<and> chain_bytes DMA_TO_DEVICE (desc_mem (get_eng s (H2C 0))) 0 1 = [0x1000, 0x1001]
           | None \<Rightarrow> False)
    | None \<Rightarrow> False)"
  by code_simp

end
