(* ===== verification/User_Buffer.thy ===== *)
theory User_Buffer
  imports Cdev Aperture
begin

text \<open>
  User buffers of DMA requests (\<open>cdev_sgdma.c\<close>): the alignment check, pinning the pages of a buffer and
  describing it by a scatter-gather table, and releasing the pages.
\<close>

section \<open>The I/O control block\<close>

text \<open>
  \<open>io_pages\<close> is the array of page pointers, \<open>None\<close> before it is allocated; a page is named by a number,
  \<open>0\<close> for NULL.  The table holds what the DMA layer makes of the entries: the bus address of the page
  plus the offset, every entry mapped on its own.
\<close>

record xdma_io_cb =
  io_buf :: u64
  io_len :: u64
  io_pages_nr :: u32
  io_pages :: "nat list option"
  io_sgt :: sg_table
  io_ep :: u64
  io_write :: bool

definition sgt_zero :: sg_table where
  "sgt_zero = \<lparr>sgl_ents = [], orig_nents = 0, sg_nents = 0\<rparr>"

definition io_cb_zero :: xdma_io_cb where
  "io_cb_zero = \<lparr>io_buf = 0, io_len = 0, io_pages_nr = 0, io_pages = None, io_sgt = sgt_zero, io_ep = 0,
     io_write = False\<rparr>"

text \<open>The page size of the kernel.\<close>

definition KPAGE_SHIFT :: nat where "KPAGE_SHIFT = 12"
definition KPAGE_SIZE :: u64 where "KPAGE_SIZE = 4096"

section \<open>Alignment\<close>

text \<open>
  The low bits are taken of \<open>int\<close> values, so an alignment of zero, which the \<open>u8\<close> field of an engine never
  set up has, selects all bits.
\<close>

definition low_bits :: "u64 \<Rightarrow> u8 \<Rightarrow> u32" where
  "low_bits v align = ucast v AND (ucast align - 1)"

definition check_transfer_align :: "eref option \<Rightarrow> u64 \<Rightarrow> u64 \<Rightarrow> u64 \<Rightarrow> bool \<Rightarrow> world \<Rightarrow> unit res" where
  "check_transfer_align eo buf count pos sync s =
     (case eo of
        None \<Rightarrow> Inl EINVAL
      | Some e \<Rightarrow>
          let g = get_eng s e; buf_lsb = low_bits buf (addr_align g); pos_lsb = low_bits pos (addr_align g) in
          if non_incr_addr g
          then if buf_lsb \<noteq> 0 then Inl EINVAL
               else if pos_lsb \<noteq> 0 \<and> sync then Inl EINVAL
               else if count AND (ucast (len_granularity g) - 1) \<noteq> 0 then Inl EINVAL
               else Inr ()
          else if buf_lsb \<noteq> pos_lsb then Inl EINVAL else Inr ())"

section \<open>Releasing a buffer\<close>

text \<open>The loop stops at the first page pointer that is NULL.\<close>

fun put_pages :: "bool \<Rightarrow> nat list \<Rightarrow> world \<Rightarrow> world" where
  "put_pages write [] s = s"
| "put_pages write (p # ps) s =
     (if p = 0 then s
      else let s = (if write then s else emit (Kernel ''set_page_dirty_lock'' [int p] 0) s)
           in put_pages write ps (emit (Kernel ''put_page'' [int p] 0) s))"

definition sg_free_table :: "xdma_io_cb \<Rightarrow> world \<Rightarrow> xdma_io_cb \<times> world" where
  "sg_free_table cb s = (cb\<lparr>io_sgt := sgt_zero\<rparr>, emit (Kernel ''sg_free_table'' [] 0) s)"

definition char_sgdma_unmap_user_buf :: "xdma_io_cb \<Rightarrow> bool \<Rightarrow> world \<Rightarrow> xdma_io_cb \<times> world" where
  "char_sgdma_unmap_user_buf cb write s =
     (let (cb, s) = sg_free_table cb s
      in case io_pages cb of
           None \<Rightarrow> (cb, s)
         | Some ps \<Rightarrow>
             if io_pages_nr cb = 0 then (cb, s)
             else let s = put_pages write (take (unat (io_pages_nr cb)) ps) s
                  in (cb\<lparr>io_pages := None\<rparr>, emit (Kernel ''kfree_pages'' [] 0) s))"

definition xdma_io_cb_release :: "xdma_io_cb \<Rightarrow> world \<Rightarrow> xdma_io_cb \<times> world" where
  "xdma_io_cb_release cb s =
     (let ps = (case io_pages cb of None \<Rightarrow> [] | Some ps \<Rightarrow> take (unat (io_pages_nr cb)) ps);
          s = fold (\<lambda>p. emit (Kernel ''put_page'' [int p] 0)) ps s;
          (cb, s) = sg_free_table cb s
      in (io_cb_zero, emit (Kernel ''kfree_pages'' [] 0) s))"

section \<open>Describing a buffer\<close>

definition buf_pages_nr :: "u64 \<Rightarrow> u64 \<Rightarrow> u32" where
  "buf_pages_nr buf len =
     ucast (drop_bit KPAGE_SHIFT ((buf + len + KPAGE_SIZE - 1) - (buf AND NOT (KPAGE_SIZE - 1))))"

text \<open>The loop over the pages: page, length and offset of every entry, and the length left at the end.\<close>

fun sg_pages :: "nat list \<Rightarrow> u64 \<Rightarrow> u64 \<Rightarrow> (nat \<times> u32 \<times> u32) list \<times> u64" where
  "sg_pages [] buf len = ([], len)"
| "sg_pages (p # ps) buf len =
     (let off = ucast (buf AND (KPAGE_SIZE - 1)) :: u32;
          nbytes = min (ucast KPAGE_SIZE - off) (ucast len);
          (ents, rest) = sg_pages ps (buf + ucast nbytes) (len - ucast nbytes)
      in ((p, nbytes, off) # ents, rest))"

text \<open>The check for a page that was returned twice in a row.\<close>

fun equal_neighbours :: "nat list \<Rightarrow> bool" where
  "equal_neighbours (p # q # ps) \<longleftrightarrow> p = q \<or> equal_neighbours (q # ps)"
| "equal_neighbours _ \<longleftrightarrow> False"

definition page_bus :: "env \<Rightarrow> world \<Rightarrow> nat \<Rightarrow> u64" where
  "page_bus E s p = word_of_int (kernel E (trace s) ''page_bus'' [int p])"

text \<open>The pages a call of \<open>get_user_pages_fast\<close> that pinned \<open>k\<close> of them returned; the array was zeroed.\<close>

definition pinned_pages :: "env \<Rightarrow> u64 \<Rightarrow> nat \<Rightarrow> nat \<Rightarrow> world \<Rightarrow> nat list" where
  "pinned_pages E buf k n s =
     map (\<lambda>i. nat (kernel E (trace s) ''user_page'' [uint buf, int i])) [0..<k] @ replicate (n - k) 0"

definition char_sgdma_map_user_buf_to_sgl :: "env \<Rightarrow> xdma_io_cb \<Rightarrow> bool \<Rightarrow> world \<Rightarrow> unit res \<times> xdma_io_cb \<times> world" where
  "char_sgdma_map_user_buf_to_sgl E cb write s =
     (let n = buf_pages_nr (io_buf cb) (io_len cb);
          err_out = (\<lambda>rv cb s. let (cb, s) = char_sgdma_unmap_user_buf cb write s in (Inl rv, cb, s)) in
      if n = 0 then (Inl EINVAL, cb, s)
      else let (v, s) = kcall E ''sg_alloc_table'' [uint n] s in
      if v \<noteq> 0 then (Inl ENOMEM, cb, s)
      else let (v, s) = kcall E ''kcalloc_pages'' [uint n] s in
      if v = 0 then err_out ENOMEM cb s
      else let (v, s) = kcall E ''get_user_pages_fast'' [uint (io_buf cb), uint n] s;
               ps = pinned_pages E (io_buf cb) (nat v) (unat n) s;
               cb = cb\<lparr>io_pages := Some ps\<rparr> in
      if v < 0 then err_out (kerr v) cb s
      else if v \<noteq> uint n then err_out EFAULT (cb\<lparr>io_pages_nr := word_of_int v\<rparr>) s
      else if equal_neighbours ps then err_out EFAULT (cb\<lparr>io_pages_nr := n\<rparr>) s
      else let (ents, rest) = sg_pages ps (io_buf cb) (io_len cb);
               cb = cb\<lparr>io_sgt := \<lparr>sgl_ents = map (\<lambda>(p, k, off). (page_bus E s p + ucast off, k)) ents,
                                 orig_nents = unat n, sg_nents = unat n\<rparr>\<rparr> in
      if rest \<noteq> 0 then (Inl EINVAL, cb, s)
      else (Inr (), cb\<lparr>io_pages_nr := n\<rparr>, s))"

section \<open>The table describes the buffer\<close>

text \<open>
  The reference: the bytes of a buffer are, in order, those of its pages, each at its offset in the page.
\<close>

definition buf_bytes :: "nat list \<Rightarrow> nat \<Rightarrow> nat \<Rightarrow> (nat \<times> nat) list" where
  "buf_bytes ps b n = map (\<lambda>j. (ps ! ((b mod 4096 + j) div 4096), (b + j) mod 4096)) [0..<n]"

definition ent_bytes :: "nat \<times> u32 \<times> u32 \<Rightarrow> (nat \<times> nat) list" where
  "ent_bytes = (\<lambda>(p, k, off). map (\<lambda>j. (p, unat off + j)) [0..<unat k])"

lemma page_split: "b AND 0xFFF = b - (b AND NOT 0xFFF)" for b :: u64
proof -
  have "(b AND 0xFFF) + (b AND NOT 0xFFF) = (b AND 0xFFF) OR (b AND NOT 0xFFF)"
    by (rule disjunctive_add_eq_or) (simp add: bit_eq_iff bit_simps)
  also have "\<dots> = b" by (rule bit_word_eqI) (auto simp: bit_simps)
  finally show ?thesis by (simp add: algebra_simps)
qed

lemma mask12_num: "(0xFFF :: 'a::len word) = mask 12"
  by (simp add: mask_eq_exp_minus_1)

lemma unat_page_off: "unat (b AND 0xFFF :: u64) = unat b mod 4096"
  unfolding mask12_num take_bit_eq_mask [symmetric] by (simp add: unsigned_take_bit_eq take_bit_eq_mod unat_mod)

lemma buf_pages_nr_nat:
  assumes "unat buf + unat len + 4095 < 2 ^ 64" and "unat len < 2 ^ 32"
  shows "unat (buf_pages_nr buf len) = (unat buf mod 4096 + unat len + 4095) div 4096"
proof -
  have e: "(buf + len + KPAGE_SIZE - 1) - (buf AND NOT (KPAGE_SIZE - 1)) = (buf AND 0xFFF) + len + 0xFFF"
    using page_split [of buf] by (simp add: KPAGE_SIZE_def algebra_simps)
  have m: "unat buf mod 4096 < 4096" by simp
  have u: "unat ((buf AND 0xFFF) + len + 0xFFF) = unat buf mod 4096 + unat len + 4095"
    using assms m by (simp add: unat_word_ariths unat_page_off)
  show ?thesis
    unfolding buf_pages_nr_def e KPAGE_SHIFT_def using u assms(2) m
    by (simp add: unat_ucast64 unat_drop_bit_eq drop_bit_eq_div unat_div)
qed

lemma buf_bytes_Cons:
  assumes "4096 - b mod 4096 \<le> n"
  shows "buf_bytes (p # ps) b n = map (\<lambda>j. (p, b mod 4096 + j)) [0..<4096 - b mod 4096]
     @ buf_bytes ps (b + (4096 - b mod 4096)) (n - (4096 - b mod 4096))"
proof -
  obtain q r where b: "b = 4096 * q + r" and r: "r < 4096" by (metis mod_less_divisor mult_div_mod_eq zero_less_numeral)
  define d where "d = 4096 - r"
  have bm: "b mod 4096 = r" using r by (simp add: b)
  have bd: "b + d = 4096 * (q + 1)" using r by (simp add: b d_def)
  let ?f = "\<lambda>j. ((p # ps) ! ((r + j) div 4096), (b + j) mod 4096)"
  have n: "[0..<n] = [0..<d] @ map (\<lambda>j. j + d) [0..<n - d]"
    using assms upt_add_eq_append [of 0 d "n - d"] map_add_upt [of d "n - d"] by (simp add: d_def bm)
  have lo: "?f j = (p, r + j)" if "j < d" for j
    using that r by (simp add: d_def b add.assoc)
  have hi: "?f (j + d) = (ps ! (j div 4096), j mod 4096)" for j
  proof -
    have "r + (j + d) = j + 4096" "b + (j + d) = 4096 * (q + 1) + j" using r bd by (simp_all add: d_def)
    moreover have "(j + 4096) div 4096 = Suc (j div 4096)" by simp
    ultimately show ?thesis by (simp only: mod_mult_self4 nth_Cons_Suc)
  qed
  have "buf_bytes (p # ps) b n = map ?f [0..<d] @ map (\<lambda>j. ?f (j + d)) [0..<n - d]"
    unfolding buf_bytes_def bm n map_append map_map comp_def ..
  also have "map ?f [0..<d] = map (\<lambda>j. (p, r + j)) [0..<d]" using lo by simp
  also have "map (\<lambda>j. ?f (j + d)) [0..<n - d] = buf_bytes ps (b + d) (n - d)"
    unfolding buf_bytes_def bd hi by (simp only: mod_mult_self1_is_0 mod_mult_self4 add_0)
  finally show ?thesis by (simp only: bm d_def)
qed

lemma buf_bytes_last: "b mod 4096 + n \<le> 4096 \<Longrightarrow> buf_bytes (p # ps) b n = map (\<lambda>j. (p, b mod 4096 + j)) [0..<n]"
  by (auto simp: buf_bytes_def mod_add_left_eq [of b 4096, symmetric])

text \<open>The offset and the size of the entry for the first page, and where the rest of the buffer begins.\<close>

lemma page_entry:
  fixes buf len :: u64
  defines "off \<equiv> ucast (buf AND (KPAGE_SIZE - 1)) :: u32"
  assumes "unat len < 2 ^ 32"
  shows "unat off = unat buf mod 4096"
    and "unat (min (ucast KPAGE_SIZE - off) (ucast len :: u32)) = min (4096 - unat buf mod 4096) (unat len)"
proof -
  show off: "unat off = unat buf mod 4096" by (simp add: off_def KPAGE_SIZE_def unat_ucast64 unat_page_off)
  then have "unat (ucast KPAGE_SIZE - off) = 4096 - unat buf mod 4096" by (simp add: unat_sub_if' KPAGE_SIZE_def)
  moreover have "unat (ucast len :: u32) = unat len" using assms by (simp add: unat_ucast64)
  ultimately show "unat (min (ucast KPAGE_SIZE - off) (ucast len :: u32)) = min (4096 - unat buf mod 4096) (unat len)"
    by (simp add: min_def word_le_nat_alt)
qed

lemma next_page:
  fixes buf len :: u64 and k :: u32
  defines "r \<equiv> unat buf mod 4096"
  assumes "unat k = 4096 - r" and "4096 - r < unat len" and "unat buf + unat len < 2 ^ 64"
  shows "unat (buf + ucast k) = unat buf + (4096 - r)" "unat (len - ucast k) = unat len - (4096 - r)"
    "unat (buf + ucast k) mod 4096 = 0"
proof -
  have r: "r < 4096" by (simp add: r_def)
  have ku: "unat (ucast k :: u64) = 4096 - r" using assms(2) by (simp add: unat_ucast32)
  show b: "unat (buf + ucast k) = unat buf + (4096 - r)" using assms(3,4) r by (simp add: unat_word_ariths ku)
  show "unat (len - ucast k) = unat len - (4096 - r)" using assms(3) by (simp add: unat_sub_if' ku)
  obtain q where q: "unat buf = q * 4096 + r" using div_mult_mod_eq [of "unat buf" 4096] r_def by metis
  have "unat buf + (4096 - r) = (q + 1) * 4096" using r by (simp add: q)
  then show "unat (buf + ucast k) mod 4096 = 0" unfolding b by (simp only: mod_mult_self2_is_0)
qed

lemma sg_pages_exact:
  assumes "unat len < 2 ^ 32" and "unat buf + unat len < 2 ^ 64"
    and "length ps = (unat buf mod 4096 + unat len + 4095) div 4096" and "len \<noteq> 0"
  shows "snd (sg_pages ps buf len) = 0 \<and>
    concat (map ent_bytes (fst (sg_pages ps buf len))) = buf_bytes ps (unat buf) (unat len)"
  using assms
proof (induction ps arbitrary: buf len)
  case Nil
  then have "unat len \<noteq> 0" by (simp add: unat_eq_0)
  then show ?case using Nil(3) by simp
next
  case (Cons p ps)
  define r where "r = unat buf mod 4096"
  let ?off = "ucast (buf AND (KPAGE_SIZE - 1)) :: u32"
  define k where "k = min (ucast KPAGE_SIZE - ?off) (ucast len :: u32)"
  have r: "r < 4096" by (simp add: r_def)
  have off: "unat ?off = r" unfolding r_def by (rule page_entry(1) [OF Cons.prems(1)])
  have k: "unat k = min (4096 - r) (unat len)" using page_entry(2) [OF Cons.prems(1), of buf] by (simp only: k_def r_def)
  have ku: "unat (ucast k :: u64) = unat k" by (rule unat_ucast32)
  have step: "sg_pages (p # ps) buf len = (let (ents, rest) = sg_pages ps (buf + ucast k) (len - ucast k)
      in ((p, k, ?off) # ents, rest))"
    by (simp only: sg_pages.simps Let_def k_def [symmetric])
  show ?case
  proof (cases "unat len \<le> 4096 - r")
    case True
    have "0 < unat len" using Cons.prems(4) by (simp add: unat_gt_0)
    then have "r + unat len + 4095 < 2 * 4096" "4096 \<le> r + unat len + 4095" using True r by simp_all
    then have "(r + unat len + 4095) div 4096 = 1" by (simp add: div_nat_eqI)
    then have ps: "ps = []" using Cons.prems(3) by (simp add: r_def)
    have "unat k = unat len" using k True by simp
    then have "ucast k = len" using ku by (simp add: word_unat_eq_iff)
    moreover have "r + unat len \<le> 4096" using True r by simp
    ultimately show ?thesis
      using buf_bytes_last [of "unat buf" "unat len" p "[]"] \<open>unat k = unat len\<close>
      unfolding step by (simp add: ps ent_bytes_def off r_def)
  next
    case False
    have k4: "unat k = 4096 - r" using k False by simp
    have "4096 - r < unat len" using False by simp
    note b = next_page(1) [OF k4 [unfolded r_def] this [unfolded r_def] Cons.prems(2), folded r_def]
      and l = next_page(2) [OF k4 [unfolded r_def] this [unfolded r_def] Cons.prems(2), folded r_def]
      and bm = next_page(3) [OF k4 [unfolded r_def] this [unfolded r_def] Cons.prems(2)]
    have len: "length ps = (unat (buf + ucast k) mod 4096 + unat (len - ucast k) + 4095) div 4096"
    proof -
      have "r + unat len + 4095 = (unat len - (4096 - r) + 4095) + 4096" using False r by simp
      then show ?thesis using Cons.prems(3) unfolding bm l by (simp add: r_def)
    qed
    have "unat (len - ucast k) < 2 ^ 32" "unat (buf + ucast k) + unat (len - ucast k) < 2 ^ 64"
      using Cons.prems(1,2) False unfolding b l by simp_all
    moreover have "len - ucast k \<noteq> 0" using l False by (auto simp: unat_eq_0 [symmetric])
    ultimately have IH: "snd (sg_pages ps (buf + ucast k) (len - ucast k)) = 0"
      "concat (map ent_bytes (fst (sg_pages ps (buf + ucast k) (len - ucast k)))) =
       buf_bytes ps (unat buf + (4096 - r)) (unat len - (4096 - r))"
      using Cons.IH [OF _ _ len] by (simp_all add: b l)
    have "ent_bytes (p, k, ?off) = map (\<lambda>j. (p, unat buf mod 4096 + j)) [0..<4096 - unat buf mod 4096]"
      by (simp add: ent_bytes_def off k4 r_def)
    then show ?thesis
      using IH False buf_bytes_Cons [of "unat buf" "unat len" p ps]
      unfolding step by (simp add: split_beta r_def)
  qed
qed

lemma sg_pages_empty: "snd (sg_pages ps buf 0) = 0" "concat (map ent_bytes (fst (sg_pages ps buf 0))) = []"
  by (induction ps arbitrary: buf) (simp_all add: Let_def split_beta ent_bytes_def)

lemma length_pinned_pages: "k \<le> n \<Longrightarrow> length (pinned_pages E buf k n s) = n"
  by (simp add: pinned_pages_def)

lemma length_sg_pages [simp]: "length (fst (sg_pages ps buf len)) = length ps"
  by (induction ps arbitrary: buf len) (simp_all add: Let_def split_beta)

text \<open>The table of a buffer below the end of the address space is exact.\<close>

lemma sg_pages_buffer:
  assumes "unat buf + unat len + 4095 < 2 ^ 64" and "unat len < 2 ^ 32"
  shows "snd (sg_pages (pinned_pages E buf (unat (buf_pages_nr buf len)) (unat (buf_pages_nr buf len)) s) buf len) = 0"
    and "concat (map ent_bytes (fst (sg_pages (pinned_pages E buf (unat (buf_pages_nr buf len)) (unat (buf_pages_nr buf len)) s) buf len)))
      = buf_bytes (pinned_pages E buf (unat (buf_pages_nr buf len)) (unat (buf_pages_nr buf len)) s) (unat buf) (unat len)"
  using sg_pages_exact [OF assms(2), of buf "pinned_pages E buf (unat (buf_pages_nr buf len)) (unat (buf_pages_nr buf len)) s"]
    sg_pages_empty [of _ buf] assms(1)
  by (cases "len = 0"; simp add: length_pinned_pages buf_pages_nr_nat [OF assms] buf_bytes_def)+

lemma map_user_buf_effect:
  assumes "char_sgdma_map_user_buf_to_sgl E cb write s = (Inr (), cb', s')"
    and "unat (io_buf cb) + unat (io_len cb) + 4095 < 2 ^ 64" and "unat (io_len cb) < 2 ^ 32"
  shows "\<exists>ps ents. io_pages cb' = Some ps \<and> unat (io_pages_nr cb') = length ps
     \<and> ps = pinned_pages E (io_buf cb) (length ps) (length ps) s' \<and> ents = fst (sg_pages ps (io_buf cb) (io_len cb))
     \<and> io_sgt cb' = \<lparr>sgl_ents = map (\<lambda>(p, k, off). (page_bus E s' p + ucast off, k)) ents,
          orig_nents = length ents, sg_nents = length ents\<rparr>
     \<and> concat (map ent_bytes ents) = buf_bytes ps (unat (io_buf cb)) (unat (io_len cb))"
proof -
  let ?n = "buf_pages_nr (io_buf cb) (io_len cb)"
  let ?p = "\<lambda>s. pinned_pages E (io_buf cb) (unat ?n) (unat ?n) s"
  show ?thesis
    using assms(1) sg_pages_buffer(2) [OF assms(2,3)]
    by (auto simp: char_sgdma_map_user_buf_to_sgl_def Let_def split_beta length_pinned_pages
        intro!: exI [of _ "?p s'"] split: if_splits)
qed


text \<open>A kernel that pins every page it is asked for; the pages of a buffer are numbered from one.\<close>

definition page_env :: env where
  "page_env = prompt_env\<lparr>kernel := (\<lambda>_ f as. if f = ''kcalloc_pages'' \<or> f = ''kmem_cache_alloc'' \<or> f = ''kzalloc_cbs'' then 1
     else if f = ''get_user_pages_fast'' \<or> f = ''user_page'' then last as + of_bool (f = ''user_page'')
     else if f = ''page_bus'' then 4096 * last as else if f = ''dma_map_sg'' then hd as else 0)\<rparr>"

definition small_cb :: xdma_io_cb where
  "small_cb = io_cb_zero\<lparr>io_buf := 0x1FF0, io_len := 0x20\<rparr>"

lemma small_buffer:
  assumes "io_buf cb = 0x1FF0" and "io_len cb = 0x20"
  shows "fst (char_sgdma_map_user_buf_to_sgl page_env cb True s) = Inr ()"
    and "io_sgt (fst (snd (char_sgdma_map_user_buf_to_sgl page_env cb True s))) =
     \<lparr>sgl_ents = [(0x1FF0, 16), (0x2000, 16)], orig_nents = 2, sg_nents = 2\<rparr>"
proof -
  have "buf_pages_nr 0x1FF0 0x20 = 2" by (simp add: buf_pages_nr_def KPAGE_SIZE_def KPAGE_SHIFT_def)
  moreover have "pinned_pages page_env 0x1FF0 2 2 t = [1, 2]" for t
    by (simp add: pinned_pages_def page_env_def upt_rec)
  ultimately show "fst (char_sgdma_map_user_buf_to_sgl page_env cb True s) = Inr ()"
    "io_sgt (fst (snd (char_sgdma_map_user_buf_to_sgl page_env cb True s))) =
     \<lparr>sgl_ents = [(0x1FF0, 16), (0x2000, 16)], orig_nents = 2, sg_nents = 2\<rparr>"
    by (simp_all add: char_sgdma_map_user_buf_to_sgl_def Let_def split_beta assms
        kcall_def page_env_def KPAGE_SIZE_def page_bus_def)
qed

lemma small_cb_fields: "io_buf small_cb = 0x1FF0" "io_len small_cb = 0x20"
  by (simp_all add: small_cb_def io_cb_zero_def)


section \<open>Accounts\<close>

text \<open>How many page references and page arrays are held.\<close>

definition pin_delta :: "event \<Rightarrow> int" where
  "pin_delta ev = (case ev of Kernel f as r \<Rightarrow>
     if f = ''get_user_pages_fast'' then max 0 r else if f = ''put_page'' then - 1 else 0 | _ \<Rightarrow> 0)"

definition arr_delta :: "event \<Rightarrow> int" where
  "arr_delta ev = (case ev of Kernel f as r \<Rightarrow>
     if f = ''kcalloc_pages'' then of_bool (r \<noteq> 0) else if f = ''kfree_pages'' then - 1 else 0 | _ \<Rightarrow> 0)"

lemma delta_simps [simp]:
  "pin_delta (Kernel f as r) = (if f = ''get_user_pages_fast'' then max 0 r else if f = ''put_page'' then - 1 else 0)"
  "arr_delta (Kernel f as r) = (if f = ''kcalloc_pages'' then of_bool (r \<noteq> 0) else if f = ''kfree_pages'' then - 1 else 0)"
  by (simp_all add: pin_delta_def arr_delta_def)

lemma put_pages_account:
  "balance pin_delta (put_pages write ps s) = balance pin_delta s - int (length (takeWhile (\<lambda>p. p \<noteq> 0) ps))"
  "balance arr_delta (put_pages write ps s) = balance arr_delta s"
  by (induction ps arbitrary: s) simp_all

lemma unmap_account:
  assumes "char_sgdma_unmap_user_buf cb write s = (cb', s')"
  shows "balance pin_delta s' = balance pin_delta s - (case io_pages cb of None \<Rightarrow> 0
      | Some ps \<Rightarrow> int (length (takeWhile (\<lambda>p. p \<noteq> 0) (take (unat (io_pages_nr cb)) ps))))"
    and "balance arr_delta s' + of_bool (io_pages cb \<noteq> None) = balance arr_delta s + of_bool (io_pages cb' \<noteq> None)"
    and "io_pages cb' = (if io_pages_nr cb = 0 then io_pages cb else None)"
  using assms by (auto simp: char_sgdma_unmap_user_buf_def sg_free_table_def put_pages_account split: option.splits if_splits)

text \<open>What \<open>get_user_pages_fast\<close> promises: at most the pages asked for, none of them NULL.\<close>

definition pins_pages :: "env \<Rightarrow> bool" where
  "pins_pages E \<longleftrightarrow> (\<forall>tr buf n. kernel E tr ''get_user_pages_fast'' [buf, n] \<le> n)
     \<and> (\<forall>tr buf i. 0 \<le> i \<longrightarrow> 0 < kernel E tr ''user_page'' [buf, i])"

lemma pinned_nonzero:
  assumes "pins_pages E" and "k \<le> n"
  shows "takeWhile (\<lambda>p. p \<noteq> 0) (take k (pinned_pages E buf k n s)) = take k (pinned_pages E buf k n s)"
    and "length (take k (pinned_pages E buf k n s)) = k"
  using assms by (auto simp: pinned_pages_def pins_pages_def takeWhile_eq_all_conv take_map)


lemma page_env_pins: "pins_pages page_env"
  by (simp add: pins_pages_def page_env_def)


text \<open>When the kernel pins no page at all, the array of page pointers stays allocated although the
  mapping fails and its caller drops the control block: \<open>char_sgdma_unmap_user_buf\<close> returns early when
  there is no page.\<close>

theorem map_user_buf_leak:
  assumes "buf_pages_nr (io_buf cb) (io_len cb) \<noteq> 0" and "io_pages_nr cb = 0"
    and "\<And>tr as. kernel E tr ''sg_alloc_table'' as = 0" and "\<And>tr as. kernel E tr ''kcalloc_pages'' as \<noteq> 0"
    and "\<And>tr as. kernel E tr ''get_user_pages_fast'' as \<le> 0"
  shows "fst (char_sgdma_map_user_buf_to_sgl E cb write s) \<noteq> Inr ()
     \<and> balance arr_delta (snd (snd (char_sgdma_map_user_buf_to_sgl E cb write s))) = balance arr_delta s + 1"
proof -
  define n where "n = buf_pages_nr (io_buf cb) (io_len cb)"
  have n: "n \<noteq> 0" using assms(1) by (simp add: n_def)
  then have "0 < uint n" by (simp add: word_less_iff_unsigned [where ?'a = int] word_neq_0_conv)
  then have ne: "kernel E tr ''get_user_pages_fast'' as \<noteq> uint n" for tr as using assms(5) [of tr as] by linarith
  have z: "word_of_int (kernel E tr ''get_user_pages_fast'' as) = (0 :: u32)"
    if "\<not> kernel E tr ''get_user_pages_fast'' as < 0" for tr as using that assms(5) [of tr as] by simp
  show ?thesis
    unfolding char_sgdma_map_user_buf_to_sgl_def n_def [symmetric] using n
    by (auto simp: Let_def kcall_def assms(2-4) ne z char_sgdma_unmap_user_buf_def sg_free_table_def)
qed

theorem map_user_buf_leak_witness:
  "\<exists>s. balance arr_delta s = 1 \<and> s = snd (snd (char_sgdma_map_user_buf_to_sgl
     (env0\<lparr>kernel := (\<lambda>_ f _. if f = ''kcalloc_pages'' then 1 else 0)\<rparr>) small_cb True world0))"
  using map_user_buf_leak [of small_cb "env0\<lparr>kernel := (\<lambda>_ f _. if f = ''kcalloc_pages'' then 1 else 0)\<rparr>" True world0]
  by (simp add: small_cb_def io_cb_zero_def buf_pages_nr_def KPAGE_SIZE_def KPAGE_SHIFT_def balance_def world0_def)

end
