(* ===== verification/Sgdma.thy ===== *)
theory Sgdma
  imports User_Buffer
begin

text \<open>
  The file operations of the DMA device nodes (\<open>cdev_sgdma.c\<close>): seeking, reading and writing, the ioctl
  commands, opening and closing.  Asynchronous I/O is in the theory \<open>Aio\<close>.
\<close>

section \<open>Seeking\<close>

text \<open>A file offset is a signed 64-bit number; \<open>whence\<close> is an \<open>int\<close>.  The new offset is both returned and kept.\<close>

definition char_sgdma_llseek :: "u64 \<Rightarrow> u64 \<Rightarrow> int \<Rightarrow> u64 res \<times> u64" where
  "char_sgdma_llseek f_pos off whence =
     (let newpos = (if whence = 0 then Some off
                    else if whence = 1 then Some (f_pos + off)
                    else if whence = 2 then Some (0xFFFFFFFF + off)
                    else None)
      in case newpos of
           None \<Rightarrow> (Inl EINVAL, f_pos)
         | Some p \<Rightarrow> if p <s 0 then (Inl EINVAL, f_pos) else (Inr p, p))"

section \<open>Reading and writing\<close>

definition rw_cb :: "u64 \<Rightarrow> u64 \<Rightarrow> u64 \<Rightarrow> bool \<Rightarrow> xdma_io_cb" where
  "rw_cb buf count pos write = io_cb_zero\<lparr>io_buf := buf, io_len := count, io_ep := pos, io_write := write\<rparr>"

text \<open>
  The table is mapped, handed to the submission and released; the request gets the number \<open>rid\<close>.
  \<open>None\<close> is a submission that does not return.
\<close>

definition char_sgdma_read_write ::
  "env \<Rightarrow> nat \<Rightarrow> xdma_cdev option \<Rightarrow> u64 \<Rightarrow> u64 \<Rightarrow> u64 \<Rightarrow> bool \<Rightarrow> world \<Rightarrow> (int res \<times> world) option" where
  "char_sgdma_read_write E rid co buf count pos write s =
     (case xcdev_check co True s of
        Inl rv \<Rightarrow> Some (Inl rv, s)
      | Inr _ \<Rightarrow> do {
          c \<leftarrow> co;
          e \<leftarrow> cd_engine c;
          if edir (get_eng s e) \<noteq> write_dir write then Some (Inl EINVAL, s)
          else case check_transfer_align (Some e) buf count pos True s of
                 Inl rv \<Rightarrow> Some (Inl rv, s)
               | Inr _ \<Rightarrow>
                   (case char_sgdma_map_user_buf_to_sgl E (rw_cb buf count pos write) write s of
                      (Inl rv, cb, s) \<Rightarrow> Some (Inl rv, s)
                    | (Inr _, cb, s) \<Rightarrow> do {
                        (res, sgt, s) \<leftarrow> xdma_xfer_submit E rid (self (xdev s)) (channel (get_eng s e)) write pos
                          (io_sgt cb) False s;
                        let (cb, s) = char_sgdma_unmap_user_buf (cb\<lparr>io_sgt := sgt\<rparr>) write s;
                        Some (res, s)
                      })
        })"

definition char_sgdma_write where "char_sgdma_write E rid co buf count pos s = char_sgdma_read_write E rid co buf count pos True s"

definition char_sgdma_read where "char_sgdma_read E rid co buf count pos s = char_sgdma_read_write E rid co buf count pos False s"

section \<open>Commands\<close>

text \<open>The numbers of the commands: direction, size of the argument, the letter \<open>q\<close> and a number.\<close>

definition ioc :: "u32 \<Rightarrow> u32 \<Rightarrow> u32 \<Rightarrow> u32" where
  "ioc dir nr sz = push_bit 30 dir OR push_bit 16 sz OR push_bit 8 0x71 OR nr"

definition IOCTL_XDMA_PERF_START :: u32 where "IOCTL_XDMA_PERF_START = ioc 1 1 8"
definition IOCTL_XDMA_PERF_STOP :: u32 where "IOCTL_XDMA_PERF_STOP = ioc 1 2 8"
definition IOCTL_XDMA_PERF_GET :: u32 where "IOCTL_XDMA_PERF_GET = ioc 2 3 8"
definition IOCTL_XDMA_ADDRMODE_SET :: u32 where "IOCTL_XDMA_ADDRMODE_SET = ioc 1 4 4"
definition IOCTL_XDMA_ADDRMODE_GET :: u32 where "IOCTL_XDMA_ADDRMODE_GET = ioc 2 5 4"
definition IOCTL_XDMA_ALIGN_GET :: u32 where "IOCTL_XDMA_ALIGN_GET = ioc 2 6 4"
definition IOCTL_XDMA_APERTURE_R :: u32 where "IOCTL_XDMA_APERTURE_R = ioc 1 7 8"
definition IOCTL_XDMA_APERTURE_W :: u32 where "IOCTL_XDMA_APERTURE_W = ioc 1 8 8"
definition IOCTL_XDMA_PERF_V1 :: u32 where "IOCTL_XDMA_PERF_V1 = 1"

text \<open>
  Copying a structure in returns how many of its bytes could not be copied; these read as zero.  A field
  of \<open>w\<close> bytes at offset \<open>o\<close> keeps its low bytes that were copied.
\<close>

definition copied_bits :: "nat \<Rightarrow> nat \<Rightarrow> nat" where
  "copied_bits n ofs = 8 * (n - ofs)"

definition copied_perf :: "nat \<Rightarrow> xdma_performance_ioctl \<Rightarrow> xdma_performance_ioctl" where
  "copied_perf n p = \<lparr>perf_version = take_bit (copied_bits n 0) (perf_version p),
     transfer_size = take_bit (copied_bits n 4) (transfer_size p),
     perf_stopped = take_bit (copied_bits n 8) (perf_stopped p),
     iterations = take_bit (copied_bits n 12) (iterations p),
     clock_cycle_count = take_bit (copied_bits n 16) (clock_cycle_count p),
     data_cycle_count = take_bit (copied_bits n 24) (data_cycle_count p),
     pending_count = take_bit (copied_bits n 32) (pending_count p)\<rparr>"

definition PERF_IOCTL_SIZE :: nat where "PERF_IOCTL_SIZE = 40"

text \<open>
  Starting a measurement.  \<open>x\<close> names the transfer that is allocated; \<open>u\<close> is the structure in user memory at
  \<open>arg\<close>.
\<close>

definition ioctl_do_perf_start ::
  "env \<Rightarrow> xref \<Rightarrow> eref option \<Rightarrow> u64 \<Rightarrow> xdma_performance_ioctl \<Rightarrow> world \<Rightarrow> unit res \<times> world" where
  "ioctl_do_perf_start E x eo arg u s =
     (case eo of
        None \<Rightarrow> (Inl EINVAL, s)
      | Some e \<Rightarrow>
          if xdma_perf (get_eng s e) \<noteq> None then (Inl EBUSY, s)
          else if \<not> kzalloc E (trace s) then (Inl ENOMEM, s)
          else let (n, s) = kcall E ''copy_from_user'' [uint arg, int PERF_IOCTL_SIZE] (emit (KAlloc PERF_IOCTL_SIZE) s);
                   p = copied_perf (PERF_IOCTL_SIZE - nat n) u;
                   s = upd_eng e (\<lambda>g. g\<lparr>xdma_perf := Some p\<rparr>) s
               in if n < 0 then (Inl EINVAL, s)
                  else if perf_version p \<noteq> IOCTL_XDMA_PERF_V1 then (Inl EINVAL, s)
                  else xdma_performance_submit E e x (enable_perf E e s))"

text \<open>The structure copied out is returned; a copy that fails makes the number of bytes left the result.\<close>

definition ioctl_do_perf_stop ::
  "env \<Rightarrow> eref option \<Rightarrow> u64 \<Rightarrow> world \<Rightarrow> int res \<times> xdma_performance_ioctl option \<times> world" where
  "ioctl_do_perf_stop E eo arg s =
     (case eo of
        None \<Rightarrow> (Inl EINVAL, None, s)
      | Some e \<Rightarrow>
          if xdma_perf (get_eng s e) = None then (Inl EINVAL, None, s)
          else case engine_cyclic_stop E e s of
                 (None, s) \<Rightarrow> (Inl EINVAL, None, s)
               | (Some x, s) \<Rightarrow>
                   let s = get_perf_stats E (Some e) s;
                       p = xdma_perf (get_eng s e);
                       (rv, s) = kcall E ''copy_to_user'' [uint arg, int PERF_IOCTL_SIZE] s
                   in if rv \<noteq> 0 then (Inr rv, p, s)
                      else (Inr 0, p, upd_eng e (\<lambda>g. g\<lparr>xdma_perf := None\<rparr>)
                                        (emit (KFree PERF_IOCTL_SIZE) (emit (Kernel ''kfree_transfer'' [int (fst x)] 0) s))))"

definition ioctl_do_perf_get ::
  "env \<Rightarrow> eref option \<Rightarrow> u64 \<Rightarrow> world \<Rightarrow> int res \<times> xdma_performance_ioctl option \<times> world" where
  "ioctl_do_perf_get E eo arg s =
     (case eo of
        None \<Rightarrow> (Inl EINVAL, None, s)
      | Some e \<Rightarrow>
          if xdma_perf (get_eng s e) = None then (Inl EPROTO, None, s)
          else let s = get_perf_stats E (Some e) s;
                   p = xdma_perf (get_eng s e);
                   (rc, s) = kcall E ''copy_to_user'' [uint arg, int PERF_IOCTL_SIZE] s
               in (Inr rc, p, s))"

definition put_user :: "env \<Rightarrow> u64 \<Rightarrow> int \<Rightarrow> world \<Rightarrow> int res \<times> world" where
  "put_user E arg v s = (let (rv, s) = kcall E ''put_user'' [uint arg, v] s in (if rv < 0 then Inl (kerr rv) else Inr rv, s))"

definition ioctl_do_addrmode_set :: "env \<Rightarrow> eref \<Rightarrow> int res \<Rightarrow> world \<Rightarrow> unit res \<times> world" where
  "ioctl_do_addrmode_set E e arg s = engine_addrmode_set E e arg s"

definition ioctl_do_addrmode_get :: "env \<Rightarrow> eref option \<Rightarrow> u64 \<Rightarrow> world \<Rightarrow> int res \<times> world" where
  "ioctl_do_addrmode_get E eo arg s =
     (case eo of None \<Rightarrow> (Inl EINVAL, s) | Some e \<Rightarrow> put_user E arg (of_bool (non_incr_addr (get_eng s e))) s)"

definition ioctl_do_align_get :: "env \<Rightarrow> eref option \<Rightarrow> u64 \<Rightarrow> world \<Rightarrow> int res \<times> world" where
  "ioctl_do_align_get E eo arg s =
     (case eo of None \<Rightarrow> (Inl EINVAL, s) | Some e \<Rightarrow> put_user E arg (uint (addr_align (get_eng s e))) s)"

section \<open>Aperture transfers\<close>

record xdma_aperture_ioctl =
  ai_ep_addr :: u64
  ai_aperture :: u32
  ai_buffer :: u64
  ai_len :: u64
  ai_error :: "errno option"
  ai_done :: u64

text \<open>The size of the structure with its padding, and the part of it that was copied in.\<close>

definition APERTURE_IOCTL_SIZE :: nat where "APERTURE_IOCTL_SIZE = 48"

definition copied_aperture :: "nat \<Rightarrow> xdma_aperture_ioctl \<Rightarrow> xdma_aperture_ioctl" where
  "copied_aperture n u = u\<lparr>ai_ep_addr := take_bit (copied_bits n 0) (ai_ep_addr u),
     ai_aperture := take_bit (copied_bits n 8) (ai_aperture u),
     ai_buffer := take_bit (copied_bits n 16) (ai_buffer u),
     ai_len := take_bit (copied_bits n 24) (ai_len u),
     ai_done := take_bit (copied_bits n 40) (ai_done u)\<rparr>"

text \<open>
  The field \<open>error\<close> is overwritten before it is read, so its copied value does not matter.  The structure
  copied out is returned.
\<close>

definition ioctl_do_aperture_dma ::
  "env \<Rightarrow> nat \<Rightarrow> eref \<Rightarrow> u64 \<Rightarrow> xdma_aperture_ioctl \<Rightarrow> bool \<Rightarrow> world \<Rightarrow>
   (int res \<times> xdma_aperture_ioctl option \<times> world) option" where
  "ioctl_do_aperture_dma E rid e arg u write s =
     (let (n, s) = kcall E ''copy_from_user'' [uint arg, int APERTURE_IOCTL_SIZE] s;
          io = copied_aperture (APERTURE_IOCTL_SIZE - nat n) u in
      if n < 0 then Some (Inl EINVAL, None, s)
      else if edir (get_eng s e) \<noteq> write_dir write then Some (Inl EINVAL, None, s)
      else case check_transfer_align (Some e) (ai_buffer io) (ai_len io) (ai_ep_addr io) True s of
             Inl rv \<Rightarrow> Some (Inl rv, None, s)
           | Inr _ \<Rightarrow>
               (case char_sgdma_map_user_buf_to_sgl E (rw_cb (ai_buffer io) (ai_len io) (ai_ep_addr io) write) write s of
                  (Inl rv, cb, s) \<Rightarrow> Some (Inl rv, None, s)
                | (Inr _, cb, s) \<Rightarrow> do {
                    (res, sgt, s) \<leftarrow> xdma_xfer_aperture E rid (Some e) write (ai_ep_addr io) (ai_aperture io)
                      (io_sgt cb) False s;
                    let (cb, s) = char_sgdma_unmap_user_buf (cb\<lparr>io_sgt := sgt\<rparr>) write s;
                    let io = (case res of Inl rv \<Rightarrow> io\<lparr>ai_error := Some rv\<rparr>
                                        | Inr k \<Rightarrow> io\<lparr>ai_error := None, ai_done := word_of_int k\<rparr>);
                    let (rv, s) = kcall E ''copy_to_user'' [uint arg, int APERTURE_IOCTL_SIZE] s;
                    if rv < 0 then Some (Inl EINVAL, Some io, s)
                    else Some (case ai_error io of Some rv \<Rightarrow> Inl rv | None \<Rightarrow> Inr 0, Some io, s)
                  }))"

section \<open>Dispatch\<close>

text \<open>What the argument of a command points to in user memory, read according to the command.\<close>

record user_arg =
  ua_perf :: xdma_performance_ioctl
  ua_ap :: xdma_aperture_ioctl
  ua_int :: "int res"

definition res0 :: "unit res \<Rightarrow> int res" where
  "res0 r = (case r of Inl rv \<Rightarrow> Inl rv | Inr _ \<Rightarrow> Inr 0)"

definition char_sgdma_ioctl ::
  "env \<Rightarrow> nat \<Rightarrow> xdma_cdev option \<Rightarrow> u32 \<Rightarrow> u64 \<Rightarrow> user_arg \<Rightarrow> world \<Rightarrow> (int res \<times> world) option" where
  "char_sgdma_ioctl E rid co cmd arg u s =
     (case xcdev_check co True s of
        Inl rv \<Rightarrow> Some (Inl rv, s)
      | Inr _ \<Rightarrow> do {
          c \<leftarrow> co;
          e \<leftarrow> cd_engine c;
          if cmd = IOCTL_XDMA_PERF_START
          then let (rv, s) = ioctl_do_perf_start E (rid, 0) (Some e) arg (ua_perf u) s in Some (res0 rv, s)
          else if cmd = IOCTL_XDMA_PERF_STOP
          then let (rv, p, s) = ioctl_do_perf_stop E (Some e) arg s in Some (rv, s)
          else if cmd = IOCTL_XDMA_PERF_GET
          then let (rv, p, s) = ioctl_do_perf_get E (Some e) arg s in Some (rv, s)
          else if cmd = IOCTL_XDMA_ADDRMODE_SET
          then let (rv, s) = ioctl_do_addrmode_set E e (ua_int u) s in Some (res0 rv, s)
          else if cmd = IOCTL_XDMA_ADDRMODE_GET then Some (ioctl_do_addrmode_get E (Some e) arg s)
          else if cmd = IOCTL_XDMA_ALIGN_GET then Some (ioctl_do_align_get E (Some e) arg s)
          else if cmd = IOCTL_XDMA_APERTURE_R
          then do { (rv, io, s) \<leftarrow> ioctl_do_aperture_dma E rid e arg (ua_ap u) False s; Some (rv, s) }
          else if cmd = IOCTL_XDMA_APERTURE_W
          then do { (rv, io, s) \<leftarrow> ioctl_do_aperture_dma E rid e arg (ua_ap u) True s; Some (rv, s) }
          else Some (Inl EINVAL, s)
        })"

section \<open>Opening and closing\<close>

text \<open>
  The result of \<open>char_open\<close> is not looked at.  \<open>fp\<close> is the \<open>private_data\<close> of the file; dereferencing a NULL
  pointer, of the file or of the engine, is \<open>None\<close>.
\<close>

definition char_sgdma_open ::
  "xdma_cdev \<Rightarrow> xdma_cdev option \<Rightarrow> bool \<Rightarrow> world \<Rightarrow> (unit res \<times> xdma_cdev option \<times> world) option" where
  "char_sgdma_open c fp trunc s =
     do {
       let fp = snd (char_open c fp);
       xc \<leftarrow> fp;
       e \<leftarrow> cd_engine xc;
       if c2h_st (get_eng s e)
       then if device_open (get_eng s e) then Some (Inl EBUSY, fp, s)
            else Some (Inr (), fp, upd_eng e (\<lambda>g. g\<lparr>device_open := True, eop_flush := trunc\<rparr>) s)
       else Some (Inr (), fp, s)
     }"

definition char_sgdma_close :: "xdma_cdev option \<Rightarrow> world \<Rightarrow> unit res \<times> world" where
  "char_sgdma_close co s =
     (case xcdev_check co True s of
        Inl rv \<Rightarrow> (Inl rv, s)
      | Inr _ \<Rightarrow>
          (case co of
             None \<Rightarrow> (Inr (), s)
           | Some c \<Rightarrow>
               (case cd_engine c of
                  None \<Rightarrow> (Inr (), s)
                | Some e \<Rightarrow>
                    (Inr (), if c2h_st (get_eng s e) then upd_eng e (\<lambda>g. g\<lparr>device_open := False\<rparr>) s else s))))"

section \<open>A write or read moves the whole buffer\<close>

text \<open>Handling the user buffer changes nothing but the trace.\<close>

definition only_trace :: "world \<Rightarrow> world \<Rightarrow> bool" where
  "only_trace s s' \<longleftrightarrow> s' = s\<lparr>trace := trace s'\<rparr>"

lemma only_trace_intros [simp]:
  "only_trace s s" "only_trace s (emit ev s') \<longleftrightarrow> only_trace s s'"
  by (cases s; cases s'; simp add: only_trace_def emit_def)+

lemma put_pages_only: "only_trace s (put_pages write ps s') \<longleftrightarrow> only_trace s s'"
  by (induction ps arbitrary: s') simp_all

lemma unmap_only: "only_trace s (snd (char_sgdma_unmap_user_buf cb write s')) \<longleftrightarrow> only_trace s s'"
  by (auto simp: char_sgdma_unmap_user_buf_def sg_free_table_def put_pages_only split: option.splits)

lemma map_user_buf_only: "only_trace s (snd (snd (char_sgdma_map_user_buf_to_sgl E cb write s)))"
  by (auto simp: char_sgdma_map_user_buf_to_sgl_def Let_def split_beta unmap_only kcall_def)

lemma only_traceD:
  assumes "only_trace s s'"
  shows "xdev s' = xdev s" "get_eng s' e = get_eng s e" "xdev_list s' = xdev_list s"
    "submit_check h ch write s' = submit_check h ch write s" "engine_ready E e s' = engine_ready E e s"
proof -
  have e: "s' = s\<lparr>trace := trace s'\<rparr>" using assms by (simp only: only_trace_def)
  show x: "xdev s' = xdev s" "xdev_list s' = xdev_list s" by (subst e, simp)+
  have g: "get_eng s' r = get_eng s r" for r by (cases r) (simp_all add: get_eng.simps x)
  then show "get_eng s' e = get_eng s e" .
  have f: "xdma_device_flag_check s' v = xdma_device_flag_check s v" for v
    by (simp add: xdma_device_flag_check_def x)
  have c: "check_engine s' r write = check_engine s r write" "select_engine s' write ch = select_engine s write ch"
    "debug_check_dev_hndl p h s' = debug_check_dev_hndl p h s" for r p
    by (simp_all add: check_engine_def select_engine_def debug_check_dev_hndl_def xdev_find_by_pdev_def x g f)
  show "submit_check h ch write s' = submit_check h ch write s" unfolding submit_check_def x c ..
  show "engine_ready E e s' = engine_ready E e s" by (simp add: engine_ready_def queue_open_def g f)
qed

lemma only_trace_trans: "only_trace s t \<Longrightarrow> only_trace t u \<Longrightarrow> only_trace s u"
proof -
  assume "only_trace s t" "only_trace t u"
  then have t: "t = s\<lparr>trace := trace t\<rparr>" and u: "u = t\<lparr>trace := trace u\<rparr>" by (simp_all only: only_trace_def)
  have "t\<lparr>trace := trace u\<rparr> = s\<lparr>trace := trace u\<rparr>" by (subst t) simp
  with u show "only_trace s u" by (simp only: only_trace_def)
qed

lemma length_chunks_le: "0 < b \<Longrightarrow> length (chunks b n) \<le> n"
proof -
  assume b: "0 < b"
  have "length xs \<le> sum_list xs" if "\<forall>x\<in>set xs. 0 < x" for xs :: "nat list"
    using that by (induction xs) auto
  then show ?thesis using chunks_sum [OF b, of n] chunks_bound [of _ b n] by metis
qed

lemma chunk_count_le: "0 < b \<Longrightarrow> chunk_count b sg \<le> sum_list (map (unat \<circ> snd) sg)"
  using length_chunks_le [of "unat b"] by (induction sg) (auto simp: chunk_count_def unat_gt_0 intro: add_mono)

text \<open>The DMA layer maps every entry of a table.\<close>

definition maps_all :: "env \<Rightarrow> bool" where
  "maps_all E \<longleftrightarrow> (\<forall>tr n d. kernel E tr ''dma_map_sg'' [n, d] = n)"

lemma sg_pages_bound:
  "(p, k, off) \<in> set (fst (sg_pages ps buf len)) \<Longrightarrow> unat k \<le> 4096"
proof (induction ps arbitrary: buf len)
  case (Cons q ps)
  define o' where "o' = (ucast (buf AND (KPAGE_SIZE - 1)) :: u32)"
  have "unat o' = unat buf mod 4096" by (simp add: o'_def KPAGE_SIZE_def unat_ucast64 unat_page_off)
  then have "unat (ucast KPAGE_SIZE - o') \<le> 4096"
    using mod_less_divisor [of 4096 "unat buf"] by (simp add: KPAGE_SIZE_def unat_sub_if')
  then have "unat (min (ucast KPAGE_SIZE - o') (ucast len :: u32)) \<le> 4096"
    by (simp add: min_def word_le_nat_alt)
  then show ?case using Cons by (auto simp: Let_def split_beta o'_def)
qed simp

text \<open>The table of a mapped buffer, as the submission needs it.\<close>

lemma mapped_buffer_table:
  assumes m: "char_sgdma_map_user_buf_to_sgl E (rw_cb buf count pos write) write s = (Inr (), cb', s')"
    and "maps_all E" and "0 < count" and "unat buf + unat count + 4095 < 2 ^ 64" and "unat count < 2 ^ 32"
  shows "\<exists>sgt1 s1. submit_map E (io_sgt cb') False write s' = (Inr (), sgt1, s1)
     \<and> sg_bytes_total sgt1 = unat count \<and> (\<forall>(a, k) \<in> set (mapped sgt1). unat k \<le> 4096)"
proof -
  have rw: "io_buf (rw_cb buf count pos write) = buf" "io_len (rw_cb buf count pos write) = count"
    by (simp_all add: rw_cb_def)
  from map_user_buf_effect [OF m] assms(4,5) obtain ps ents where
    ents: "ents = fst (sg_pages ps buf count)"
    and sgt: "io_sgt cb' = \<lparr>sgl_ents = map (\<lambda>(p, k, off). (page_bus E s' p + ucast off, k)) ents,
          orig_nents = length ents, sg_nents = length ents\<rparr>"
    and bytes: "concat (map ent_bytes ents) = buf_bytes ps (unat buf) (unat count)"
    unfolding rw by blast
  have "sum_list (map (unat \<circ> fst \<circ> snd) es) = length (concat (map ent_bytes es))" for es
    by (induction es) (simp_all add: ent_bytes_def split_beta)
  from this [of ents] have sum: "sum_list (map (unat \<circ> fst \<circ> snd) ents) = unat count"
    unfolding bytes by (simp add: buf_bytes_def)
  then have ne: "ents \<noteq> []" using assms(3) by (auto simp: unat_eq_0)
  let ?sgt = "io_sgt cb'"
  have "submit_map E ?sgt False write s' = (Inr (), ?sgt, snd (kcall E ''dma_map_sg''
      [int (length ents), dir_code (write_dir write)] s'))"
    using assms(2) ne by (simp add: submit_map_def sg_map_def sgt split_beta maps_all_def)
  moreover have "mapped ?sgt = map (\<lambda>(p, k, off). (page_bus E s' p + ucast off, k)) ents"
    by (simp add: mapped_def sgt)
  moreover from this have "sg_bytes_total ?sgt = sum_list (map (unat \<circ> fst \<circ> snd) ents)"
    by (simp add: sg_bytes_total_def comp_def split_beta)
  ultimately show ?thesis using sum sg_pages_bound [of _ _ _ ps buf count] ents by fastforce
qed


definition h2c_cdev :: xdma_cdev where
  "h2c_cdev = cdev_zero\<lparr>cd_magic := MAGIC_CHAR, cd_xdev := True, cd_engine := Some (H2C 0)\<rparr>"


section \<open>One reader\<close>

text \<open>C33: a streaming C2H channel has at most one open file.  Opening it succeeds only if it is not open,
  marks it open, and every further opening is refused with the state unchanged until it is closed; closing
  makes it available again.\<close>

theorem sgdma_exclusive_open:
  assumes "cd_magic c = MAGIC_CHAR" and "cd_engine c = Some e" and "c2h_st (get_eng s e)" and "\<not> device_open (get_eng s e)"
    and "xcdev_check (Some c) True s = Inr ()"
  shows "\<exists>s1. char_sgdma_open c fp tr s = Some (Inr (), Some c, s1) \<and> eop_flush (get_eng s1 e) = tr
     \<and> (\<forall>fp' tr'. char_sgdma_open c fp' tr' s1 = Some (Inl EBUSY, Some c, s1))
     \<and> (\<exists>s2. char_sgdma_close (Some c) s1 = (Inr (), s2) \<and> get_eng s2 e = (get_eng s e)\<lparr>eop_flush := tr\<rparr>
          \<and> (\<forall>fp' tr'. \<exists>s3. char_sgdma_open c fp' tr' s2 = Some (Inr (), Some c, s3)))"
proof -
  let ?s1 = "upd_eng e (\<lambda>g. g\<lparr>device_open := True, eop_flush := tr\<rparr>) s"
  let ?s2 = "upd_eng e (\<lambda>g. g\<lparr>device_open := False\<rparr>) ?s1"
  have c: "xcdev_check (Some c) True ?s1 = Inr ()"
    using assms(1,2,5) by (auto simp: xcdev_check_def split: if_splits)
  have o1: "char_sgdma_open c fp tr s = Some (Inr (), Some c, ?s1)"
    using assms by (simp add: char_sgdma_open_def char_open_def)
  have st: "c2h_st (get_eng ?s1 e)" "c2h_st (get_eng ?s2 e)" using assms(3) by (simp_all add: c2h_st_def)
  have g: "get_eng ?s2 e = (get_eng s e)\<lparr>eop_flush := tr\<rparr>" using assms(4) by simp
  have o2: "char_sgdma_open c fp' tr' ?s1 = Some (Inl EBUSY, Some c, ?s1)" for fp' tr'
    using assms(1,2) st by (simp add: char_sgdma_open_def char_open_def)
  have cl: "char_sgdma_close (Some c) ?s1 = (Inr (), ?s2)"
    using assms(2) c st by (simp add: char_sgdma_close_def)
  have o3: "\<exists>s3. char_sgdma_open c fp' tr' ?s2 = Some (Inr (), Some c, s3)" for fp' tr'
    using assms(1,2) st by (simp add: char_sgdma_open_def char_open_def)
  have f: "eop_flush (get_eng ?s1 e) = tr" by simp
  show ?thesis using o1 f o2 cl g o3 by blast
qed

definition streaming_world :: world where
  "streaming_world = upd_eng (C2H 0) (\<lambda>g. g\<lparr>emagic := MAGIC_ENGINE, streaming := True, edir := DMA_FROM_DEVICE\<rparr>) world0"

definition c2h_cdev :: xdma_cdev where
  "c2h_cdev = h2c_cdev\<lparr>cd_engine := Some (C2H 0)\<rparr>"

theorem sgdma_exclusive_open_witness:
  "\<exists>s1. char_sgdma_open c2h_cdev None False streaming_world = Some (Inr (), Some c2h_cdev, s1)
     \<and> char_sgdma_open c2h_cdev None True s1 = Some (Inl EBUSY, Some c2h_cdev, s1)"
proof -
  have "cd_magic c2h_cdev = MAGIC_CHAR" "cd_engine c2h_cdev = Some (C2H 0)" "c2h_st (get_eng streaming_world (C2H 0))"
    "\<not> device_open (get_eng streaming_world (C2H 0))" "xcdev_check (Some c2h_cdev) True streaming_world = Inr ()"
    by (simp_all add: c2h_cdev_def h2c_cdev_def streaming_world_def c2h_st_def engine_zero_def xcdev_check_def
        cdev_zero_def xdev0_def)
  from sgdma_exclusive_open [OF this, of None False] show ?thesis by blast
qed

section \<open>Measurements\<close>

text \<open>A measurement request of an unknown version is refused, but the engine keeps the structure it
  allocated and counts as being measured: every later start is refused as busy, and as long as no transfer
  is queued stopping is refused as well.\<close>

theorem perf_start_version_wedges:
  assumes "xdma_perf (get_eng s e) = None" and "kzalloc E (trace s)"
    and "perf_version (copied_perf (PERF_IOCTL_SIZE - nat (fst (kcall E ''copy_from_user'' [uint arg, int PERF_IOCTL_SIZE]
          (emit (KAlloc PERF_IOCTL_SIZE) s)))) u) \<noteq> IOCTL_XDMA_PERF_V1"
  shows "\<exists>s'. ioctl_do_perf_start E x (Some e) arg u s = (Inl EINVAL, s') \<and> xdma_perf (get_eng s' e) \<noteq> None
     \<and> (\<forall>E' x' arg' u'. ioctl_do_perf_start E' x' (Some e) arg' u' s' = (Inl EBUSY, s'))
     \<and> (transfer_list (get_eng s e) = [] \<longrightarrow> (\<forall>E' arg'. ioctl_do_perf_stop E' (Some e) arg' s' = (Inl EINVAL, None, s')))"
  using assms by (simp add: ioctl_do_perf_start_def ioctl_do_perf_stop_def engine_cyclic_stop_def Let_def kcall_def)

theorem perf_start_version_wedges_witness:
  "\<exists>s'. ioctl_do_perf_start env0 (7, 0) (Some (H2C 0)) 0x1000
       \<lparr>perf_version = 2, transfer_size = 0, perf_stopped = 0, iterations = 0, clock_cycle_count = 0,
         data_cycle_count = 0, pending_count = 0\<rparr> world0 = (Inl EINVAL, s')
     \<and> (\<forall>u. ioctl_do_perf_start env0 (7, 0) (Some (H2C 0)) 0x1000 u s' = (Inl EBUSY, s'))"
proof -
  let ?u = "\<lparr>perf_version = 2, transfer_size = 0, perf_stopped = 0, iterations = 0, clock_cycle_count = 0,
         data_cycle_count = 0, pending_count = 0\<rparr> :: xdma_performance_ioctl"
  have t: "take_bit 320 (2 :: u32) = 2" by (simp add: take_bit_word_eq_self)
  show ?thesis
    using perf_start_version_wedges [of world0 "H2C 0" env0 "0x1000" ?u "(7, 0)"]
    by (fastforce simp: engine_zero_def env0_def copied_perf_def copied_bits_def PERF_IOCTL_SIZE_def IOCTL_XDMA_PERF_V1_def
        kcall_def t)
qed

section \<open>Alignment\<close>

lemma low_bits_mod:
  assumes "a = 2 ^ k" and "k < 8"
  shows "unat (low_bits v a) = unat v mod 2 ^ k"
proof -
  have "k \<in> set [0..<8]" using assms(2) by simp
  then have "(ucast a - 1 :: u32) = mask k" unfolding assms(1) by (auto simp: upt_rec mask_eq_exp_minus_1)
  then have "low_bits v a = take_bit k (ucast v)" by (simp add: low_bits_def take_bit_eq_mask)
  then have "unat (low_bits v a) = (unat v mod 2 ^ 32) mod 2 ^ k"
    using assms(2) by (simp only: unsigned_take_bit_eq unat_ucast64) (simp only: take_bit_eq_mod)
  also have "(2 ^ k :: nat) dvd 2 ^ 32" using assms(2) by (intro le_imp_power_dvd) simp
  then have "(unat v mod 2 ^ 32) mod 2 ^ k = unat v mod 2 ^ k" by (rule mod_mod_cancel)
  finally show ?thesis .
qed

lemma gran_mod:
  assumes "a = (2 ^ k :: u8)" and "k < 8"
  shows "unat (v AND (ucast a - 1) :: u64) = unat v mod 2 ^ k"
proof -
  have "k \<in> set [0..<8]" using assms(2) by simp
  then have "(ucast a - 1 :: u64) = mask k" unfolding assms(1) by (auto simp: upt_rec mask_eq_exp_minus_1)
  then have "v AND (ucast a - 1) = take_bit k v" by (simp only: take_bit_eq_mask)
  then show ?thesis by (simp only: unsigned_take_bit_eq) (simp only: take_bit_eq_mod)
qed

text \<open>C28: the alignment check with bit masks is the arithmetic one.  For an engine whose alignment and length
  granularity are powers of two, a fixed-address transfer is accepted exactly if buffer and position are
  multiples of the alignment and the length is a multiple of the granularity, an incremental one exactly if
  buffer and position have the same remainder.\<close>

theorem check_transfer_align_spec:
  assumes "addr_align (get_eng s e) = 2 ^ k" and "k < 8" and "len_granularity (get_eng s e) = 2 ^ j" and "j < 8"
  shows "check_transfer_align (Some e) buf count pos True s = Inr () \<longleftrightarrow>
    (if non_incr_addr (get_eng s e) then 2 ^ k dvd unat buf \<and> 2 ^ k dvd unat pos \<and> 2 ^ j dvd unat count
     else unat buf mod 2 ^ k = unat pos mod 2 ^ k)"
proof -
  note lb = low_bits_mod [OF assms(1,2)]
  have z: "low_bits v (addr_align (get_eng s e)) = 0 \<longleftrightarrow> 2 ^ k dvd unat v" for v
    using lb [of v] by (simp add: unat_eq_0 [symmetric] dvd_eq_mod_eq_0)
  have g: "count AND (ucast (len_granularity (get_eng s e)) - 1) = 0 \<longleftrightarrow> 2 ^ j dvd unat count"
    using gran_mod [OF assms(3,4), of count] by (simp add: unat_eq_0 [symmetric] dvd_eq_mod_eq_0)
  have q: "low_bits buf (addr_align (get_eng s e)) = low_bits pos (addr_align (get_eng s e)) \<longleftrightarrow>
      unat buf mod 2 ^ k = unat pos mod 2 ^ k"
    using lb by (metis word_unat_eq_iff)
  show ?thesis by (auto simp: check_transfer_align_def Let_def z g q)
qed

theorem check_transfer_align_spec_witness:
  "check_transfer_align (Some (H2C 0)) 0x1008 64 0x28 True
     (upd_eng (H2C 0) (\<lambda>g. g\<lparr>addr_align := 8, len_granularity := 1\<rparr>) world0) = Inr ()"
  using check_transfer_align_spec [where k = 3 and j = 0 and e = "H2C 0" and buf = "0x1008" and count = 64 and pos = "0x28"
    and s = "upd_eng (H2C 0) (\<lambda>g. g\<lparr>addr_align := 8, len_granularity := 1\<rparr>) world0"]
  by (simp add: engine_zero_def)

end
