(* ===== verification/Aio.thy ===== *)
theory Aio
  imports Sgdma
begin

text \<open>
  Asynchronous reads and writes (\<open>cdev_sgdma.c\<close>): submitting the segments of a request and the handler
  that runs when the engine completes one of them.  The branches for kernels from 5.16 on are modelled.
\<close>

section \<open>The request\<close>

text \<open>
  The context of a request (\<open>struct cdev_async_io\<close>) and its control blocks with what they point to.
  \<open>ai_reported\<close> are the results reported to the kernel by \<open>ki_complete\<close>, \<open>ai_caio_freed\<close> counts the releases
  of the context and \<open>ai_cb_freed\<close> lists the control blocks passed to \<open>kfree\<close>.
\<close>

record cdev_async_io =
  ai_write :: bool
  ai_cancel :: bool
  cmpl_cnt :: int
  req_cnt :: int
  ai_res :: int
  ai_res2 :: int
  err_cnt :: int
  ai_cbs :: "xdma_io_cb list"
  ai_reqs :: "xdma_request_cb option list"
  ai_reported :: "int list"
  ai_caio_freed :: nat
  ai_cb_freed :: "nat list"

definition caio_start :: "bool \<Rightarrow> nat \<Rightarrow> cdev_async_io" where
  "caio_start write n = \<lparr>ai_write = write, ai_cancel = False, cmpl_cnt = 0, req_cnt = int n, ai_res = 0, ai_res2 = 0,
     err_cnt = 0, ai_cbs = [], ai_reqs = [], ai_reported = [], ai_caio_freed = 0, ai_cb_freed = []\<rparr>"

text \<open>The negative number an error code is returned as.\<close>

definition ssize :: "int res \<Rightarrow> int" where
  "ssize r = (case r of Inl rv \<Rightarrow> - errno_code rv | Inr k \<Rightarrow> k)"

section \<open>Completion\<close>

definition free_caio :: "nat \<Rightarrow> cdev_async_io \<Rightarrow> cdev_async_io" where
  "free_caio k a = a\<lparr>ai_caio_freed := ai_caio_freed a + 1, ai_cb_freed := ai_cb_freed a @ [k]\<rparr>"

text \<open>The bookkeeping after a segment, and the report when it was the last.\<close>

definition aio_account :: "nat \<Rightarrow> int \<Rightarrow> int \<Rightarrow> cdev_async_io \<Rightarrow> cdev_async_io" where
  "aio_account k err numbytes a =
     (let a = a\<lparr>ai_res2 := ai_res2 a OR (if err < 0 then err else 0)\<rparr>;
          a = (if ai_res2 a \<noteq> 0 then a\<lparr>err_cnt := err_cnt a + 1\<rparr> else a);
          a = a\<lparr>cmpl_cnt := cmpl_cnt a + 1, ai_res := ai_res a + numbytes\<rparr>
      in if cmpl_cnt a = req_cnt a
         then free_caio k (a\<lparr>ai_reported := ai_reported a @ [if err_cnt a \<noteq> 0 then ai_res2 a else ai_res a]\<rparr>)
         else a)"

text \<open>
  The handler for control block \<open>k\<close>, with the outcome of the \<open>spin_trylock\<close>.  The request of a block
  has the number \<open>rid + k\<close>.
\<close>

definition async_io_handler ::
  "env \<Rightarrow> xdma_cdev option \<Rightarrow> bool \<Rightarrow> nat \<Rightarrow> nat \<Rightarrow> int \<Rightarrow> cdev_async_io \<times> world \<Rightarrow> (cdev_async_io \<times> world) option" where
  "async_io_handler E co lock rid k err = (\<lambda>(a, s).
     case xcdev_check co True s of
       Inl rv \<Rightarrow> Some (a, s)
     | Inr _ \<Rightarrow>
         if \<not> lock
         then Some (a\<lparr>ai_reported := ai_reported a @ [- errno_code EBUSY], ai_caio_freed := ai_caio_freed a + 1\<rparr>, s)
         else if ai_cancel a then Some (free_caio k a, s)
         else do {
           c \<leftarrow> co;
           e \<leftarrow> cd_engine c;
           let cb = ai_cbs a ! k;
           (numbytes, sgt, s) \<leftarrow>
             (if err = 0
              then do {
                req \<leftarrow> ai_reqs a ! k;
                (r, sgt, s) \<leftarrow> xdma_xfer_completion E (rid + k) req (channel (get_eng s e)) (io_write cb) (io_sgt cb) False s;
                Some (ssize r, sgt, s)
              }
              else Some (0, io_sgt cb, s));
           let (cb, s) = char_sgdma_unmap_user_buf (cb\<lparr>io_sgt := sgt\<rparr>) (io_write cb) s;
           Some (aio_account k err numbytes (a\<lparr>ai_cbs := (ai_cbs a)[k := cb]\<rparr>), s)
         })"

section \<open>Submission\<close>

text \<open>
  The loop over the segments \<open>(base, length)\<close> from number \<open>k\<close> on.  Both directions map the buffer with
  \<open>write = true\<close>; the result of the submission is not looked at.  Control block \<open>k\<close> is named \<open>cb0 + k\<close>.
\<close>

fun aio_loop ::
  "env \<Rightarrow> nat \<Rightarrow> cbref \<Rightarrow> eref \<Rightarrow> bool \<Rightarrow> u64 \<Rightarrow> nat \<Rightarrow> (u64 \<times> u64) list \<Rightarrow> cdev_async_io \<times> world \<Rightarrow>
   (unit res \<times> cdev_async_io \<times> world) option" where
  "aio_loop E rid cb0 e write pos k [] st = Some (Inr (), st)"
| "aio_loop E rid cb0 e write pos k ((base, len) # segs) (a, s) =
     (case check_transfer_align (Some e) base len pos True s of
        Inl rv \<Rightarrow> Some (Inl rv, a\<lparr>ai_caio_freed := ai_caio_freed a + 1\<rparr>, s)
      | Inr _ \<Rightarrow>
          (case char_sgdma_map_user_buf_to_sgl E (rw_cb base len pos write) True s of
             (Inl rv, cb, s) \<Rightarrow> Some (Inl rv, a\<lparr>ai_cbs := ai_cbs a @ [cb], ai_reqs := ai_reqs a @ [None]\<rparr>, s)
           | (Inr _, cb, s) \<Rightarrow> do {
               (rv, ro, sgt, s) \<leftarrow> xdma_xfer_submit_nowait E (rid + k) (cb0 + k) (self (xdev s)) (channel (get_eng s e))
                 write pos (io_sgt cb) False s;
               aio_loop E rid cb0 e write pos (k + 1) segs
                 (a\<lparr>ai_cbs := ai_cbs a @ [cb\<lparr>io_sgt := sgt\<rparr>], ai_reqs := ai_reqs a @ [ro]\<rparr>, s)
             }))"

definition cdev_aio_submit ::
  "env \<Rightarrow> nat \<Rightarrow> cbref \<Rightarrow> xdma_cdev option \<Rightarrow> bool \<Rightarrow> (u64 \<times> u64) list \<Rightarrow> u64 \<Rightarrow> world \<Rightarrow>
   (errno \<times> cdev_async_io option \<times> world) option" where
  "cdev_aio_submit E rid cb0 co write segs pos s =
     (case co of
        None \<Rightarrow> Some (EINVAL, None, s)
      | Some c \<Rightarrow> do {
          e \<leftarrow> cd_engine c;
          if edir (get_eng s e) \<noteq> write_dir write then Some (EINVAL, None, s)
          else let (p, s) = kcall E ''kmem_cache_alloc'' [] s; (q, s) = kcall E ''kzalloc_cbs'' [int (length segs)] s
               in if p = 0 \<or> (q = 0 \<and> segs \<noteq> []) then None
                  else do {
                    (rv, a, s) \<leftarrow> aio_loop E rid cb0 e write pos 0 segs (caio_start write (length segs), s);
                    case rv of
                      Inl rv \<Rightarrow> Some (rv, Some a, s)
                    | Inr _ \<Rightarrow>
                        let s = (case cmplthp (get_eng s e) of Some i \<Rightarrow> xdma_kthread_wakeup i s | None \<Rightarrow> s)
                        in Some (EIOCBQUEUED, Some a, s)
                  }
        })"

definition cdev_aio_write where "cdev_aio_write E rid cb0 co segs pos s = cdev_aio_submit E rid cb0 co True segs pos s"

definition cdev_aio_read where "cdev_aio_read E rid cb0 co segs pos s = cdev_aio_submit E rid cb0 co False segs pos s"

text \<open>
  The entry points of newer kernels get an iterator over the segments; the position of the file, \<open>ki_pos\<close>
  of the control block, is not read.
\<close>

record iov_iter =
  it_iov :: "(u64 \<times> u64) list"
  nr_segs :: nat
  iov_offset :: u64

definition cdev_write_iter ::
  "env \<Rightarrow> nat \<Rightarrow> cbref \<Rightarrow> xdma_cdev option \<Rightarrow> u64 \<Rightarrow> iov_iter \<Rightarrow> world \<Rightarrow> (errno \<times> cdev_async_io option \<times> world) option" where
  "cdev_write_iter E rid cb0 co ki_pos it s = cdev_aio_write E rid cb0 co (take (nr_segs it) (it_iov it)) (iov_offset it) s"

definition cdev_read_iter ::
  "env \<Rightarrow> nat \<Rightarrow> cbref \<Rightarrow> xdma_cdev option \<Rightarrow> u64 \<Rightarrow> iov_iter \<Rightarrow> world \<Rightarrow> (errno \<times> cdev_async_io option \<times> world) option" where
  "cdev_read_iter E rid cb0 co ki_pos it s = cdev_aio_read E rid cb0 co (take (nr_segs it) (it_iov it)) (iov_offset it) s"

section \<open>A request is reported once\<close>

text \<open>
  The handlers that run for a request, each a control block and an error, with the bytes it accounts for.
  Between two of them the driver may do anything to the world.
\<close>

inductive aio_runs :: "env \<Rightarrow> xdma_cdev option \<Rightarrow> nat \<Rightarrow> cdev_async_io \<Rightarrow> (nat \<times> int \<times> int) list \<Rightarrow> cdev_async_io \<Rightarrow> bool"
  for E co rid where
  aio_none: "aio_runs E co rid a [] a"
| aio_more: "xcdev_check co True s = Inr () \<Longrightarrow> async_io_handler E co True rid k err (a, s) = Some (a1, s1) \<Longrightarrow>
    aio_runs E co rid a1 hs a2 \<Longrightarrow> aio_runs E co rid a ((k, err, ai_res a1 - ai_res a) # hs) a2"

text \<open>One handler is one step of the bookkeeping.\<close>

lemma handler_account:
  assumes "xcdev_check co True s = Inr ()" and "async_io_handler E co True rid k err (a, s) = Some (a1, s1)"
    and "\<not> ai_cancel a"
  shows "\<exists>cbs b. a1 = aio_account k err b (a\<lparr>ai_cbs := cbs\<rparr>)"
  using assms by (auto simp: async_io_handler_def Let_def split_beta split: bind_splits option.splits if_splits)

definition err_bits :: "(nat \<times> int \<times> int) list \<Rightarrow> int" where
  "err_bits hs = fold (\<lambda>(k, err, b) r. r OR (if err < 0 then err else 0)) hs 0"

text \<open>The state of a request after \<open>hs\<close> of its \<open>n\<close> handlers.\<close>

definition aio_inv :: "nat \<Rightarrow> (nat \<times> int \<times> int) list \<Rightarrow> cdev_async_io \<Rightarrow> bool" where
  "aio_inv n hs a \<longleftrightarrow> \<not> ai_cancel a \<and> req_cnt a = int n \<and> cmpl_cnt a = int (length hs)
     \<and> ai_res a = sum_list (map (snd \<circ> snd) hs) \<and> ai_res2 a = err_bits hs
     \<and> (ai_res2 a = 0 \<longrightarrow> err_cnt a = 0) \<and> (ai_res2 a \<noteq> 0 \<longrightarrow> 0 < err_cnt a) \<and> 0 \<le> err_cnt a
     \<and> (if hs \<noteq> [] \<and> length hs = n
        then ai_reported a = [if err_bits hs \<noteq> 0 then err_bits hs else sum_list (map (snd \<circ> snd) hs)]
          \<and> ai_caio_freed a = 1 \<and> ai_cb_freed a = [fst (last hs)]
        else ai_reported a = [] \<and> ai_caio_freed a = 0 \<and> ai_cb_freed a = [])"

lemma aio_account_inv:
  assumes "aio_inv n hs a" and "length hs < n"
  shows "aio_inv n (hs @ [(k, err, ai_res (aio_account k err b a) - ai_res a)]) (aio_account k err b a)"
proof -
  have r: "ai_res (aio_account k err b a) = ai_res a + b"
    by (simp add: aio_account_def Let_def free_caio_def)
  have or0: "x OR y = 0 \<longleftrightarrow> x = 0 \<and> y = (0 :: int)" for x y by (rule or_eq_0_iff)
  show ?thesis
    using assms unfolding r
    by (auto simp: aio_inv_def aio_account_def Let_def free_caio_def err_bits_def or0)
qed

lemma aio_runs_inv:
  "aio_runs E co rid a hs a' \<Longrightarrow> aio_inv n hs0 a \<Longrightarrow> length (hs0 @ hs) \<le> n \<Longrightarrow> aio_inv n (hs0 @ hs) a'"
proof (induction arbitrary: hs0 rule: aio_runs.induct)
  case (aio_more s k err a a1 s1 hs a2)
  then have "\<not> ai_cancel a" by (simp add: aio_inv_def)
  from handler_account [OF aio_more.hyps(1,2) this] obtain cbs b where
    a1: "a1 = aio_account k err b (a\<lparr>ai_cbs := cbs\<rparr>)" by blast
  have "aio_inv n hs0 (a\<lparr>ai_cbs := cbs\<rparr>)" using aio_more.prems(1) by (simp add: aio_inv_def)
  from aio_account_inv [OF this, of k err b] aio_more.prems(2)
  have "aio_inv n (hs0 @ [(k, err, ai_res a1 - ai_res a)]) a1" by (simp add: a1)
  from aio_more.IH [OF this] aio_more.prems(2) show ?case by simp
qed simp

definition cb_goal :: "xdma_io_cb \<Rightarrow> u64 \<times> u64 \<times> u64" where
  "cb_goal cb = (io_buf cb, io_len cb, io_ep cb)"

lemma cb_goal_upd [simp]:
  "cb_goal (cb\<lparr>io_pages := ps\<rparr>) = cb_goal cb" "cb_goal (cb\<lparr>io_pages_nr := n\<rparr>) = cb_goal cb"
  "cb_goal (cb\<lparr>io_sgt := u\<rparr>) = cb_goal cb"
  by (simp_all add: cb_goal_def)

lemma unmap_goal [simp]: "cb_goal (fst (char_sgdma_unmap_user_buf cb write s)) = cb_goal cb"
  by (simp add: char_sgdma_unmap_user_buf_def sg_free_table_def Let_def split: option.split)

lemma mapped_goal: "cb_goal (fst (snd (char_sgdma_map_user_buf_to_sgl E cb write s))) = cb_goal cb"
  unfolding char_sgdma_map_user_buf_to_sgl_def Let_def split_beta
  by (simp del: kcall_frame split: if_split)

text \<open>One step of the loop; the control block it adds is for the segment.\<close>

lemma aio_loop_step:
  assumes "aio_loop E rid cb0 e write pos k ((base, len) # segs) (a, s) = Some (Inr (), st)"
  shows "\<exists>cb ro s2. cb_goal cb = (base, len, pos) \<and> aio_loop E rid cb0 e write pos (k + 1) segs
     (a\<lparr>ai_cbs := ai_cbs a @ [cb], ai_reqs := ai_reqs a @ [ro]\<rparr>, s2) = Some (Inr (), st)"
proof -
  obtain rv cb t where m: "char_sgdma_map_user_buf_to_sgl E (rw_cb base len pos write) True s = (rv, cb, t)"
    by (metis prod_cases3)
  have "cb_goal cb = (base, len, pos)"
    using mapped_goal [of E "rw_cb base len pos write" True s, unfolded m fst_conv snd_conv]
    by (simp add: cb_goal_def rw_cb_def)
  with assms show ?thesis
    by (auto simp: m split: sum.splits prod.splits bind_splits) (metis cb_goal_upd(3))
qed

lemma aio_loop_keeps:
  "aio_loop E rid cb0 e write pos k segs (a, s) = Some (Inr (), a', s') \<Longrightarrow>
    \<exists>cbs reqs. a' = a\<lparr>ai_cbs := cbs, ai_reqs := reqs\<rparr>"
proof (induction segs arbitrary: k a s)
  case Nil
  then show ?case by (auto intro!: exI [of _ "ai_cbs a'"] exI [of _ "ai_reqs a'"])
next
  case (Cons seg segs)
  obtain base len where seg: "seg = (base, len)" by fastforce
  from aio_loop_step [OF Cons.prems [unfolded seg]] Cons.IH show ?case by fastforce
qed

lemma aio_errors:
  "check_transfer_align eo buf count pos sync s \<noteq> Inl EIOCBQUEUED"
  "fst (char_sgdma_map_user_buf_to_sgl E cb write s) \<noteq> Inl EIOCBQUEUED"
  by (auto simp: check_transfer_align_def char_sgdma_map_user_buf_to_sgl_def Let_def split_beta kerr_def split: option.splits)

lemma aio_loop_error: "aio_loop E rid cb0 e write pos k segs (a, s) \<noteq> Some (Inl EIOCBQUEUED, st)"
proof (induction segs arbitrary: k a s)
  case (Cons seg segs)
  show ?case
    using Cons aio_errors(1) [of "Some e" _ _ pos True s] aio_errors(2) [where s = s]
    by (cases seg) (auto simp: split_beta split: sum.splits prod.splits bind_splits)
qed simp

lemma aio_submit_loop:
  assumes "cdev_aio_submit E rid cb0 co write segs pos s = Some (EIOCBQUEUED, Some a, s')"
  shows "\<exists>e s1 s2. aio_loop E rid cb0 e write pos 0 segs (caio_start write (length segs), s1) = Some (Inr (), a, s2)"
  using assms aio_loop_error
  by (auto simp: cdev_aio_submit_def Let_def split_beta split: option.splits sum.splits bind_splits if_splits) blast+

lemma aio_submit_state:
  assumes "cdev_aio_submit E rid cb0 co write segs pos s = Some (EIOCBQUEUED, Some a, s')"
  shows "aio_inv (length segs) [] a"
  using aio_submit_loop [OF assms] aio_loop_keeps by (fastforce simp: aio_inv_def caio_start_def err_bits_def)


section \<open>A refused submission is lost\<close>

lemma aio_loop_refused:
  assumes "submit_check (self (xdev s)) (channel (get_eng s e)) write s = Inl rv" and "only_trace s t"
    and "\<And>base len. (base, len) \<in> set segs \<Longrightarrow> check_transfer_align (Some e) base len pos True s = Inr ()"
    and "\<And>base len t. (base, len) \<in> set segs \<Longrightarrow> fst (char_sgdma_map_user_buf_to_sgl E (rw_cb base len pos write) True t) = Inr ()"
  shows "\<exists>cbs t'. aio_loop E rid cb0 e write pos k segs (a, t) =
      Some (Inr (), a\<lparr>ai_cbs := ai_cbs a @ cbs, ai_reqs := ai_reqs a @ replicate (length segs) None\<rparr>, t') \<and> only_trace s t'"
  using assms
proof (induction segs arbitrary: k a t)
  case Nil
  then show ?case by (auto intro!: exI [of _ "[]"])
next
  case (Cons seg segs)
  obtain base len where seg: "seg = (base, len)" by fastforce
  obtain cb t1 where m: "char_sgdma_map_user_buf_to_sgl E (rw_cb base len pos write) True t = (Inr (), cb, t1)"
    using Cons.prems(4) [of base len t] by (metis fst_conv list.set_intros(1) prod_cases3 seg)
  have o1: "only_trace s t1"
    using only_trace_trans [OF Cons.prems(2) map_user_buf_only, of E "rw_cb base len pos write" True] by (simp add: m)
  have chk: "submit_check (self (xdev t1)) (channel (get_eng t1 e)) write t1 = Inl rv"
    using Cons.prems(1) by (simp add: only_traceD [OF o1])
  have al: "check_transfer_align (Some e) base len pos True t = Inr ()"
    using Cons.prems(3) [of base len] by (simp add: seg check_transfer_align_def only_traceD [OF Cons.prems(2)])
  let ?a = "a\<lparr>ai_cbs := ai_cbs a @ [cb], ai_reqs := ai_reqs a @ [None]\<rparr>"
  have "aio_loop E rid cb0 e write pos k (seg # segs) (a, t) = aio_loop E rid cb0 e write pos (k + 1) segs (?a, t1)"
    by (simp add: seg al m xdma_xfer_submit_nowait_def chk)
  with Cons.IH [OF Cons.prems(1) o1, of "k + 1" ?a] Cons.prems(3,4) show ?case by fastforce
qed

lemma aio_refused_effect:
  assumes "cd_engine c = Some e" and "edir (get_eng s e) = write_dir write"
    and "submit_check (self (xdev s)) (channel (get_eng s e)) write s = Inl rv"
    and "\<And>tr. kernel E tr ''kmem_cache_alloc'' [] \<noteq> 0" and "\<And>tr n. kernel E tr ''kzalloc_cbs'' [n] \<noteq> 0"
    and "\<And>base len t. (base, len) \<in> set segs \<Longrightarrow> check_transfer_align (Some e) base len pos True s = Inr ()"
    and "\<And>base len t. (base, len) \<in> set segs \<Longrightarrow> fst (char_sgdma_map_user_buf_to_sgl E (rw_cb base len pos write) True t) = Inr ()"
  shows "\<exists>a s'. cdev_aio_submit E rid cb0 (Some c) write segs pos s = Some (EIOCBQUEUED, Some a, s')
     \<and> ai_reqs a = replicate (length segs) None \<and> ai_reported a = [] \<and> (\<forall>e'. get_eng s' e' = get_eng s e')"
proof -
  obtain p s1 where p: "kcall E ''kmem_cache_alloc'' [] s = (p, s1)" "p \<noteq> 0" using assms(4) by (simp add: kcall_def Let_def)
  obtain q s2 where q: "kcall E ''kzalloc_cbs'' [int (length segs)] s1 = (q, s2)" "q \<noteq> 0"
    using assms(5) by (simp add: kcall_def Let_def)
  have "only_trace s s2" using p(1) q(1) by (auto simp: kcall_def Let_def)
  note aio_loop_refused [OF assms(3) this assms(6,7), where segs = segs and rid = rid and ?cb0.0 = cb0 and k = 0
      and a = "caio_start write (length segs)"]
  then obtain cbs t where
    l: "aio_loop E rid cb0 e write pos 0 segs (caio_start write (length segs), s2) = Some (Inr (),
        (caio_start write (length segs))\<lparr>ai_cbs := cbs, ai_reqs := replicate (length segs) None\<rparr>, t)"
    and o1: "only_trace s t" by (auto simp: caio_start_def)
  have w: "get_eng (xdma_kthread_wakeup i t) e' = get_eng t e'" for i e'
    by (simp add: xdma_kthread_wakeup_def upd_thread_def)
  show ?thesis
    using assms(1,2) p q l only_traceD(2) [OF o1] w
    by (auto simp: cdev_aio_submit_def caio_start_def split: option.splits)
qed

text \<open>C37: the result of the submission is ignored.  When the device refuses every segment, because it is off
  line, say, the caller is still told that the request is queued; no request exists for any segment and no
  engine has a new transfer, so no handler will ever run and the request is never reported.\<close>

theorem aio_refused_is_lost:
  assumes "cd_engine c = Some e" and "edir (get_eng s e) = write_dir write"
    and "submit_check (self (xdev s)) (channel (get_eng s e)) write s = Inl rv"
    and "\<And>tr. kernel E tr ''kmem_cache_alloc'' [] \<noteq> 0" and "\<And>tr n. kernel E tr ''kzalloc_cbs'' [n] \<noteq> 0"
    and "\<And>base len t. (base, len) \<in> set segs \<Longrightarrow> check_transfer_align (Some e) base len pos True s = Inr ()"
    and "\<And>base len t. (base, len) \<in> set segs \<Longrightarrow> fst (char_sgdma_map_user_buf_to_sgl E (rw_cb base len pos write) True t) = Inr ()"
  shows "\<exists>a s'. cdev_aio_submit E rid cb0 (Some c) write segs pos s = Some (EIOCBQUEUED, Some a, s')
     \<and> ai_reqs a = replicate (length segs) None \<and> ai_reported a = [] \<and> (\<forall>e'. get_eng s' e' = get_eng s e')"
  by (rule aio_refused_effect [OF assms])

text \<open>A single segment, on a device that is off line.\<close>

definition offline_world :: world where
  "offline_world = upd_xdev (\<lambda>d. d\<lparr>dflags := XDEV_FLAG_OFFLINE\<rparr>) idle_world"

lemma offline_refused:
  "submit_check (self (xdev offline_world)) (channel (get_eng offline_world (H2C 0))) True offline_world = Inl EBUSY"
  "edir (get_eng offline_world (H2C 0)) = write_dir True"
  "check_transfer_align (Some (H2C 0)) 0x1FF0 0x20 0x1FF0 True offline_world = Inr ()"
  "cd_engine h2c_cdev = Some (H2C 0)" "xcdev_check (Some h2c_cdev) True offline_world = Inr ()"
  by (simp_all add: offline_world_def idle_world_def submit_check_def debug_check_dev_hndl_def get_eng_upd_xdev
        xdev_find_by_pdev_def select_engine_def check_engine_def xdma_device_flag_check_def write_dir_def xdev0_def
        engine_zero_def check_transfer_align_def h2c_cdev_def XDEV_FLAG_OFFLINE_def xcdev_check_def cdev_zero_def)

lemma page_env_aio:
  "kernel page_env tr ''kmem_cache_alloc'' [] \<noteq> 0" "kernel page_env tr ''kzalloc_cbs'' [n] \<noteq> 0"
  by (simp_all add: page_env_def)

lemma small_segment: "fst (char_sgdma_map_user_buf_to_sgl page_env (rw_cb 0x1FF0 0x20 0x1FF0 True) True t) = Inr ()"
  by (rule small_buffer(1)) (simp_all add: rw_cb_def)

theorem aio_refused_is_lost_witness:
  "\<exists>a s'. cdev_aio_submit page_env 7 0 (Some h2c_cdev) True [(0x1FF0, 0x20)] 0x1FF0 offline_world
     = Some (EIOCBQUEUED, Some a, s') \<and> ai_reqs a = [None]"
  using aio_refused_is_lost [OF offline_refused(4,2,1) page_env_aio, where segs = "[(0x1FF0, 0x20)]" and pos = "0x1FF0"
      and rid = 7 and ?cb0.0 = 0] offline_refused(3) small_segment
  by fastforce


section \<open>Where the segments go\<close>

lemma aio_loop_goals:
  assumes "aio_loop E rid cb0 e write pos k segs (a, s) = Some (Inr (), a', s')"
  shows "map cb_goal (ai_cbs a') = map cb_goal (ai_cbs a) @ map (\<lambda>(base, len). (base, len, pos)) segs"
  using assms
proof (induction segs arbitrary: k a s)
  case (Cons seg segs)
  obtain base len where seg: "seg = (base, len)" by fastforce
  from aio_loop_step [OF Cons.prems [unfolded seg]] Cons.IH show ?case by (fastforce simp: seg)
qed simp

text \<open>Every segment of an asynchronous write goes to one and the same address of the device, the offset
  the iterator has into its first segment, whatever the position of the file is: the segments of a vector
  overwrite each other on the device.\<close>

theorem aio_segments_one_address:
  assumes "cdev_write_iter E rid cb0 co ki_pos it s = Some (EIOCBQUEUED, Some a, s')"
  shows "map (\<lambda>cb. (io_buf cb, io_len cb, io_ep cb)) (ai_cbs a) =
     map (\<lambda>(base, len). (base, len, iov_offset it)) (take (nr_segs it) (it_iov it))"
  using aio_submit_loop [OF assms [unfolded cdev_write_iter_def cdev_aio_write_def]]
  by (auto dest!: aio_loop_goals simp: cb_goal_def [abs_def] caio_start_def)

theorem aio_segments_one_address_witness:
  "\<exists>a s'. cdev_write_iter page_env 7 0 (Some h2c_cdev) 0x5000 \<lparr>it_iov = [(0x1FF0, 0x20), (0x1FF0, 0x20)], nr_segs = 2,
       iov_offset = 0x1FF0\<rparr> offline_world = Some (EIOCBQUEUED, Some a, s') \<and> map io_ep (ai_cbs a) = [0x1FF0, 0x1FF0]"
proof -
  let ?it = "\<lparr>it_iov = [(0x1FF0, 0x20), (0x1FF0, 0x20)], nr_segs = 2, iov_offset = 0x1FF0\<rparr> :: iov_iter"
  obtain a s' where "cdev_aio_submit page_env 7 0 (Some h2c_cdev) True (it_iov ?it) 0x1FF0 offline_world
     = Some (EIOCBQUEUED, Some a, s')"
    using aio_refused_effect [OF offline_refused(4,2,1) page_env_aio, where segs = "it_iov ?it" and pos = "0x1FF0"
        and rid = 7 and ?cb0.0 = 0] offline_refused(3) small_segment
    by fastforce
  then have w: "cdev_write_iter page_env 7 0 (Some h2c_cdev) 0x5000 ?it offline_world = Some (EIOCBQUEUED, Some a, s')"
    by (simp add: cdev_write_iter_def cdev_aio_write_def)
  from aio_segments_one_address [OF this] have "map io_ep (ai_cbs a) = [0x1FF0, 0x1FF0]" by auto
  with w show ?thesis by (intro exI conjI)
qed

end
