(* ===== verification/Ctrl_Ops.thy ===== *)
theory Ctrl_Ops
  imports Sgdma
begin

text \<open>
  The file operations of the remaining device nodes: register access, ioctl and mapping of a BAR
  (\<open>cdev_ctrl.c\<close>), user interrupts (\<open>cdev_events.c\<close>) and descriptor bypass (\<open>cdev_bypass.c\<close>).
\<close>

section \<open>Register access\<close>

text \<open>The BAR of a node and its address; a file position is an offset into it.\<close>

definition cdev_bar_addr :: "xdma_cdev \<Rightarrow> world \<Rightarrow> u64" where
  "cdev_bar_addr c s = bar (xdev s) (nat (cd_bar c))"

text \<open>Result, value copied to the user, and new position; a failing copy is ignored.\<close>

definition char_ctrl_read ::
  "env \<Rightarrow> xdma_cdev option \<Rightarrow> u64 \<Rightarrow> u64 \<Rightarrow> world \<Rightarrow> int res \<times> u32 option \<times> u64 \<times> world" where
  "char_ctrl_read E co buf pos s =
     (case xcdev_check co False s of
        Inl rv \<Rightarrow> (Inl rv, None, pos, s)
      | Inr _ \<Rightarrow>
          (case co of
             None \<Rightarrow> (Inl EINVAL, None, pos, s)
           | Some c \<Rightarrow>
               if pos AND 3 \<noteq> 0 then (Inl EPROTO, None, pos, s)
               else let (w, s) = read_register E (cdev_bar_addr c s + pos) s;
                        (rv, s) = kcall E ''copy_to_user'' [uint buf, 4] s
                    in (Inr 4, if rv = 0 then Some w else None, pos + 4, s)))"

text \<open>What cannot be copied in reads as zero; \<open>u\<close> is the word in user memory.\<close>

definition char_ctrl_write ::
  "env \<Rightarrow> xdma_cdev option \<Rightarrow> u64 \<Rightarrow> u32 \<Rightarrow> u64 \<Rightarrow> world \<Rightarrow> int res \<times> u64 \<times> world" where
  "char_ctrl_write E co buf u pos s =
     (case xcdev_check co False s of
        Inl rv \<Rightarrow> (Inl rv, pos, s)
      | Inr _ \<Rightarrow>
          (case co of
             None \<Rightarrow> (Inl EINVAL, pos, s)
           | Some c \<Rightarrow>
               if pos AND 3 \<noteq> 0 then (Inl EPROTO, pos, s)
               else let (n, s) = kcall E ''copy_from_user'' [uint buf, 4] s
                    in (Inr 4, pos + 4, write_register (take_bit (copied_bits (4 - nat n) 0) u) (cdev_bar_addr c s + pos) s)))"

section \<open>Commands of the control node\<close>

definition XDMA_IOC_MAGIC :: u32 where "XDMA_IOC_MAGIC = 0x78"
definition XDMA_XCL_MAGIC :: u32 where "XDMA_XCL_MAGIC = 0x586C0C6C"

definition IOC :: "u32 \<Rightarrow> u32 \<Rightarrow> u32 \<Rightarrow> u32 \<Rightarrow> u32" where
  "IOC dir type nr sz = push_bit 30 dir OR push_bit 16 sz OR push_bit 8 type OR nr"

definition IOC_TYPE :: "u32 \<Rightarrow> u32" where "IOC_TYPE cmd = drop_bit 8 cmd AND 0xFF"
definition IOC_DIR :: "u32 \<Rightarrow> u32" where "IOC_DIR cmd = drop_bit 30 cmd AND 3"
definition IOC_SIZE :: "u32 \<Rightarrow> u32" where "IOC_SIZE cmd = drop_bit 16 cmd AND 0x3FFF"

definition XDMA_IOCINFO :: u32 where "XDMA_IOCINFO = IOC 3 XDMA_IOC_MAGIC 1 40"
definition XDMA_IOCOFFLINE :: u32 where "XDMA_IOCOFFLINE = IOC 0 XDMA_IOC_MAGIC 2 0"
definition XDMA_IOCONLINE :: u32 where "XDMA_IOCONLINE = IOC 0 XDMA_IOC_MAGIC 3 0"

definition DRV_MOD_VERSION_NUMBER :: u32 where "DRV_MOD_VERSION_NUMBER = 2020 * 1000 + 2 * 100 + 2"

record xdma_ioc_info =
  ii_vendor :: u16
  ii_device :: u16
  ii_subsystem_vendor :: u16
  ii_subsystem_device :: u16
  ii_driver_version :: u32
  ii_feature_id :: u64
  ii_bus :: u8
  ii_dev :: u8
  ii_func :: u8

text \<open>
  The identification of the PCI function comes from the kernel; the feature number of a device is never
  set.  The structure copied out is returned.
\<close>

definition version_ioctl :: "env \<Rightarrow> u64 \<Rightarrow> world \<Rightarrow> unit res \<times> xdma_ioc_info option \<times> world" where
  "version_ioctl E arg s =
     (let (rv, s) = kcall E ''copy_from_user'' [uint arg, 40] s
      in if rv \<noteq> 0 then (Inl EFAULT, None, s)
         else let k = (\<lambda>f. kernel E (trace s) f [int (pdev (xdev s))]);
                  devfn = word_of_int (k ''pci_devfn'') :: u32;
                  obj = \<lparr>ii_vendor = word_of_int (k ''pci_vendor''), ii_device = word_of_int (k ''pci_device''),
                         ii_subsystem_vendor = word_of_int (k ''pci_subsystem_vendor''),
                         ii_subsystem_device = word_of_int (k ''pci_subsystem_device''),
                         ii_driver_version = DRV_MOD_VERSION_NUMBER, ii_feature_id = 0,
                         ii_bus = ucast (drop_bit 8 devfn AND 0xFF), ii_dev = ucast (drop_bit 3 devfn AND 0x1F),
                         ii_func = ucast (devfn AND 7)\<rparr>;
                  (rv, s) = kcall E ''copy_to_user'' [uint arg, 40] s
              in if rv \<noteq> 0 then (Inl EFAULT, None, s) else (Inr (), Some obj, s))"

text \<open>\<open>magic\<close> is the first word of the structure at \<open>arg\<close>.\<close>

definition char_ctrl_ioctl :: "env \<Rightarrow> xdma_cdev option \<Rightarrow> u32 \<Rightarrow> u64 \<Rightarrow> u32 \<Rightarrow> world \<Rightarrow> unit res \<times> world" where
  "char_ctrl_ioctl E co cmd arg mg s =
     (case xcdev_check co False s of
        Inl rv \<Rightarrow> (Inl rv, s)
      | Inr _ \<Rightarrow>
          if IOC_TYPE cmd \<noteq> XDMA_IOC_MAGIC then (Inl ENOTTY, s)
          else let (ok, s) = (if IOC_DIR cmd AND 3 \<noteq> 0 then kcall E ''access_ok'' [uint arg, uint (IOC_SIZE cmd)] s else (1, s))
               in if ok = 0 then (Inl EFAULT, s)
                  else if cmd = XDMA_IOCINFO
                  then let (rv, s) = kcall E ''copy_from_user'' [uint arg, 8] s
                       in if rv \<noteq> 0 then (Inl EFAULT, s)
                          else if mg \<noteq> XDMA_XCL_MAGIC then (Inl ENOTTY, s)
                          else let (rv, info, s) = version_ioctl E arg s in (rv, s)
                  else if cmd = XDMA_IOCOFFLINE then (Inr (), xdma_device_offline E (pdev (xdev s)) (self (xdev s)) s)
                  else if cmd = XDMA_IOCONLINE then (Inr (), xdma_device_online E (pdev (xdev s)) (self (xdev s)) s)
                  else (Inl ENOTTY, s))"

section \<open>Mapping a BAR\<close>

text \<open>
  The first and the last bus address of a BAR, and a mapping request: offset in pages, first address and end.
  A mapping that succeeds is a call of \<open>io_remap_pfn_range\<close>.
\<close>

definition pci_resource_start :: "env \<Rightarrow> int \<Rightarrow> world \<Rightarrow> u64" where
  "pci_resource_start E b s = word_of_int (kernel E (trace s) ''pci_resource_start'' [b])"

definition pci_resource_end :: "env \<Rightarrow> int \<Rightarrow> world \<Rightarrow> u64" where
  "pci_resource_end E b s = word_of_int (kernel E (trace s) ''pci_resource_end'' [b])"

definition bridge_mmap :: "env \<Rightarrow> xdma_cdev option \<Rightarrow> u64 \<Rightarrow> u64 \<Rightarrow> u64 \<Rightarrow> world \<Rightarrow> unit res \<times> world" where
  "bridge_mmap E co vm_pgoff vm_start vm_end s =
     (case xcdev_check co False s of
        Inl rv \<Rightarrow> (Inl rv, s)
      | Inr _ \<Rightarrow>
          (case co of
             None \<Rightarrow> (Inl EINVAL, s)
           | Some c \<Rightarrow>
               let ofs = push_bit KPAGE_SHIFT vm_pgoff;
                   phys = pci_resource_start E (cd_bar c) s + ofs;
                   vsize = vm_end - vm_start;
                   psize = pci_resource_end E (cd_bar c) s - pci_resource_start E (cd_bar c) s + 1 - ofs
               in if psize < vsize then (Inl EINVAL, s)
                  else let (rv, s) = kcall E ''io_remap_pfn_range''
                             [uint vm_start, uint (drop_bit KPAGE_SHIFT phys), uint vsize] s
                       in (if rv \<noteq> 0 then Inl EAGAIN else Inr (), s)))"

section \<open>User interrupts\<close>

text \<open>
  Sleeping until an event is there: \<open>k\<close> interrupts of the node's line arrive before a signal does.  The flag
  says whether the sleep was interrupted.
\<close>

fun events_wait :: "env \<Rightarrow> nat \<Rightarrow> nat \<Rightarrow> world \<Rightarrow> bool \<times> world" where
  "events_wait E u 0 s = (events_irq (user_irq (xdev s) u) = 0, s)"
| "events_wait E u (Suc k) s =
     (if events_irq (user_irq (xdev s) u) \<noteq> 0 then (False, s)
      else events_wait E u k (snd (user_irq_service E (Some u) s)))"

definition set_events :: "nat \<Rightarrow> u8 \<Rightarrow> world \<Rightarrow> world" where
  "set_events u v = upd_xdev (\<lambda>d. d\<lparr>user_irq := (user_irq d)(u := (user_irq d u)\<lparr>events_irq := v\<rparr>)\<rparr>)"

definition char_events_read ::
  "env \<Rightarrow> xdma_cdev option \<Rightarrow> u64 \<Rightarrow> u64 \<Rightarrow> u64 \<Rightarrow> world \<Rightarrow> int res \<times> u32 option \<times> world" where
  "char_events_read E co buf count pos s =
     (case xcdev_check co False s of
        Inl rv \<Rightarrow> (Inl rv, None, s)
      | Inr _ \<Rightarrow>
          (case co of
             None \<Rightarrow> (Inl EINVAL, None, s)
           | Some c \<Rightarrow>
               (case cd_user_irq c of
                  None \<Rightarrow> (Inl EINVAL, None, s)
                | Some u \<Rightarrow>
                    if count \<noteq> 4 then (Inl EPROTO, None, s)
                    else if pos AND 3 \<noteq> 0 then (Inl EPROTO, None, s)
                    else let (intr, s) = events_wait E u (services E (trace s)) s
                         in if intr then (Inl ERESTARTSYS, None, s)
                            else let v = ucast (events_irq (user_irq (xdev s) u)) :: u32;
                                     (rv, s) = kcall E ''copy_to_user'' [uint buf, 4] (set_events u 0 s)
                                 in (Inr 4, if rv = 0 then Some v else None, s))))"

definition POLL_READABLE :: u32 where "POLL_READABLE = 0x0001 OR 0x0040"

text \<open>An error of the check is returned as the mask.\<close>

definition char_events_poll :: "xdma_cdev option \<Rightarrow> world \<Rightarrow> errno + u32" where
  "char_events_poll co s =
     (case xcdev_check co False s of
        Inl rv \<Rightarrow> Inl rv
      | Inr _ \<Rightarrow>
          (case co of
             None \<Rightarrow> Inl EINVAL
           | Some c \<Rightarrow>
               (case cd_user_irq c of
                  None \<Rightarrow> Inl EINVAL
                | Some u \<Rightarrow> Inr (if events_irq (user_irq (xdev s) u) \<noteq> 0 then POLL_READABLE else 0))))"

section \<open>Descriptor bypass\<close>

text \<open>
  Copying the descriptors of a transfer to the user, from \<open>ofs\<close> on: the new offset, the result, and what was
  copied where.  A failure does not end the loop.
\<close>

type_synonym bypass_out = "(u64 \<times> xdma_desc) list"

fun copy_desc_data ::
  "env \<Rightarrow> u64 \<Rightarrow> u64 \<Rightarrow> xdma_desc list \<Rightarrow> u64 \<times> unit res \<times> bypass_out \<times> world \<Rightarrow> u64 \<times> unit res \<times> bypass_out \<times> world" where
  "copy_desc_data E buf sz [] st = st"
| "copy_desc_data E buf sz (d # ds) (ofs, rc, out, s) =
     (if ofs + 32 \<le> sz
      then let (n, s) = kcall E ''copy_to_user'' [uint (buf + ofs), 32] s
           in if n \<noteq> 0 then copy_desc_data E buf sz ds (sz, Inl EINVAL, out, s)
              else copy_desc_data E buf sz ds (ofs + 32, rc, out @ [(ofs, d)], s)
      else copy_desc_data E buf sz ds (ofs, Inl ENOMEM, out, s))"

definition transfer_descs :: "world \<Rightarrow> eref \<Rightarrow> xref \<Rightarrow> xdma_desc list" where
  "transfer_descs s e x =
     map (\<lambda>i. desc_mem (get_eng s e) (desc_virt (get_xfer s x) + i)) [0..<nat (desc_num (get_xfer s x))]"

text \<open>The result is that of the last transfer.\<close>

fun bypass_read_loop ::
  "env \<Rightarrow> u64 \<Rightarrow> u64 \<Rightarrow> eref \<Rightarrow> xref list \<Rightarrow> u64 \<times> unit res \<times> bypass_out \<times> world \<Rightarrow> u64 \<times> unit res \<times> bypass_out \<times> world" where
  "bypass_read_loop E buf sz e [] st = st"
| "bypass_read_loop E buf sz e (x # xs) (ofs, rc, out, s) =
     bypass_read_loop E buf sz e xs (copy_desc_data E buf sz (transfer_descs s e x) (ofs, Inr (), out, s))"

definition bypass_check :: "xdma_cdev option \<Rightarrow> u64 \<Rightarrow> u64 \<Rightarrow> world \<Rightarrow> unit res" where
  "bypass_check co buf count s =
     (case xcdev_check co True s of
        Inl rv \<Rightarrow> Inl rv
      | Inr _ \<Rightarrow>
          if count AND 3 \<noteq> 0 then Inl EINVAL
          else if buf = 0 then Inl EINVAL
          else if bypass_bar_idx (xdev s) < 0 then Inl ENODEV
          else Inr ())"

definition char_bypass_read ::
  "env \<Rightarrow> xdma_cdev option \<Rightarrow> u64 \<Rightarrow> u64 \<Rightarrow> world \<Rightarrow> int res \<times> bypass_out \<times> world" where
  "char_bypass_read E co buf count s =
     (case bypass_check co buf count s of
        Inl rv \<Rightarrow> (Inl rv, [], s)
      | Inr _ \<Rightarrow>
          (case Option.bind co cd_engine of
             None \<Rightarrow> (Inl EINVAL, [], s)
           | Some e \<Rightarrow>
               let (ofs, rc, out, s) = bypass_read_loop E buf count e (transfer_list (get_eng s e)) (0, Inr (), [], s)
               in (case rc of Inl rv \<Rightarrow> Inl rv | Inr _ \<Rightarrow> Inr (uint ofs), out, s)))"

text \<open>
  The address of a register block in the bypass BAR; the pointer arithmetic is in units of four bytes.  All
  words \<open>ws\<close> of the user buffer are written to that one address.
\<close>

definition bypass_addr :: "world \<Rightarrow> eref \<Rightarrow> u64" where
  "bypass_addr s e = bar (xdev s) (nat (bypass_bar_idx (xdev s))) + 4 * ucast (bypass_offset (get_eng s e))"

fun bypass_write_loop :: "env \<Rightarrow> u64 \<Rightarrow> u64 \<Rightarrow> u32 list \<Rightarrow> u64 \<Rightarrow> int res \<Rightarrow> world \<Rightarrow> int res \<times> world" where
  "bypass_write_loop E buf addr [] ofs rc s = (rc, s)"
| "bypass_write_loop E buf addr (w # ws) ofs rc s =
     (let (n, s) = kcall E ''copy_from_user'' [uint (buf + ofs), 4] s
      in if n = 0 then bypass_write_loop E buf addr ws (ofs + 4) (Inr (uint (ofs + 4))) (write_register w addr s)
         else (Inl EINVAL, s))"

definition char_bypass_write ::
  "env \<Rightarrow> xdma_cdev option \<Rightarrow> u64 \<Rightarrow> u64 \<Rightarrow> u32 list \<Rightarrow> world \<Rightarrow> int res \<times> world" where
  "char_bypass_write E co buf count ws s =
     (case bypass_check co buf count s of
        Inl rv \<Rightarrow> (Inl rv, s)
      | Inr _ \<Rightarrow>
          (case Option.bind co cd_engine of
             None \<Rightarrow> (Inl EINVAL, s)
           | Some e \<Rightarrow> bypass_write_loop E buf (bypass_addr s e) (take (unat count div 4) ws) 0 (Inr 0) s))"

section \<open>Events are read once\<close>

lemma user_irq_service_events:
  assumes "handler (user_irq (xdev s) u) = None"
  shows "events_irq (user_irq (xdev (snd (user_irq_service E (Some u) s))) u) =
      (if events_irq (user_irq (xdev s) u) = 0 then 1 else events_irq (user_irq (xdev s) u))"
    "handler (user_irq (xdev (snd (user_irq_service E (Some u) s))) u) = None"
    "xmagic (xdev (snd (user_irq_service E (Some u) s))) = xmagic (xdev s)"
  using assms by (simp_all add: user_irq_service.simps Let_def)

lemma user_irq_services_events:
  assumes "handler (user_irq (xdev s) u) = None"
  shows "events_irq (user_irq (xdev (((\<lambda>s. snd (user_irq_service E (Some u) s)) ^^ n) s)) u) =
      (if events_irq (user_irq (xdev s) u) = 0 \<and> 0 < n then 1 else events_irq (user_irq (xdev s) u))
    \<and> handler (user_irq (xdev (((\<lambda>s. snd (user_irq_service E (Some u) s)) ^^ n) s)) u) = None
    \<and> xmagic (xdev (((\<lambda>s. snd (user_irq_service E (Some u) s)) ^^ n) s)) = xmagic (xdev s)"
  by (induction n) (auto simp: user_irq_service_events assms simp del: user_irq_service.simps)

text \<open>C26: the interrupts of a user line are delivered at least once and never twice.  After one or more
  interrupts on a line without a registered handler the node polls readable and a read returns one event word,
  however many there were; the flag is clear then, the node polls unreadable, and a second read sleeps until
  a signal if no further interrupt comes.\<close>

theorem events_read_once:
  assumes "cd_user_irq c = Some u" and "handler (user_irq (xdev s) u) = None" and "events_irq (user_irq (xdev s) u) = 0"
    and "xcdev_check (Some c) False s = Inr ()" and "0 < n" and "\<And>tr as. kernel E tr ''copy_to_user'' as = 0"
    and "s1 = ((\<lambda>s. snd (user_irq_service E (Some u) s)) ^^ n) s"
  shows "char_events_poll (Some c) s1 = Inr POLL_READABLE
    \<and> (\<exists>s2. char_events_read E (Some c) buf 4 0 s1 = (Inr 4, Some 1, s2)
         \<and> char_events_poll (Some c) s2 = Inr 0
         \<and> (services E (trace s2) = 0 \<longrightarrow> char_events_read E (Some c) buf 4 0 s2 = (Inl ERESTARTSYS, None, s2)))"
proof -
  have s1: "events_irq (user_irq (xdev s1) u) = 1" "xmagic (xdev s1) = xmagic (xdev s)"
    using user_irq_services_events [OF assms(2), where E = E and n = n] assms(3,5,7) by simp_all
  have chk: "xcdev_check (Some c) False t = Inr ()" if "xmagic (xdev t) = xmagic (xdev s)" for t
    using assms(4) that by (auto simp: xcdev_check_def split: if_splits)
  have w: "events_wait E u k s1 = (False, s1)" for k using s1(1) by (cases k) simp_all
  let ?s2 = "emit (Kernel ''copy_to_user'' [uint buf, 4] 0) (set_events u 0 s1)"
  have s2: "events_irq (user_irq (xdev ?s2) u) = 0" "xmagic (xdev ?s2) = xmagic (xdev s)"
    using s1 by (simp_all add: set_events_def)
  have r1: "char_events_read E (Some c) buf 4 0 s1 = (Inr 4, Some 1, ?s2)"
    using s1 by (simp add: char_events_read_def chk w assms(1,6) kcall_def)
  have r2: "services E (trace ?s2) = 0 \<Longrightarrow> char_events_read E (Some c) buf 4 0 ?s2 = (Inl ERESTARTSYS, None, ?s2)"
    by (simp only: char_events_read_def chk [OF s2(2)]) (simp add: assms(1) s2 [simplified])
  have p1: "char_events_poll (Some c) s1 = Inr POLL_READABLE"
    by (simp add: char_events_poll_def chk [OF s1(2)] assms(1) s1(1))
  have p2: "char_events_poll (Some c) ?s2 = Inr 0"
    by (simp only: char_events_poll_def chk [OF s2(2)]) (simp add: assms(1) s2 [simplified])
  show ?thesis
    by (intro conjI exI [of _ ?s2] impI) (rule p1, rule r1, rule p2, erule r2)
qed

definition event_cdev :: xdma_cdev where
  "event_cdev = cdev_zero\<lparr>cd_magic := MAGIC_CHAR, cd_xdev := True, cd_bar := 3, cd_user_irq := Some 3\<rparr>"

theorem events_read_once_witness:
  "\<exists>s2. char_events_read env0 (Some event_cdev) 0x1000 4 0
     (snd (user_irq_service env0 (Some 3) (snd (user_irq_service env0 (Some 3) world0)))) = (Inr 4, Some 1, s2)"
proof -
  have "cd_user_irq event_cdev = Some 3" "handler (user_irq (xdev world0) 3) = None"
    "events_irq (user_irq (xdev world0) 3) = 0" "xcdev_check (Some event_cdev) False world0 = Inr ()" "0 < (2 :: nat)"
    "kernel env0 tr ''copy_to_user'' as = 0" for tr as
    by (simp_all add: event_cdev_def cdev_zero_def xdev0_def xcdev_check_def env0_def)
  from events_read_once [OF this refl, of "0x1000"] show ?thesis by (auto simp: numeral_2_eq_2)
qed

section \<open>Mappings stay in the BAR, unless they start behind it\<close>

text \<open>The frames the kernel was asked to make accessible, as first address and size.\<close>

definition remap_call :: "event \<Rightarrow> (int \<times> int) option" where
  "remap_call ev = (case ev of Kernel f [a, pfn, sz] r \<Rightarrow>
     if f = ''io_remap_pfn_range'' then Some (pfn * 4096, sz) else None | _ \<Rightarrow> None)"

definition remaps :: "event list \<Rightarrow> (int \<times> int) list" where
  "remaps tr = List.map_filter remap_call tr"

lemma remaps_snoc: "remaps (tr @ [ev]) = remaps tr @ (case remap_call ev of None \<Rightarrow> [] | Some x \<Rightarrow> [x])"
  by (simp add: remaps_def List.map_filter_def split: option.splits)

lemma bridge_mmap_effect:
  assumes "xcdev_check (Some c) False s = Inr ()"
    and "ofs = push_bit KPAGE_SHIFT pgoff" and "start = pci_resource_start E (cd_bar c) s"
  shows "\<exists>r. bridge_mmap E (Some c) pgoff vs ve s =
    (if pci_resource_end E (cd_bar c) s - start + 1 - ofs < ve - vs then (Inl EINVAL, s)
     else (if r \<noteq> 0 then Inl EAGAIN else Inr (),
       emit (Kernel ''io_remap_pfn_range'' [uint vs, uint (drop_bit KPAGE_SHIFT (start + ofs)), uint (ve - vs)] r) s))"
  unfolding bridge_mmap_def assms
  by (rule exI [of _ "kernel E (trace s) ''io_remap_pfn_range'' [uint vs, uint (drop_bit KPAGE_SHIFT
      (pci_resource_start E (cd_bar c) s + push_bit KPAGE_SHIFT pgoff)), uint (ve - vs)]"])
     (simp add: kcall_def Let_def)

text \<open>The numbers of a request on a page-aligned BAR.\<close>

lemma mmap_numbers:
  fixes st en pgoff :: u64
  assumes "uint st mod 4096 = 0" and "uint en = uint st + len - 1" and "0 < len" and "uint st + len < 2 ^ 64"
    and "uint st + uint pgoff * 4096 < 2 ^ 64"
  shows "uint (push_bit KPAGE_SHIFT pgoff) = uint pgoff * 4096"
    and "uint (drop_bit KPAGE_SHIFT (st + push_bit KPAGE_SHIFT pgoff)) * 4096 = uint st + uint pgoff * 4096"
    and "uint (en - st + 1 - push_bit KPAGE_SHIFT pgoff) = (len - uint pgoff * 4096) mod 2 ^ 64"
proof -
  have pos: "0 \<le> uint st" "0 \<le> uint pgoff" by simp_all
  show ofs: "uint (push_bit KPAGE_SHIFT pgoff) = uint pgoff * 4096"
    unfolding KPAGE_SHIFT_def push_bit_eq_mult using assms(5) pos
    by (simp add: uint_word_ariths) (rule mod_pos_pos_trivial; use pos in linarith)
  have "uint (st + push_bit KPAGE_SHIFT pgoff) = uint st + uint pgoff * 4096"
    using assms(5) pos by (simp add: uint_word_ariths ofs)
  then have "uint (drop_bit KPAGE_SHIFT (st + push_bit KPAGE_SHIFT pgoff)) = (uint st + uint pgoff * 4096) div 4096"
    by (simp add: KPAGE_SHIFT_def uint_div drop_bit_eq_div)
  then show "uint (drop_bit KPAGE_SHIFT (st + push_bit KPAGE_SHIFT pgoff)) * 4096 = uint st + uint pgoff * 4096"
    using assms(1) by (simp add: dvd_div_mult_self dvd_eq_mod_eq_0 mod_simps)
  show "uint (en - st + 1 - push_bit KPAGE_SHIFT pgoff) = (len - uint pgoff * 4096) mod 2 ^ 64"
    by (simp add: uint_word_ariths ofs assms(2) mod_simps)
qed

text \<open>C34: a mapping gives access to addresses of the BAR only, if it starts inside.  For a page-aligned BAR and a
  request whose offset lies in it, every range made accessible lies between the first and the last address
  of the BAR.\<close>

theorem bridge_mmap_inside:
  assumes "bridge_mmap E (Some c) pgoff vs ve s = (rv, s')" and "remaps (trace s) = []"
    and "start = pci_resource_start E (cd_bar c) s" and "uint start mod 4096 = 0"
    and "uint (pci_resource_end E (cd_bar c) s) = uint start + len - 1" and "0 < len" and "uint start + len < 2 ^ 64"
    and "uint pgoff * 4096 \<le> len"
  shows "\<forall>(a, n) \<in> set (remaps (trace s')). uint start \<le> a \<and> a + n \<le> uint start + len"
proof (cases "xcdev_check (Some c) False s")
  case (Inl v)
  then show ?thesis using assms(1,2) by (simp add: bridge_mmap_def)
next
  case (Inr u)
  then have chk: "xcdev_check (Some c) False s = Inr ()" by simp
  have "uint start + uint pgoff * 4096 < 2 ^ 64" using assms(7,8) by simp
  note n = mmap_numbers [OF assms(4,5,6,7) this]
  have len: "(len - uint pgoff * 4096) mod 2 ^ 64 = len - uint pgoff * 4096"
    using assms(7,8) uint_ge_0 [of start] uint_ge_0 [of pgoff] by (intro mod_pos_pos_trivial) linarith+
  have le: "uint (ve - vs) \<le> len - uint pgoff * 4096"
    if "\<not> pci_resource_end E (cd_bar c) s - start + 1 - push_bit KPAGE_SHIFT pgoff < ve - vs"
    using that unfolding word_less_def n(3) len by simp
  have "0 \<le> uint pgoff" by simp
  with bridge_mmap_effect [OF chk refl assms(3), of pgoff vs ve] assms(1,2) le show ?thesis
    by (auto simp: remaps_snoc remap_call_def n(2) split: if_splits)
qed

text \<open>A mapping that starts behind the BAR is not refused: the size left is computed without a check and
  wraps, so that every request of up to half the address space is granted, and the range made accessible
  starts behind the last address of the BAR.\<close>

theorem bridge_mmap_outside:
  assumes "xcdev_check (Some c) False s = Inr ()" and "start = pci_resource_start E (cd_bar c) s"
    and "uint start mod 4096 = 0" and "uint (pci_resource_end E (cd_bar c) s) = uint start + len - 1" and "0 < len"
    and "uint start + len < 2 ^ 64" and "uint start + uint pgoff * 4096 < 2 ^ 64" and "len < uint pgoff * 4096"
    and "uint pgoff * 4096 \<le> 2 ^ 63" and "uint (ve - vs) \<le> 2 ^ 63"
  shows "remaps (trace (snd (bridge_mmap E (Some c) pgoff vs ve s))) =
     remaps (trace s) @ [(uint start + uint pgoff * 4096, uint (ve - vs))]"
proof -
  note n = mmap_numbers [OF assms(3,4,5,6,7)]
  have "(len - uint pgoff * 4096) mod 2 ^ 64 = (len - uint pgoff * 4096 + 2 ^ 64) mod 2 ^ 64" by simp
  also have "\<dots> = len - uint pgoff * 4096 + 2 ^ 64" using assms(5,8,9) by (intro mod_pos_pos_trivial) simp_all
  finally have "\<not> pci_resource_end E (cd_bar c) s - start + 1 - push_bit KPAGE_SHIFT pgoff < ve - vs"
    using assms(5,9,10) unfolding word_less_def n(3) by simp
  then show ?thesis
    using bridge_mmap_effect [OF assms(1) refl assms(2), of pgoff vs ve]
    by (auto simp: remaps_snoc remap_call_def n(2))
qed

text \<open>A control node on a BAR of 64 KiB.\<close>

definition mmap_env :: env where
  "mmap_env = env0\<lparr>kernel := (\<lambda>_ f _. if f = ''pci_resource_start'' then 0x10000000
     else if f = ''pci_resource_end'' then 0x1000FFFF else 0)\<rparr>"

definition ctrl_cdev :: xdma_cdev where
  "ctrl_cdev = cdev_zero\<lparr>cd_magic := MAGIC_CHAR, cd_xdev := True, cd_bar := 1\<rparr>"

lemma mmap_example:
  "xcdev_check (Some ctrl_cdev) False world0 = Inr ()"
  "uint (pci_resource_start mmap_env (cd_bar ctrl_cdev) world0) = 0x10000000"
  "uint (pci_resource_end mmap_env (cd_bar ctrl_cdev) world0) = 0x1000FFFF"
  by (simp_all add: xcdev_check_def ctrl_cdev_def cdev_zero_def xdev0_def pci_resource_start_def pci_resource_end_def
      mmap_env_def)

theorem bridge_mmap_inside_witness:
  "list_all (\<lambda>(a, n). 0x10000000 \<le> a \<and> a + n \<le> 0x10010000)
     (remaps (trace (snd (bridge_mmap mmap_env (Some ctrl_cdev) 1 0x7000 0x8000 world0))))"
proof -
  have "bridge_mmap mmap_env (Some ctrl_cdev) 1 0x7000 0x8000 world0 =
      (fst (bridge_mmap mmap_env (Some ctrl_cdev) 1 0x7000 0x8000 world0),
       snd (bridge_mmap mmap_env (Some ctrl_cdev) 1 0x7000 0x8000 world0))" by simp
  from bridge_mmap_inside [OF this _ refl, where len = "0x10000"] show ?thesis
    by (simp add: mmap_example remaps_def List.map_filter_def list_all_iff)
qed

theorem bridge_mmap_outside_witness:
  "remaps (trace (snd (bridge_mmap mmap_env (Some ctrl_cdev) 0x100 0x7000 0x8000 world0))) = [(0x10100000, 0x1000)]"
  using bridge_mmap_outside [OF mmap_example(1) refl, where E = mmap_env and len = "0x10000" and pgoff = "0x100" and ve = "0x8000"
      and vs = "0x7000"]
  by (simp add: mmap_example remaps_def List.map_filter_def)

section \<open>Reading the descriptors of an engine\<close>

lemma copy_desc_data_all:
  assumes "\<And>tr as. kernel E tr ''copy_to_user'' as = 0" and "unat ofs + 32 * length ds \<le> unat sz"
  shows "\<exists>s'. copy_desc_data E buf sz ds (ofs, rc, out, s) =
      (ofs + of_nat (32 * length ds), rc, out @ map (\<lambda>i. (ofs + of_nat (32 * i), ds ! i)) [0..<length ds], s')
    \<and> only_trace s s'"
  using assms(2)
proof (induction ds arbitrary: ofs out s)
  case Nil
  then show ?case by simp
next
  case (Cons d ds)
  have o32: "unat (ofs + 32) = unat ofs + 32"
    using Cons.prems unsigned_less [of sz, where ?'a = nat] by (simp add: unat_word_ariths)
  then have fit: "ofs + 32 \<le> sz" using Cons.prems by (simp add: word_le_nat_alt)
  let ?s = "emit (Kernel ''copy_to_user'' [uint (buf + ofs), 32] 0) s"
  have "unat (ofs + 32) + 32 * length ds \<le> unat sz" using Cons.prems o32 by simp
  from Cons.IH [OF this, of "out @ [(ofs, d)]" ?s] obtain s' where
    r: "copy_desc_data E buf sz ds (ofs + 32, rc, out @ [(ofs, d)], ?s) = (ofs + 32 + of_nat (32 * length ds), rc,
      (out @ [(ofs, d)]) @ map (\<lambda>i. (ofs + 32 + of_nat (32 * i), ds ! i)) [0..<length ds], s')"
    and o1: "only_trace ?s s'" by blast
  have "map (\<lambda>i. (ofs + of_nat (32 * i), (d # ds) ! i)) [0..<length (d # ds)] =
      (ofs, d) # map (\<lambda>i. (ofs + 32 + of_nat (32 * i), ds ! i)) [0..<length ds]"
    by (simp add: upt_conv_Cons map_Suc_upt [symmetric] comp_def algebra_simps del: upt_Suc)
  moreover have "only_trace s s'" using o1 only_trace_trans [of s ?s s'] by simp
  ultimately show ?case
    using r fit by (auto simp: kcall_def assms(1) algebra_simps)
qed

lemma transfer_descs_only:
  assumes "only_trace s s'"
  shows "transfer_descs s' e x = transfer_descs s e x"
proof -
  have "s' = s\<lparr>trace := trace s'\<rparr>" using assms by (simp only: only_trace_def)
  then have "xfers s' = xfers s" by (metis world.select_convs(2) world.surjective world.update_convs(5))
  then show ?thesis by (simp add: transfer_descs_def get_xfer_def only_traceD [OF assms])
qed

lemma map_upt_append:
  "map f [0..<length (xs @ ys)] = map f [0..<length xs] @ map (\<lambda>i. f (length xs + i)) [0..<length ys]"
  by (induction ys rule: rev_induct) simp_all

lemma of_nat64: "n < 2 ^ 64 \<Longrightarrow> unat (of_nat n :: u64) = n" "n < 2 ^ 64 \<Longrightarrow> uint (of_nat n :: u64) = int n"
  by (simp_all add: unsigned_of_nat take_bit_nat_eq_self)

lemma bypass_read_loop_all:
  assumes "\<And>tr as. kernel E tr ''copy_to_user'' as = 0" and "ds = concat (map (transfer_descs s0 e) xs)"
    and "unat ofs + 32 * length ds \<le> unat sz" and "only_trace s0 s"
  shows "\<exists>s'. bypass_read_loop E buf sz e xs (ofs, Inr (), out, s) =
      (ofs + of_nat (32 * length ds), Inr (), out @ map (\<lambda>i. (ofs + of_nat (32 * i), ds ! i)) [0..<length ds], s')"
  using assms(2-4)
proof (induction xs arbitrary: ofs out s ds)
  case Nil
  then show ?case by simp
next
  case (Cons x xs)
  let ?d = "transfer_descs s0 e x" and ?r = "concat (map (transfer_descs s0 e) xs)"
  have ds: "ds = ?d @ ?r" using Cons.prems(1) by simp
  then have "unat ofs + 32 * length ?d \<le> unat sz" using Cons.prems(2) by simp
  from copy_desc_data_all [OF assms(1) this, of buf "Inr ()" out s] obtain s1 where
    r: "copy_desc_data E buf sz ?d (ofs, Inr (), out, s) =
      (ofs + of_nat (32 * length ?d), Inr (), out @ map (\<lambda>i. (ofs + of_nat (32 * i), ?d ! i)) [0..<length ?d], s1)"
    and "only_trace s s1" by blast
  then have o1: "only_trace s0 s1" using only_trace_trans [OF Cons.prems(3)] by blast
  have sz: "unat ofs + 32 * length ?d + 32 * length ?r \<le> unat sz" using Cons.prems(2) ds by simp
  then have "unat (of_nat (32 * length ?d) :: u64) = 32 * length ?d"
    using unsigned_less [of sz, where ?'a = nat] by (intro of_nat64(1)) simp
  then have "unat (ofs + of_nat (32 * length ?d)) = unat ofs + 32 * length ?d"
    using sz unsigned_less [of sz, where ?'a = nat] by (simp add: unat_word_ariths)
  then have "unat (ofs + of_nat (32 * length ?d)) + 32 * length ?r \<le> unat sz" using sz by simp
  from Cons.IH [OF refl this o1, of "out @ map (\<lambda>i. (ofs + of_nat (32 * i), ?d ! i)) [0..<length ?d]"] obtain s2 where
    "bypass_read_loop E buf sz e xs (copy_desc_data E buf sz ?d (ofs, Inr (), out, s)) =
      (ofs + of_nat (32 * length ?d) + of_nat (32 * length ?r), Inr (),
       (out @ map (\<lambda>i. (ofs + of_nat (32 * i), ?d ! i)) [0..<length ?d])
         @ map (\<lambda>i. (ofs + of_nat (32 * length ?d) + of_nat (32 * i), ?r ! i)) [0..<length ?r], s2)"
    unfolding r by blast
  moreover have "map (\<lambda>i. (ofs + of_nat (32 * i), ds ! i)) [0..<length ds] =
      map (\<lambda>i. (ofs + of_nat (32 * i), ?d ! i)) [0..<length ?d]
        @ map (\<lambda>i. (ofs + of_nat (32 * length ?d) + of_nat (32 * i), ?r ! i)) [0..<length ?r]"
    unfolding ds map_upt_append by (simp add: nth_append algebra_simps)
  ultimately show ?case
    using transfer_descs_only [OF Cons.prems(3)] by (simp add: ds algebra_simps)
qed

text \<open>C25: reading a bypass node returns the descriptors of all transfers queued on its engine.  If the buffer
  has room for them, the read reports 32 bytes per descriptor and the user finds, from the start of the
  buffer on and in order, the descriptors of the first transfer, then those of the second, and so on.\<close>

theorem bypass_read_complete:
  assumes "bypass_check (Some c) buf count s = Inr ()" and "cd_engine c = Some e"
    and "\<And>tr as. kernel E tr ''copy_to_user'' as = 0"
    and "ds = concat (map (transfer_descs s e) (transfer_list (get_eng s e)))" and "32 * length ds \<le> unat count"
  shows "\<exists>s'. char_bypass_read E (Some c) buf count s =
     (Inr (int (32 * length ds)), map (\<lambda>i. (of_nat (32 * i), ds ! i)) [0..<length ds], s')"
proof -
  have "only_trace s s" by simp
  moreover have "unat (0 :: u64) + 32 * length ds \<le> unat count" using assms(5) by simp
  ultimately obtain s' where r: "bypass_read_loop E buf count e (transfer_list (get_eng s e)) (0, Inr (), [], s) =
      (of_nat (32 * length ds), Inr (), map (\<lambda>i. (of_nat (32 * i), ds ! i)) [0..<length ds], s')"
    using bypass_read_loop_all [OF assms(3,4), of 0 count s buf "[]"] by auto
  have "uint (of_nat (32 * length ds) :: u64) = int (32 * length ds)"
    using assms(5) unsigned_less [of count, where ?'a = nat] by (intro of_nat64(2)) simp
  then show ?thesis using assms(1,2) r by (simp add: char_bypass_read_def)
qed

lemma bypass_bar_upd: "bypass_bar_idx (xdev (upd_eng e f s)) = bypass_bar_idx (xdev s)"
  by (cases e) (simp_all add: upd_eng.simps)

definition bypass_world :: world where
  "bypass_world = upd_xfer (3, 0) (\<lambda>x. x\<lparr>desc_virt := 4, desc_num := 2\<rparr>)
     (upd_eng (H2C 0) (\<lambda>g. g\<lparr>transfer_list := [(3, 0)], desc_mem := (\<lambda>i. desc_zero\<lparr>bytes := of_nat i\<rparr>)\<rparr>)
       (upd_xdev (\<lambda>d. d\<lparr>bypass_bar_idx := 2\<rparr>) idle_world))"

theorem bypass_read_complete_witness:
  "\<exists>s'. char_bypass_read env0 (Some h2c_cdev) 0x1000 64 bypass_world =
     (Inr 64, [(0, desc_zero\<lparr>bytes := 4\<rparr>), (32, desc_zero\<lparr>bytes := 5\<rparr>)], s')"
proof -
  have c: "bypass_check (Some h2c_cdev) 0x1000 64 bypass_world = Inr ()" "cd_engine h2c_cdev = Some (H2C 0)"
    "kernel env0 tr ''copy_to_user'' as = 0" for tr as
    by (simp_all add: bypass_check_def xcdev_check_def h2c_cdev_def cdev_zero_def bypass_world_def idle_world_def
        xdev0_def engine_zero_def env0_def get_eng_upd_xdev bypass_bar_upd)
  have d: "transfer_descs bypass_world (H2C 0) (3, 0) = [desc_zero\<lparr>bytes := 4\<rparr>, desc_zero\<lparr>bytes := 5\<rparr>]"
    "transfer_list (get_eng bypass_world (H2C 0)) = [(3, 0)]"
    by (simp_all add: transfer_descs_def bypass_world_def upt_rec)
  show ?thesis
    using bypass_read_complete [OF c refl] by (simp add: d upt_rec)
qed

end
