(* ===== verification/Xvc.thy ===== *)
theory Xvc
  imports Ctrl_Ops
begin

text \<open>
  The Xilinx virtual cable (\<open>cdev_xvc.c\<close>): shifting a vector of TMS and TDI bits through a debug bridge in the
  user BAR, 32 bits at a time, and collecting the TDO bits.
\<close>

section \<open>One shift\<close>

definition COMPLETION_LOOP_MAX :: nat where "COMPLETION_LOOP_MAX = 100"

definition XVC_BAR_LENGTH_REG :: u64 where "XVC_BAR_LENGTH_REG = 0x0"
definition XVC_BAR_TMS_REG :: u64 where "XVC_BAR_TMS_REG = 0x4"
definition XVC_BAR_TDI_REG :: u64 where "XVC_BAR_TDI_REG = 0x8"
definition XVC_BAR_TDO_REG :: u64 where "XVC_BAR_TDO_REG = 0xC"
definition XVC_BAR_CTRL_REG :: u64 where "XVC_BAR_CTRL_REG = 0x10"

lemmas xvc_regs = XVC_BAR_LENGTH_REG_def XVC_BAR_TMS_REG_def XVC_BAR_TDI_REG_def XVC_BAR_TDO_REG_def XVC_BAR_CTRL_REG_def

text \<open>Polling for completion, \<open>n\<close> reads at most; the flag says whether the shift is done.\<close>

fun xvc_poll :: "env \<Rightarrow> u64 \<Rightarrow> nat \<Rightarrow> world \<Rightarrow> bool \<times> world" where
  "xvc_poll E base 0 s = (False, s)"
| "xvc_poll E base (Suc n) s =
     (let (control, s) = read_register E (base + XVC_BAR_CTRL_REG) s
      in if control AND 0x01 = 0 then (True, s) else xvc_poll E base n s)"

definition xvc_shift_bits :: "env \<Rightarrow> u64 \<Rightarrow> u32 \<Rightarrow> u32 \<Rightarrow> world \<Rightarrow> u32 res \<times> world" where
  "xvc_shift_bits E base tms_bits tdi_bits s =
     (let s = write_register tms_bits (base + XVC_BAR_TMS_REG) s;
          s = write_register tdi_bits (base + XVC_BAR_TDI_REG) s;
          s = write_register 0x1 (base + XVC_BAR_CTRL_REG) s;
          (fin, s) = xvc_poll E base COMPLETION_LOOP_MAX s
      in if \<not> fin then (Inl ETIMEDOUT, s)
         else let (v, s) = read_register E (base + XVC_BAR_TDO_REG) s in (Inr v, s))"

section \<open>Buffers\<close>

text \<open>
  A word in memory is its bytes, lowest first.  Copying in or out of a buffer beyond its end is an invalid
  access: no result.
\<close>

fun le_word :: "u8 list \<Rightarrow> u32" where
  "le_word [] = 0"
| "le_word (b # bs) = ucast b OR push_bit 8 (le_word bs)"

definition word_bytes :: "nat \<Rightarrow> u32 \<Rightarrow> u8 list" where
  "word_bytes n w = map (\<lambda>i. ucast (drop_bit (8 * i) w)) [0..<n]"

definition buf_get :: "u8 list \<Rightarrow> nat \<Rightarrow> nat \<Rightarrow> u8 list option" where
  "buf_get xs ofs n = (if ofs + n \<le> length xs then Some (take n (drop ofs xs)) else None)"

definition buf_put :: "u8 list \<Rightarrow> nat \<Rightarrow> u8 list \<Rightarrow> u8 list option" where
  "buf_put xs ofs ys =
     (if ofs + length ys \<le> length xs then Some (take ofs xs @ ys @ drop (ofs + length ys) xs) else None)"

section \<open>The loop\<close>

definition xvc_round ::
  "env \<Rightarrow> u64 \<Rightarrow> u8 list \<Rightarrow> u8 list \<Rightarrow> u32 \<Rightarrow> u32 \<Rightarrow> u8 list \<Rightarrow> world \<Rightarrow> (unit res \<times> u8 list \<times> world) option" where
  "xvc_round E iobase tms_buf tdi_buf bits bits_left tdo_buf s =
     (let k = unat (drop_bit 3 bits);
          shift_bytes = (if bits_left < 32 then unat (drop_bit 3 (bits_left + 7)) else 4);
          s = (if bits_left < 32 then write_register bits_left (iobase + XVC_BAR_LENGTH_REG) s else s)
      in do {
        tms <- buf_get tms_buf k shift_bytes;
        tdi <- buf_get tdi_buf k shift_bytes;
        case xvc_shift_bits E iobase (le_word tms) (le_word tdi) s of
          (Inl rv, s) \<Rightarrow> Some (Inl rv, tdo_buf, s)
        | (Inr tdo, s) \<Rightarrow> do {
            tdo_buf <- buf_put tdo_buf k (word_bytes shift_bytes tdo);
            Some (Inr (), tdo_buf, s)
          }
      })"

partial_function (option) xvc_loop ::
  "env \<Rightarrow> u64 \<Rightarrow> u8 list \<Rightarrow> u8 list \<Rightarrow> u32 \<Rightarrow> u32 \<Rightarrow> u32 \<Rightarrow> u8 list \<Rightarrow> world \<Rightarrow> (unit res \<times> u8 list \<times> world) option" where
  "xvc_loop E iobase tms_buf tdi_buf total_bits bits bits_left tdo_buf s =
     (if \<not> bits < total_bits then Some (Inr (), tdo_buf, s)
      else do {
        (rv, tdo_buf, s) <- xvc_round E iobase tms_buf tdi_buf bits bits_left tdo_buf s;
        case rv of
          Inl r \<Rightarrow> Some (Inl r, tdo_buf, s)
        | Inr _ \<Rightarrow> xvc_loop E iobase tms_buf tdi_buf total_bits (bits + 32) (bits_left - 32) tdo_buf s
      })"

declare xvc_loop.simps [code]

section \<open>The command\<close>

record xvc_ioc =
  opcode :: u32
  xvc_length :: u32
  xvc_tms_buf :: u64
  xvc_tdi_buf :: u64
  xvc_tdo_buf :: u64

text \<open>\<open>_IOWR('XVCD', 1, struct xvc_ioc)\<close>: the type has four letters and runs into the other fields.\<close>

definition XDMA_IOCXVC :: u32 where "XDMA_IOCXVC = IOC 3 0x58564344 1 32"

text \<open>
  \<open>um\<close> is user memory and \<open>u\<close> the structure in it; the contents of the fresh output buffer are the kernel's.
  A copy that fails makes the number of bytes left the result.  The bytes copied out are returned.
\<close>

definition user_bytes :: "(u64 \<Rightarrow> u8) \<Rightarrow> u64 \<Rightarrow> nat \<Rightarrow> u8 list" where
  "user_bytes um a n = map (\<lambda>i. um (a + of_nat i)) [0..<n]"

definition xvc_transfer ::
  "env \<Rightarrow> xdma_cdev \<Rightarrow> (u64 \<Rightarrow> u8) \<Rightarrow> xvc_ioc \<Rightarrow> nat \<Rightarrow> world \<Rightarrow> (int res \<times> u8 list option \<times> world) option" where
  "xvc_transfer E c um u total_bytes s =
     (let tms_buf = user_bytes um (xvc_tms_buf u) total_bytes;
          tdi_buf = user_bytes um (xvc_tdi_buf u) total_bytes;
          tdo_buf = map (\<lambda>i. word_of_int (kernel E (trace s) ''kmalloc_byte'' [int i])) [0..<total_bytes];
          total_bits = xvc_length u;
          iobase = cdev_bar_addr c s + cd_base c;
          s = (if 32 \<le> total_bits then write_register 0x20 (iobase + XVC_BAR_LENGTH_REG) s else s)
      in do {
        (rv, tdo_buf, s) <- xvc_loop E iobase tms_buf tdi_buf total_bits 0 total_bits tdo_buf s;
        case rv of
          Inl r \<Rightarrow> Some (Inl r, None, s)
        | Inr _ \<Rightarrow>
            let out = (if opcode u = 0x2 then tdi_buf else tdo_buf);
                (rv, s) = kcall E ''copy_to_user'' [uint (xvc_tdo_buf u), int total_bytes] s
            in Some (Inr rv, Some out, s)
      })"

definition xvc_ioctl ::
  "env \<Rightarrow> xdma_cdev option \<Rightarrow> u32 \<Rightarrow> u64 \<Rightarrow> (u64 \<Rightarrow> u8) \<Rightarrow> xvc_ioc \<Rightarrow> world \<Rightarrow> (int res \<times> u8 list option \<times> world) option" where
  "xvc_ioctl E co cmd arg um u s =
     (case xcdev_check co False s of
        Inl rv \<Rightarrow> Some (Inl rv, None, s)
      | Inr _ \<Rightarrow> do {
          c <- co;
          if cmd \<noteq> XDMA_IOCXVC then Some (Inl ENOIOCTLCMD, None, s)
          else let (rv, s) = kcall E ''copy_from_user'' [uint arg, 32] s in
          if rv \<noteq> 0 then Some (Inr rv, None, s)
          else if opcode u \<noteq> 0x01 \<and> opcode u \<noteq> 0x02 then Some (Inl EINVAL, None, s)
          else let total_bytes = drop_bit 3 (xvc_length u + 7); sz = uint (total_bytes * 3);
                   (b, s) = kcall E ''kmalloc'' [sz] s in
          if b = 0 then Some (Inl ENOMEM, None, s)
          else let (rv, s) = kcall E ''copy_from_user'' [uint (xvc_tms_buf u), uint total_bytes] s in
          if rv \<noteq> 0 then Some (Inr rv, None, emit (Kernel ''kfree'' [b] 0) s)
          else let (rv, s) = kcall E ''copy_from_user'' [uint (xvc_tdi_buf u), uint total_bytes] s in
          if rv \<noteq> 0 then Some (Inr rv, None, emit (Kernel ''kfree'' [b] 0) s)
          else do {
            (rv, out, s) <- xvc_transfer E c um u (unat total_bytes) s;
            Some (rv, out, emit (Kernel ''kfree'' [b] 0) s)
          }
        })"

section \<open>What the bridge sees\<close>

text \<open>The values read from one register, and the register writes of a vector of \<open>m\<close> bits: for every word the
  number of bits if it is not full, the TMS and the TDI bits, and the start of the shift.\<close>

definition reads_at :: "u64 \<Rightarrow> event list \<Rightarrow> u32 list" where
  "reads_at a tr = List.map_filter (\<lambda>ev. case ev of IoRead b v \<Rightarrow> if b = a then Some v else None | _ \<Rightarrow> None) tr"

lemma reads_at_append [simp]: "reads_at a (tr @ tr') = reads_at a tr @ reads_at a tr'"
  by (simp add: reads_at_def List.map_filter_def)

lemma reads_at_event [simp]:
  "reads_at a [] = []" "reads_at a (IoRead b v # tr) = (if b = a then v # reads_at a tr else reads_at a tr)"
  "reads_at a (IoWrite b v # tr) = reads_at a tr" "reads_at a (Kernel f as r # tr) = reads_at a tr"
  by (simp_all add: reads_at_def List.map_filter_def)

function shift_writes :: "u64 \<Rightarrow> nat \<Rightarrow> u8 list \<Rightarrow> u8 list \<Rightarrow> (u64 \<times> u32) list" where
  "shift_writes base m tms tdi =
     (if m = 0 then []
      else (if m < 32 then [(base + XVC_BAR_LENGTH_REG, of_nat m)] else [])
        @ [(base + XVC_BAR_TMS_REG, le_word (take 4 tms)), (base + XVC_BAR_TDI_REG, le_word (take 4 tdi)),
           (base + XVC_BAR_CTRL_REG, 1)]
        @ shift_writes base (m - 32) (drop 4 tms) (drop 4 tdi))"
  by pat_completeness auto
termination
  by (relation "measure (\<lambda>(_, m, _, _). m)") auto

declare shift_writes.simps [simp del]

definition bridge_responds :: "env \<Rightarrow> u64 \<Rightarrow> bool" where
  "bridge_responds E base \<longleftrightarrow> (\<forall>s. fst (xvc_poll E base COMPLETION_LOOP_MAX s))"

lemma xvc_poll_trace:
  "io_writes (trace (snd (xvc_poll E base n s))) = io_writes (trace s)
   \<and> reads_at (base + XVC_BAR_TDO_REG) (trace (snd (xvc_poll E base n s))) = reads_at (base + XVC_BAR_TDO_REG) (trace s)"
  by (induction n arbitrary: s) (simp_all add: Let_def split_beta xvc_regs)

lemma xvc_shift_bits_effect:
  assumes "bridge_responds E base"
  shows "\<exists>v s'. xvc_shift_bits E base tms tdi s = (Inr v, s')
     \<and> io_writes (trace s') = io_writes (trace s) @ [(base + XVC_BAR_TMS_REG, tms), (base + XVC_BAR_TDI_REG, tdi), (base + XVC_BAR_CTRL_REG, 1)]
     \<and> reads_at (base + XVC_BAR_TDO_REG) (trace s') = reads_at (base + XVC_BAR_TDO_REG) (trace s) @ [v]"
  using assms xvc_poll_trace [of E base COMPLETION_LOOP_MAX]
  by (simp add: xvc_shift_bits_def bridge_responds_def Let_def split_beta)

lemma take_word_bytes: "k \<le> n \<Longrightarrow> take k (word_bytes n w) = word_bytes k w"
  by (simp add: word_bytes_def take_map)

lemma length_word_bytes [simp]: "length (word_bytes n w) = n"
  by (simp add: word_bytes_def)

text \<open>One round, with \<open>m\<close> bits left.\<close>

lemma xvc_round_effect:
  assumes "bridge_responds E base" and "unat bits = 32 * k" and "unat left = m" and "0 < m"
    and "length tms = 4 * k + (m + 7) div 8" and "length tdi = length tms" and "length tdo = length tms"
  shows "\<exists>v s'. xvc_round E base tms tdi bits left tdo s = Some (Inr (),
       take (4 * k) tdo @ word_bytes (min 4 ((m + 7) div 8)) v @ drop (4 * k + min 4 ((m + 7) div 8)) tdo, s')
     \<and> io_writes (trace s') = io_writes (trace s) @ (if m < 32 then [(base + XVC_BAR_LENGTH_REG, of_nat m)] else [])
         @ [(base + XVC_BAR_TMS_REG, le_word (take 4 (drop (4 * k) tms))), (base + XVC_BAR_TDI_REG, le_word (take 4 (drop (4 * k) tdi))),
            (base + XVC_BAR_CTRL_REG, 1)]
     \<and> reads_at (base + XVC_BAR_TDO_REG) (trace s') = reads_at (base + XVC_BAR_TDO_REG) (trace s) @ [v]"
proof -
  define sb where "sb = min 4 ((m + 7) div 8)"
  have kb: "unat (drop_bit 3 bits) = 4 * k" using assms(2) by (simp add: unat_drop_bit_eq drop_bit_eq_div unat_div)
  have lt: "left < 32 \<longleftrightarrow> m < 32" using assms(3) by (simp add: word_less_nat_alt)
  have "unat (left + 7) = m + 7" if "m < 32" using that assms(3) by (simp add: unat_word_ariths)
  then have sb: "(if left < 32 then unat (drop_bit 3 (left + 7)) else 4) = sb"
    by (auto simp: lt sb_def unat_drop_bit_eq drop_bit_eq_div unat_div)
  have le: "4 * k + sb \<le> length tms" using assms(5) by (simp add: sb_def)
  have full: "take sb (drop (4 * k) xs) = take 4 (drop (4 * k) xs)" if "length xs = length tms" for xs :: "u8 list"
    using that assms(5) by (simp add: sb_def min_def)
  have lm: "left = of_nat m" unfolding assms(3) [symmetric] by simp
  let ?s = "if left < 32 then write_register left (base + XVC_BAR_LENGTH_REG) s else s"
  from xvc_shift_bits_effect [OF assms(1), of "le_word (take 4 (drop (4 * k) tms))" "le_word (take 4 (drop (4 * k) tdi))" ?s]
  obtain v s' where v: "xvc_shift_bits E base (le_word (take 4 (drop (4 * k) tms))) (le_word (take 4 (drop (4 * k) tdi))) ?s = (Inr v, s')"
    "io_writes (trace s') = io_writes (trace ?s) @ [(base + XVC_BAR_TMS_REG, le_word (take 4 (drop (4 * k) tms))),
        (base + XVC_BAR_TDI_REG, le_word (take 4 (drop (4 * k) tdi))), (base + XVC_BAR_CTRL_REG, 1)]"
    "reads_at (base + XVC_BAR_TDO_REG) (trace s') = reads_at (base + XVC_BAR_TDO_REG) (trace ?s) @ [v]" by blast
  have "xvc_round E base tms tdi bits left tdo s =
      Some (Inr (), take (4 * k) tdo @ word_bytes sb v @ drop (4 * k + sb) tdo, s')"
    unfolding xvc_round_def Let_def kb sb
    using le assms(6,7) v(1) by (simp add: buf_get_def buf_put_def full)
  then show ?thesis using v(2,3) lt lm by (auto simp: sb_def)
qed

text \<open>One round of the loop, seen from the vector that is left.\<close>

lemma xvc_loop_step:
  assumes "bridge_responds E base" and "unat tot = n" and "n + 32 \<le> 2 ^ 32"
    and "unat bits = 32 * k" and "n = 32 * k + m" and "0 < m" and "unat left = m"
    and "length tms = (n + 7) div 8" and "length tdi = length tms" and "length tdo = length tms"
  obtains v s1 where
    "xvc_loop E base tms tdi tot bits left tdo s = xvc_loop E base tms tdi tot (bits + 32) (left - 32)
       (take (4 * k) tdo @ word_bytes (min 4 ((m + 7) div 8)) v @ drop (4 * k + min 4 ((m + 7) div 8)) tdo) s1"
    "io_writes (trace s1) @ shift_writes base (m - 32) (drop (4 * (k + 1)) tms) (drop (4 * (k + 1)) tdi) =
       io_writes (trace s) @ shift_writes base m (drop (4 * k) tms) (drop (4 * k) tdi)"
    "reads_at (base + XVC_BAR_TDO_REG) (trace s1) = reads_at (base + XVC_BAR_TDO_REG) (trace s) @ [v]"
    "unat (bits + 32) = 32 * (k + 1)"
proof -
  have len: "length tms = 4 * k + (m + 7) div 8" using assms(5,8) by simp
  have lt: "bits < tot" using assms(2,4-6) by (simp add: word_less_nat_alt)
  from xvc_round_effect [OF assms(1,4,7,6) len assms(9,10), of s] obtain v s1 where
    r: "xvc_round E base tms tdi bits left tdo s = Some (Inr (),
       take (4 * k) tdo @ word_bytes (min 4 ((m + 7) div 8)) v @ drop (4 * k + min 4 ((m + 7) div 8)) tdo, s1)"
    and w: "io_writes (trace s1) = io_writes (trace s) @ (if m < 32 then [(base + XVC_BAR_LENGTH_REG, of_nat m)] else [])
       @ [(base + XVC_BAR_TMS_REG, le_word (take 4 (drop (4 * k) tms))), (base + XVC_BAR_TDI_REG, le_word (take 4 (drop (4 * k) tdi))),
          (base + XVC_BAR_CTRL_REG, 1)]"
    and v: "reads_at (base + XVC_BAR_TDO_REG) (trace s1) = reads_at (base + XVC_BAR_TDO_REG) (trace s) @ [v]" by blast
  have "shift_writes base m (drop (4 * k) tms) (drop (4 * k) tdi) =
      (if m < 32 then [(base + XVC_BAR_LENGTH_REG, of_nat m)] else [])
       @ [(base + XVC_BAR_TMS_REG, le_word (take 4 (drop (4 * k) tms))), (base + XVC_BAR_TDI_REG, le_word (take 4 (drop (4 * k) tdi))),
          (base + XVC_BAR_CTRL_REG, 1)] @ shift_writes base (m - 32) (drop (4 * (k + 1)) tms) (drop (4 * (k + 1)) tdi)"
    using assms(6) by (subst shift_writes.simps) (simp add: add.commute)
  moreover have "unat (bits + 32) = 32 * (k + 1)" using assms(3-6) by (simp add: unat_word_ariths)
  moreover have "xvc_loop E base tms tdi tot bits left tdo s = xvc_loop E base tms tdi tot (bits + 32) (left - 32)
       (take (4 * k) tdo @ word_bytes (min 4 ((m + 7) div 8)) v @ drop (4 * k + min 4 ((m + 7) div 8)) tdo) s1"
    using r lt by (subst xvc_loop.simps) simp
  ultimately show thesis using that w v by simp
qed

lemma xvc_loop_effect:
  assumes "bridge_responds E base" and "unat tot = n" and "n + 32 \<le> 2 ^ 32"
    and "unat bits = 32 * k" and "n = 32 * k + m" and "0 < m \<Longrightarrow> unat left = m"
    and "length tms = (n + 7) div 8" and "length tdi = length tms" and "length tdo = length tms"
  shows "\<exists>ws s'. xvc_loop E base tms tdi tot bits left tdo s = Some (Inr (),
       take (4 * k) tdo @ take (length tms - 4 * k) (concat (map (word_bytes 4) ws)), s')
     \<and> length ws = (m + 31) div 32
     \<and> io_writes (trace s') = io_writes (trace s) @ shift_writes base m (drop (4 * k) tms) (drop (4 * k) tdi)
     \<and> reads_at (base + XVC_BAR_TDO_REG) (trace s') = reads_at (base + XVC_BAR_TDO_REG) (trace s) @ ws"
  using assms
proof (induction m arbitrary: k bits left tdo s rule: less_induct)
  case (less m)
  have len: "length tms = 4 * k + (m + 7) div 8" using less.prems(5,7) by simp
  have lt: "bits < tot \<longleftrightarrow> 0 < m" using less.prems(2,4,5) by (simp add: word_less_nat_alt)
  show ?case
  proof (cases "m = 0")
    case True
    then show ?thesis using lt len less.prems(9)
      by (subst xvc_loop.simps) (auto simp: shift_writes.simps [of _ 0] intro!: exI [of _ "[]"])
  next
    case False
    define sb where "sb = min 4 ((m + 7) div 8)"
    from False have m: "0 < m" by simp
    obtain v s1 where
      step: "xvc_loop E base tms tdi tot bits left tdo s = xvc_loop E base tms tdi tot (bits + 32) (left - 32)
        (take (4 * k) tdo @ word_bytes sb v @ drop (4 * k + sb) tdo) s1"
      and w: "io_writes (trace s1) @ shift_writes base (m - 32) (drop (4 * (k + 1)) tms) (drop (4 * (k + 1)) tdi) =
        io_writes (trace s) @ shift_writes base m (drop (4 * k) tms) (drop (4 * k) tdi)"
      and v: "reads_at (base + XVC_BAR_TDO_REG) (trace s1) = reads_at (base + XVC_BAR_TDO_REG) (trace s) @ [v]"
      and b32: "unat (bits + 32) = 32 * (k + 1)"
      unfolding sb_def by (rule xvc_loop_step [OF less.prems(1-5) m less.prems(6) [OF m] less.prems(7-9), of s])
    let ?tdo = "take (4 * k) tdo @ word_bytes sb v @ drop (4 * k + sb) tdo"
    have lt4: "length ?tdo = length tms" using len less.prems(9) by (simp add: sb_def)
    show ?thesis
    proof (cases "m \<le> 32")
      case True
      have "\<not> bits + 32 < tot" using b32 less.prems(2,5) True by (simp add: word_less_nat_alt)
      then have "xvc_loop E base tms tdi tot (bits + 32) (left - 32) ?tdo s1 = Some (Inr (), ?tdo, s1)"
        by (subst xvc_loop.simps) simp
      moreover have "drop (4 * k + sb) tdo = []" "length tms - 4 * k = sb" "sb \<le> 4"
        using True len less.prems(9) False by (simp_all add: sb_def)
      ultimately show ?thesis
        using step w v True False
        by (intro exI [of _ "[v]"] exI [of _ s1]) (simp add: take_word_bytes shift_writes.simps [of _ 0])
    next
      case m32: False
      have sb: "sb = 4" using m32 by (simp add: sb_def)
      have l32: "unat (left - 32) = m - 32" using less.prems(6) False m32 by (simp add: unat_sub_if')
      have n32: "n = 32 * (k + 1) + (m - 32)" using less.prems(5) m32 by simp
      have "m - 32 < m" using False by simp
      from less.IH [OF this less.prems(1-3) b32 n32 l32 less.prems(7,8) lt4, of s1] obtain ws s2 where
        IH: "xvc_loop E base tms tdi tot (bits + 32) (left - 32) ?tdo s1 = Some (Inr (),
         take (4 * (k + 1)) ?tdo @ take (length tms - 4 * (k + 1)) (concat (map (word_bytes 4) ws)), s2)"
        "length ws = (m - 32 + 31) div 32"
        "io_writes (trace s2) = io_writes (trace s1) @ shift_writes base (m - 32) (drop (4 * (k + 1)) tms) (drop (4 * (k + 1)) tdi)"
        "reads_at (base + XVC_BAR_TDO_REG) (trace s2) = reads_at (base + XVC_BAR_TDO_REG) (trace s1) @ ws" by blast
      have t4: "4 * k + 4 \<le> length tms" using len m32 by simp
      then have "take (4 * (k + 1)) ?tdo = take (4 * k) tdo @ word_bytes 4 v"
        using less.prems(9) by (simp add: sb min_def)
      moreover have "take (length tms - 4 * k) (concat (map (word_bytes 4) (v # ws))) =
          word_bytes 4 v @ take (length tms - 4 * (k + 1)) (concat (map (word_bytes 4) ws))"
        using t4 by (simp add: take_append add.commute)
      moreover have "length (v # ws) = (m + 31) div 32" using IH(2) m32 by simp
      ultimately show ?thesis
        using step IH w v by (intro exI [of _ "v # ws"] exI [of _ s2]) simp
    qed
  qed
qed

section \<open>The command is exact\<close>

lemma total_bytes_nat:
  assumes "unat n + 32 \<le> 2 ^ 32"
  shows "unat (drop_bit 3 (n + 7) :: u32) = (unat n + 7) div 8"
  using assms by (simp add: unat_drop_bit_eq drop_bit_eq_div unat_div unat_word_ariths)

lemma length_user_bytes [simp]: "length (user_bytes um a n) = n"
  by (simp add: user_bytes_def)

text \<open>With memory and copies granted, the command comes to the transfer.\<close>

lemma xvc_ioctl_reaches:
  assumes "xcdev_check (Some c) False s = Inr ()" and "opcode u = 1 \<or> opcode u = 2"
    and "\<And>tr as. kernel E tr ''copy_from_user'' as = 0" and "\<And>tr as. kernel E tr ''kmalloc'' as \<noteq> 0"
  shows "\<exists>b s1. xvc_ioctl E (Some c) XDMA_IOCXVC arg um u s =
       do {
         (rv, out, s') <- xvc_transfer E c um u (unat (drop_bit 3 (xvc_length u + 7))) s1;
         Some (rv, out, emit (Kernel ''kfree'' [b] 0) s')
       }
     \<and> io_writes (trace s1) = io_writes (trace s) \<and> (\<forall>a. reads_at a (trace s1) = reads_at a (trace s))
     \<and> cdev_bar_addr c s1 = cdev_bar_addr c s"
proof -
  let ?tb = "drop_bit 3 (xvc_length u + 7)"
  let ?s0 = "emit (Kernel ''copy_from_user'' [uint arg, 32] 0) s"
  let ?b = "kernel E (trace ?s0) ''kmalloc'' [uint (?tb * 3)]"
  let ?s1 = "emit (Kernel ''copy_from_user'' [uint (xvc_tdi_buf u), uint ?tb] 0)
      (emit (Kernel ''copy_from_user'' [uint (xvc_tms_buf u), uint ?tb] 0) (emit (Kernel ''kmalloc'' [uint (?tb * 3)] ?b) ?s0))"
  have k: "kcall E ''copy_from_user'' as t = (0, emit (Kernel ''copy_from_user'' as 0) t)" for as t
    by (simp add: kcall_def assms(3))
  have m: "kcall E ''kmalloc'' [uint (?tb * 3)] ?s0 = (?b, emit (Kernel ''kmalloc'' [uint (?tb * 3)] ?b) ?s0)"
    by (simp add: kcall_def Let_def)
  have o': "\<not> (opcode u \<noteq> 0x01 \<and> opcode u \<noteq> 0x02)" using assms(2) by auto
  have z: "(0 :: int) \<noteq> 0 \<longleftrightarrow> False" by simp
  have "xvc_ioctl E (Some c) XDMA_IOCXVC arg um u s =
       do {
         (rv, out, s') <- xvc_transfer E c um u (unat ?tb) ?s1;
         Some (rv, out, emit (Kernel ''kfree'' [?b] 0) s')
       }"
    unfolding xvc_ioctl_def assms(1) sum.case Option.bind.simps if_not_P [OF o'] Let_def k prod.case m
    using assms(4) by (simp only: z if_False if_True simp_thms)
  then show ?thesis by (intro exI [of _ ?b] exI [of _ ?s1]) (simp add: cdev_bar_addr_def)
qed

text \<open>C24: a shift command is carried out exactly.  If the bridge finishes every shift within the polling bound,
  the memory can be had and the copies succeed, a command of up to \<open>2^32 - 32\<close> bits returns zero; the bridge
  has been given precisely the bits of the two vectors, in words of 32 with a shorter last one, and the
  caller gets the bytes of the words read back, whatever was in the memory, or its own TDI vector for
  the loop-back command.\<close>

theorem xvc_ioctl_exact:
  assumes "xcdev_check (Some c) False s = Inr ()" and "opcode u = 1 \<or> opcode u = 2" and "unat (xvc_length u) + 32 \<le> 2 ^ 32"
    and "bridge_responds E base" and "base = cdev_bar_addr c s + cd_base c"
    and "\<And>tr as. kernel E tr ''copy_from_user'' as = 0" and "\<And>tr as. kernel E tr ''copy_to_user'' as = 0"
    and "\<And>tr as. kernel E tr ''kmalloc'' as \<noteq> 0" and "n = (unat (xvc_length u) + 7) div 8"
    and "tms = user_bytes um (xvc_tms_buf u) n" and "tdi = user_bytes um (xvc_tdi_buf u) n"
  shows "\<exists>ws s'. xvc_ioctl E (Some c) XDMA_IOCXVC arg um u s = Some (Inr 0,
       Some (if opcode u = 2 then tdi else take n (concat (map (word_bytes 4) ws))), s')
     \<and> length ws = (unat (xvc_length u) + 31) div 32
     \<and> reads_at (base + XVC_BAR_TDO_REG) (trace s') = reads_at (base + XVC_BAR_TDO_REG) (trace s) @ ws
     \<and> io_writes (trace s') = io_writes (trace s)
         @ (if 32 \<le> xvc_length u then [(base + XVC_BAR_LENGTH_REG, 32)] else []) @ shift_writes base (unat (xvc_length u)) tms tdi"
proof -
  from xvc_ioctl_reaches [OF assms(1,2,6,8), of arg um] obtain b s1 where
    r: "xvc_ioctl E (Some c) XDMA_IOCXVC arg um u s = do {
         (rv, out, s') <- xvc_transfer E c um u n s1; Some (rv, out, emit (Kernel ''kfree'' [b] 0) s') }"
    and t1: "io_writes (trace s1) = io_writes (trace s)" "\<And>a. reads_at a (trace s1) = reads_at a (trace s)"
      "cdev_bar_addr c s1 = cdev_bar_addr c s"
    unfolding total_bytes_nat [OF assms(3)] assms(9) by blast
  define s2 where "s2 = (if 32 \<le> xvc_length u then write_register 0x20 (base + XVC_BAR_LENGTH_REG) s1 else s1)"
  define tdo where "tdo = map (\<lambda>i. word_of_int (kernel E (trace s1) ''kmalloc_byte'' [int i]) :: u8) [0..<n]"
  have l: "length tms = (unat (xvc_length u) + 7) div 8" "length tdi = length tms" "length tdo = length tms"
    by (simp_all add: assms(9,10,11) tdo_def)
  from xvc_loop_effect [OF assms(4) refl assms(3), of 0 0 "unat (xvc_length u)" "xvc_length u" tms tdi tdo s2] l
  obtain ws s3 where
    loop: "xvc_loop E base tms tdi (xvc_length u) 0 (xvc_length u) tdo s2 =
       Some (Inr (), take n (concat (map (word_bytes 4) ws)), s3)" and ws: "length ws = (unat (xvc_length u) + 31) div 32"
    and w: "io_writes (trace s3) = io_writes (trace s2) @ shift_writes base (unat (xvc_length u)) tms tdi"
    and v: "reads_at (base + XVC_BAR_TDO_REG) (trace s3) = reads_at (base + XVC_BAR_TDO_REG) (trace s2) @ ws"
    by (auto simp: assms(9))
  have "xvc_transfer E c um u n s1 = Some (Inr 0,
      Some (if opcode u = 2 then tdi else take n (concat (map (word_bytes 4) ws))),
      emit (Kernel ''copy_to_user'' [uint (xvc_tdo_buf u), int n] 0) s3)"
    unfolding xvc_transfer_def Let_def t1(3) assms(5) [symmetric] assms(10,11) [symmetric] tdo_def [symmetric]
      s2_def [symmetric] using loop by (simp add: kcall_def assms(7))
  then have "xvc_ioctl E (Some c) XDMA_IOCXVC arg um u s = Some (Inr 0,
      Some (if opcode u = 2 then tdi else take n (concat (map (word_bytes 4) ws))),
      emit (Kernel ''kfree'' [b] 0) (emit (Kernel ''copy_to_user'' [uint (xvc_tdo_buf u), int n] 0) s3))"
    using r by simp
  moreover have "io_writes (trace s2) = io_writes (trace s) @ (if 32 \<le> xvc_length u then [(base + XVC_BAR_LENGTH_REG, 32)] else [])"
    "reads_at a (trace s2) = reads_at a (trace s)" for a using t1 by (simp_all add: s2_def)
  ultimately show ?thesis using ws w v by (intro exI conjI) (assumption | simp)+
qed

text \<open>C36: the computation of the buffer size wraps.  For a command of at least \<open>2^32 - 7\<close> bits the size in
  bytes is zero; an empty allocation succeeds, there is nothing to copy, and the loop then reads outside the
  buffer: the command does not complete, whatever the device does.\<close>

theorem xvc_ioctl_size_wraps:
  assumes "xcdev_check (Some c) False s = Inr ()" and "opcode u = 1 \<or> opcode u = 2" and "2 ^ 32 - 7 \<le> unat (xvc_length u)"
    and "\<And>tr as. kernel E tr ''copy_from_user'' as = 0" and "\<And>tr as. kernel E tr ''kmalloc'' as \<noteq> 0"
  shows "xvc_ioctl E (Some c) XDMA_IOCXVC arg um u s = None"
proof -
  from xvc_ioctl_reaches [OF assms(1,2,4,5), of arg um] obtain b s1 where
    r: "xvc_ioctl E (Some c) XDMA_IOCXVC arg um u s = do {
         (rv, out, s') <- xvc_transfer E c um u (unat (drop_bit 3 (xvc_length u + 7))) s1;
         Some (rv, out, emit (Kernel ''kfree'' [b] 0) s') }" by blast
  have n: "unat (xvc_length u) < 2 ^ 32" by (rule unat_u32)
  then have "unat (xvc_length u + 7) < 8" using assms(3) by (simp add: unat_word_ariths mod_if) arith
  then have tb: "unat (drop_bit 3 (xvc_length u + 7)) = 0" by (simp add: unat_drop_bit_eq drop_bit_eq_div unat_div)
  have l: "0 < xvc_length u" "\<not> xvc_length u < 32" using assms(3) by (auto simp: word_less_nat_alt)
  have "xvc_loop E base [] [] (xvc_length u) 0 (xvc_length u) [] t = None" for base t
    using l by (subst xvc_loop.simps) (simp add: xvc_round_def buf_get_def)
  then show ?thesis unfolding r tb by (simp add: xvc_transfer_def user_bytes_def Let_def)
qed

definition xvc_env :: env where
  "xvc_env = env0\<lparr>kernel := (\<lambda>_ f _. of_bool (f = ''kmalloc''))\<rparr>"

definition demo_ioc :: "u32 \<Rightarrow> xvc_ioc" where
  "demo_ioc n = \<lparr>opcode = 1, xvc_length = n, xvc_tms_buf = 0x2000, xvc_tdi_buf = 0x3000, xvc_tdo_buf = 0x4000\<rparr>"

lemma demo_xvc:
  "xcdev_check (Some ctrl_cdev) False world0 = Inr ()" "opcode (demo_ioc n) = 1 \<or> opcode (demo_ioc n) = 2"
  "bridge_responds xvc_env base" "kernel xvc_env tr ''copy_from_user'' as = 0" "kernel xvc_env tr ''copy_to_user'' as = 0"
  "kernel xvc_env tr ''kmalloc'' as \<noteq> 0"
  by (simp_all add: mmap_example demo_ioc_def bridge_responds_def xvc_env_def COMPLETION_LOOP_MAX_def env0_def
      numeral_eq_Suc Let_def split_beta)

theorem xvc_ioctl_exact_witness:
  "\<exists>ws s'. xvc_ioctl xvc_env (Some ctrl_cdev) XDMA_IOCXVC 0x1000 (\<lambda>a. ucast a) (demo_ioc 40) world0 =
     Some (Inr 0, Some (take 5 (concat (map (word_bytes 4) ws))), s') \<and> length ws = 2"
proof -
  have l: "unat (xvc_length (demo_ioc 40)) + 32 \<le> 2 ^ 32" by (simp add: demo_ioc_def)
  from xvc_ioctl_exact [OF demo_xvc(1,2) l demo_xvc(3) refl demo_xvc(4,5,6) refl refl refl, where arg = "0x1000" and um = "\<lambda>a. ucast a"] show ?thesis
    by (auto simp: demo_ioc_def)
qed

theorem xvc_ioctl_size_wraps_witness:
  "xvc_ioctl xvc_env (Some ctrl_cdev) XDMA_IOCXVC 0x1000 (\<lambda>a. ucast a) (demo_ioc 0xFFFFFFFF) world0 = None"
proof -
  have "2 ^ 32 - 7 \<le> unat (xvc_length (demo_ioc 0xFFFFFFFF))" by (simp add: demo_ioc_def)
  from xvc_ioctl_size_wraps [OF demo_xvc(1,2) this demo_xvc(4,6)] show ?thesis .
qed

end
