(* ===== verification/Driver_Module.thy ===== *)
theory Driver_Module
  imports Sgdma
begin

text \<open>
  The module (\<open>xdma_mod.c\<close>): probing and removing a board, the recovery from PCI errors, and loading and
  unloading.  Here the driver library and the device nodes come together.
\<close>

section \<open>Boards\<close>

text \<open>
  The counter of boards and, for every PCI function, the driver data the kernel keeps for it.
\<close>

record xdma_mod =
  xpdev_cnt :: int
  drvdata :: "nat \<Rightarrow> xdma_pci_dev option"

definition xpdev_zero :: xdma_pci_dev where
  "xpdev_zero = \<lparr>xp_magic = 0, xp_pdev = 0, xp_xdev = 0, xp_major = 0, xp_user_max = 0, xp_c2h_channel_max = 0,
     xp_h2c_channel_max = 0, xp_flags = 0, xp_cdevs = (\<lambda>_. cdev_zero)\<rparr>"

definition xpdev_alloc :: "env \<Rightarrow> nat \<Rightarrow> xdma_mod \<times> world \<Rightarrow> xdma_pci_dev option \<times> xdma_mod \<times> world" where
  "xpdev_alloc E p = (\<lambda>(m, s).
     if \<not> kzalloc E (trace s) then (None, m, s)
     else (Some (xpdev_zero\<lparr>xp_magic := MAGIC_DEVICE, xp_pdev := p, xp_user_max := MAX_USER_IRQ,
                   xp_h2c_channel_max := XDMA_CHANNEL_NUM_MAX, xp_c2h_channel_max := XDMA_CHANNEL_NUM_MAX\<rparr>),
           m\<lparr>xpdev_cnt := xpdev_cnt m + 1\<rparr>, emit (KAlloc 1) s))"

definition xpdev_free :: "env \<Rightarrow> xdma_pci_dev \<Rightarrow> xdma_mod \<times> world \<Rightarrow> xdma_mod \<times> world" where
  "xpdev_free E xp = (\<lambda>(m, s).
     let s = xpdev_destroy_interfaces xp s;
         s = xdma_device_close E (xp_pdev xp) (xp_xdev xp) s
     in (m\<lparr>xpdev_cnt := xpdev_cnt m - 1\<rparr>, emit (KFree 1) s))"

text \<open>The mask of the user interrupts that probing enables.\<close>

definition probe_mask :: "nat \<Rightarrow> u32" where
  "probe_mask n = push_bit (n + 1) 1 - 1"

text \<open>The part of \<open>probe_one\<close> after the device was opened with handle \<open>h\<close>; it returns the board so far.\<close>

definition probe_check :: "env \<Rightarrow> nat \<Rightarrow> nat \<Rightarrow> xdma_pci_dev \<Rightarrow> world \<Rightarrow> unit res \<times> xdma_pci_dev \<times> world" where
  "probe_check E p h xp s =
     (if MAX_USER_IRQ < xp_user_max xp then (Inl EINVAL, xp, s)
      else if XDMA_CHANNEL_NUM_MAX < xp_h2c_channel_max xp then (Inl EINVAL, xp, s)
      else if XDMA_CHANNEL_NUM_MAX < xp_c2h_channel_max xp then (Inl EINVAL, xp, s)
      else let (rv, s) = (if xp_user_max xp \<noteq> 0 then xdma_user_isr_enable E h (probe_mask (xp_user_max xp)) s
                          else (Inr (), s))
           in case rv of
                Inl r \<Rightarrow> (Inl r, xp, s)
              | Inr _ \<Rightarrow>
                  (case xdev_find_by_pdev p s of
                     None \<Rightarrow> (Inl EINVAL, xp, s)
                   | Some d \<Rightarrow> if h \<noteq> d then (Inl EINVAL, xp, s)
                               else xpdev_create_interfaces E (xp\<lparr>xp_xdev := h\<rparr>) s))"

text \<open>The device gets the address \<open>hndl\<close>; \<open>cpus\<close> are the processors for the completion threads.\<close>

definition probe_one :: "env \<Rightarrow> int list \<Rightarrow> nat \<Rightarrow> nat \<Rightarrow> xdma_mod \<times> world \<Rightarrow> unit res \<times> xdma_mod \<times> world" where
  "probe_one E cpus p hndl ms =
     (case xpdev_alloc E p ms of
        (None, ms) \<Rightarrow> (Inl ENOMEM, ms)
      | (Some xp, m, s) \<Rightarrow>
          (case xdma_device_open E cpus p hndl (xp_user_max xp) (xp_h2c_channel_max xp) (xp_c2h_channel_max xp) s of
             (None, s) \<Rightarrow> (Inl EINVAL, xpdev_free E xp (m, s))
           | (Some h, s) \<Rightarrow>
               let xp = xp\<lparr>xp_user_max := user_max (xdev s), xp_h2c_channel_max := h2c_channel_max (xdev s),
                           xp_c2h_channel_max := c2h_channel_max (xdev s)\<rparr>
               in case probe_check E p h xp s of
                    (Inl rv, xp, s) \<Rightarrow> (Inl rv, xpdev_free E xp (m, s))
                  | (Inr _, xp, s) \<Rightarrow> (Inr (), m\<lparr>drvdata := (drvdata m)(p := Some xp)\<rparr>, s)))"

definition remove_one :: "env \<Rightarrow> nat \<Rightarrow> xdma_mod \<times> world \<Rightarrow> xdma_mod \<times> world" where
  "remove_one E p = (\<lambda>(m, s).
     if p = 0 then (m, s)
     else case drvdata m p of
            None \<Rightarrow> (m, s)
          | Some xp \<Rightarrow> let (m, s) = xpdev_free E xp (m, s) in (m\<lparr>drvdata := (drvdata m)(p := None)\<rparr>, s))"

section \<open>Errors and resets\<close>

datatype pci_channel_state = Pci_channel_io_normal | Pci_channel_io_frozen | Pci_channel_io_perm_failure
  | Pci_channel_io_other

datatype pci_ers_result = Pci_ers_can_recover | Pci_ers_need_reset | Pci_ers_disconnect | Pci_ers_recovered

text \<open>
  The callbacks get the board from the driver data without looking whether there is one: \<open>None\<close> is the
  fault when there is none.
\<close>

definition xdma_error_detected ::
  "env \<Rightarrow> nat \<Rightarrow> pci_channel_state \<Rightarrow> xdma_mod \<Rightarrow> world \<Rightarrow> (pci_ers_result \<times> world) option" where
  "xdma_error_detected E p st m s =
     (case st of
        Pci_channel_io_normal \<Rightarrow> Some (Pci_ers_can_recover, s)
      | Pci_channel_io_frozen \<Rightarrow>
          do {
            xp \<leftarrow> drvdata m p;
            Some (Pci_ers_need_reset,
              emit (Kernel ''pci_disable_device'' [int p] 0) (xdma_device_offline E p (xp_xdev xp) s))
          }
      | Pci_channel_io_perm_failure \<Rightarrow> Some (Pci_ers_disconnect, s)
      | Pci_channel_io_other \<Rightarrow> Some (Pci_ers_need_reset, s))"

definition xdma_slot_reset :: "env \<Rightarrow> nat \<Rightarrow> xdma_mod \<Rightarrow> world \<Rightarrow> (pci_ers_result \<times> world) option" where
  "xdma_slot_reset E p m s =
     (let (rv, s) = kcall E ''pci_enable_device_mem'' [int p] s
      in if rv \<noteq> 0 then Some (Pci_ers_disconnect, s)
         else do {
           xp \<leftarrow> drvdata m p;
           let s = emit (Kernel ''pci_set_master'' [int p] 0) s;
           let s = emit (Kernel ''pci_restore_state'' [int p] 0) s;
           let s = emit (Kernel ''pci_save_state'' [int p] 0) s;
           Some (Pci_ers_recovered, xdma_device_online E p (xp_xdev xp) s)
         })"

definition xdma_error_resume :: "nat \<Rightarrow> world \<Rightarrow> world" where
  "xdma_error_resume p s = emit (Kernel ''pci_aer_clear_nonfatal_status'' [int p] 0) s"

definition xdma_reset_prepare :: "env \<Rightarrow> nat \<Rightarrow> xdma_mod \<Rightarrow> world \<Rightarrow> world option" where
  "xdma_reset_prepare E p m s = do { xp \<leftarrow> drvdata m p; Some (xdma_device_offline E p (xp_xdev xp) s) }"

definition xdma_reset_done :: "env \<Rightarrow> nat \<Rightarrow> xdma_mod \<Rightarrow> world \<Rightarrow> world option" where
  "xdma_reset_done E p m s = do { xp \<leftarrow> drvdata m p; Some (xdma_device_online E p (xp_xdev xp) s) }"

section \<open>Loading and unloading\<close>

text \<open>
  Loading limits the module parameter.  The kernel probes the boards it finds from within
  \<open>pci_register_driver\<close> and removes them from within \<open>pci_unregister_driver\<close>.
\<close>

definition xdma_mod_init :: "env \<Rightarrow> world \<Rightarrow> unit res \<times> env \<times> world" where
  "xdma_mod_init E s =
     (let E = (if XDMA_DESC_BLEN_MAX < desc_blen_max E then E\<lparr>desc_blen_max := XDMA_DESC_BLEN_MAX\<rparr> else E)
      in case xdma_cdev_init E s of
           (Inl rv, s) \<Rightarrow> (Inl rv, E, s)
         | (Inr _, s) \<Rightarrow>
             let (rv, s) = kcall E ''pci_register_driver'' [] s in (if rv = 0 then Inr () else Inl (kerr rv), E, s))"

definition xdma_mod_exit :: "bool \<Rightarrow> bool \<Rightarrow> world \<Rightarrow> world" where
  "xdma_mod_exit cache cls s = xdma_cdev_cleanup cache cls (emit (Kernel ''pci_unregister_driver'' [] 0) s)"

section \<open>What creating and destroying the nodes leaves alone\<close>

text \<open>Of the board only the major number, the flags and the nodes change, of the world only the trace.\<close>

definition board_id :: "xdma_pci_dev \<Rightarrow> xdma_pci_dev" where
  "board_id xp = xp\<lparr>xp_major := 0, xp_flags := 0, xp_cdevs := (\<lambda>_. cdev_zero)\<rparr>"

definition nodes_only :: "xdma_pci_dev \<times> world \<Rightarrow> xdma_pci_dev \<times> world \<Rightarrow> bool" where
  "nodes_only st st' \<longleftrightarrow> board_id (fst st') = board_id (fst st) \<and> only_trace (snd st) (snd st')"

lemma board_id_eq:
  assumes "board_id xp' = board_id xp"
  shows "xp_xdev xp' = xp_xdev xp" "xp_pdev xp' = xp_pdev xp" "xp_magic xp' = xp_magic xp"
    "xp_user_max xp' = xp_user_max xp" "xp_h2c_channel_max xp' = xp_h2c_channel_max xp"
    "xp_c2h_channel_max xp' = xp_c2h_channel_max xp"
  using arg_cong [OF assms, of xp_xdev] arg_cong [OF assms, of xp_pdev] arg_cong [OF assms, of xp_magic]
    arg_cong [OF assms, of xp_user_max] arg_cong [OF assms, of xp_h2c_channel_max]
    arg_cong [OF assms, of xp_c2h_channel_max]
  by (simp_all add: board_id_def)

lemma nodes_only_trans: "nodes_only a b \<Longrightarrow> nodes_only b c \<Longrightarrow> nodes_only a c"
  using only_trace_trans by (auto simp: nodes_only_def)

lemma node_calls_only [simp]:
  "only_trace s (unregister_region n t) = only_trace s t" "only_trace s (snd (destroy_xcdev c t)) = only_trace s t"
  "only_trace s (snd (config_kobject E c type t)) = only_trace s t"
  "only_trace s (snd (snd (create_sys_device E c type t))) = only_trace s t"
  by (simp_all add: unregister_region_def destroy_xcdev_def config_kobject_def create_sys_device_def
      split_beta Let_def)

lemma alloc_region_only: "nodes_only (xp, s) (snd (alloc_region E xp s))"
  by (simp add: nodes_only_def alloc_region_def split_beta board_id_def)

lemma nodes_only_step [simp]:
  "nodes_only a (set_cdev r c xp, t) = nodes_only a (xp, t)" "nodes_only a (xpdev_flag_set b xp, t) = nodes_only a (xp, t)"
  "nodes_only (xpdev_flag_set b xp, t) a = nodes_only (xp, t) a"
  by (simp_all add: nodes_only_def set_cdev_def xpdev_flag_set_def board_id_def)

lemma create_xcdev_only: "nodes_only st (snd (create_xcdev E r b eo type st))"
proof -
  obtain xp t where st: "st = (xp, t)" by fastforce
  obtain rv1 xp1 s1 where a: "alloc_region E xp t = (rv1, xp1, s1)" by (metis prod_cases3)
  have 1: "nodes_only st (xp1, s1)" using alloc_region_only [of xp t E] by (simp add: a st)
  define c where "c = (xp_cdevs xp1 r)\<lparr>cd_magic := MAGIC_CHAR, cd_xdev := (xp_xdev xp1 \<noteq> 0), cd_engine := eo, cd_bar := b\<rparr>"
  obtain rv2 s2 where k: "config_kobject E c type s1 = (rv2, s2)" by fastforce
  have 2: "nodes_only st (xp1, s2)" using 1 node_calls_only(3) [of t E c type s1] by (simp add: k nodes_only_def st)
  have 3: "nodes_only st (xp1, s3)" if "only_trace s2 s3" for s3
    using 2 only_trace_trans [OF _ that, of t] by (simp add: nodes_only_def st)
  show ?thesis
    unfolding create_xcdev_def st prod.case a c_def [symmetric]
    using 1 2 3 by (cases rv1; cases rv2) (simp_all add: st k Let_def split_beta split: sum.split)
qed

lemma create_each_only: "nodes_only st (snd (create_each E l st))"
proof (induction E l st rule: create_each.induct)
  case (2 E r b eo type l st)
  then show ?case
    using create_xcdev_only [of st E r b eo type]
    by (auto split: sum.split prod.split intro: nodes_only_trans)
qed (simp add: nodes_only_def)

lemma create_stages_only: "nodes_only st (snd (create_stages E gs st))"
proof (induction E gs st rule: create_stages.induct)
  case (2 E l b gs st)
  then show ?case
    using create_each_only [of st E l]
    by (auto split: sum.split prod.split intro: nodes_only_trans)
qed (simp add: nodes_only_def)

lemma destroy_interfaces_only: "only_trace s (xpdev_destroy_interfaces xp t) = only_trace s t"
proof -
  have "only_trace s (fold (\<lambda>r s. snd (destroy_xcdev (xp_cdevs xp r) s)) rs u) = only_trace s u" for rs u
    by (induction rs arbitrary: u) simp_all
  then show ?thesis by (simp add: xpdev_destroy_interfaces_def destroy_group_def Let_def)
qed

lemma create_interfaces_only: "nodes_only (xp, s) (snd (xpdev_create_interfaces E xp s))"
  using create_stages_only [of "(xp, s)" E "cdev_groups xp s"]
  by (auto simp: xpdev_create_interfaces_def destroy_interfaces_only nodes_only_def split: sum.split prod.split)

section \<open>Closing and freeing\<close>

lemma close_effect:
  assumes "hndl \<noteq> 0" and "debug_check_dev_hndl p hndl s = Inr ()"
  shows "xdev_list (xdma_device_close E p hndl s) = filter (\<lambda>d. fst (snd d) \<noteq> self (xdev s)) (xdev_list s)"
proof -
  have k: "listed s (irq_teardown E (interrupts_off E s))"
    by (rule settled_listed) (simp add: settled_irq_teardown settled_interrupts_off)
  have l: "xdev_list (free_xdev (xdev_list_remove E t)) = filter (\<lambda>d. fst (snd d) \<noteq> self (xdev s)) (xdev_list s)"
    if "listed s t" for t
    using that by (simp add: free_xdev_def list_remove_effect listed_def)
  define u where "u = unmap_bars (remove_engines E (disable_msi_msix p (irq_teardown E (interrupts_off E s))))"
  have "listed s u" using k by (simp add: u_def listed_unmap listed_remove_engines disable_msi_msix_def)
  then show ?thesis
    unfolding xdma_device_close_def Let_def u_def [symmetric] using assms by (simp add: l)
qed

lemma free_effect:
  assumes "xpdev_free E xp (m, s) = (m', s')"
  shows "xpdev_cnt m' = xpdev_cnt m - 1" "drvdata m' = drvdata m"
    "xdev_list s' = (if xp_xdev xp \<noteq> 0 \<and> debug_check_dev_hndl (xp_pdev xp) (xp_xdev xp) s = Inr ()
       then filter (\<lambda>d. fst (snd d) \<noteq> self (xdev s)) (xdev_list s) else xdev_list s)"
proof -
  define t where "t = xpdev_destroy_interfaces xp s"
  have t: "only_trace s t" by (simp add: t_def destroy_interfaces_only)
  have c: "debug_check_dev_hndl p h t = debug_check_dev_hndl p h s" for p h
    by (rule debug_check_cong) (simp add: only_traceD [OF t])
  have e: "m' = m\<lparr>xpdev_cnt := xpdev_cnt m - 1\<rparr>" "s' = emit (KFree 1) (xdma_device_close E (xp_pdev xp) (xp_xdev xp) t)"
    using assms by (simp_all add: xpdev_free_def Let_def t_def)
  show "xpdev_cnt m' = xpdev_cnt m - 1" "drvdata m' = drvdata m" by (simp_all add: e(1))
  show "xdev_list s' = (if xp_xdev xp \<noteq> 0 \<and> debug_check_dev_hndl (xp_pdev xp) (xp_xdev xp) s = Inr ()
       then filter (\<lambda>d. fst (snd d) \<noteq> self (xdev s)) (xdev_list s) else xdev_list s)"
    using close_effect [of "xp_xdev xp" "xp_pdev xp" t E] only_traceD [OF t]
    by (auto simp: e(2) c) (simp_all add: xdma_device_close_def c)
qed

section \<open>Probing\<close>

lemma isr_enable_frame:
  assumes "xdma_user_isr_enable E h k s = (rv, s')"
  shows "settled s s'" "submit_check h' ch w s' = submit_check h' ch w s" "rv = (if check_dev h s then Inr () else Inl EINVAL)"
proof -
  define u where "u = (if check_dev h s then upd_xdev (\<lambda>d. d\<lparr>mask_irq_user := mask_irq_user d OR k\<rparr>) s else s)"
  have g: "get_eng u e = get_eng s e" for e by (simp add: u_def)
  have x: "pdev (xdev u) = pdev (xdev s)" "h2c_channel_max (xdev u) = h2c_channel_max (xdev s)"
    "c2h_channel_max (xdev u) = c2h_channel_max (xdev s)" "dflags (xdev u) = dflags (xdev s)" "xdev_list u = xdev_list s"
    by (simp_all add: u_def)
  have c: "check_engine u e w = check_engine s e w" "select_engine u w ch = select_engine s w ch"
    "debug_check_dev_hndl p h' u = debug_check_dev_hndl p h' s" for e p
    by (simp_all add: check_engine_def select_engine_def debug_check_dev_hndl_def xdev_find_by_pdev_def
        xdma_device_flag_check_def x g)
  have sc: "submit_check h' ch w u = submit_check h' ch w s" unfolding submit_check_def x c ..
  have u: "settled s u" by (simp add: u_def)
  have o: "only_trace u s'"
    using assms by (auto simp: u_def xdma_user_isr_enable_def user_interrupts_enable_def write_register_def
        read_interrupts_def split_beta Let_def split: if_splits)
  show "rv = (if check_dev h s then Inr () else Inl EINVAL)"
    using assms by (auto simp: xdma_user_isr_enable_def Let_def split: if_splits)
  show "submit_check h' ch w s' = submit_check h' ch w s" by (simp add: only_traceD [OF o] sc)
  show "settled s s'" using u by (simp add: settled_def only_traceD [OF o])
qed

text \<open>The check after opening, when the device is the only one of its function and within the limits.\<close>

lemma probe_check_effect:
  assumes "probe_check E p h xp s = (rv, xp', s')"
    and "xp_user_max xp \<le> MAX_USER_IRQ" "xp_h2c_channel_max xp \<le> XDMA_CHANNEL_NUM_MAX"
      "xp_c2h_channel_max xp \<le> XDMA_CHANNEL_NUM_MAX"
    and "debug_check_dev_hndl p h s = Inr ()" and "h \<noteq> 0" and "pdev (xdev s) = p"
  shows "board_id xp' = board_id (xp\<lparr>xp_xdev := h\<rparr>)" "settled s s'"
    "submit_check h' ch w s' = submit_check h' ch w s"
    "\<exists>xp0 s0. xpdev_create_interfaces E xp0 s0 = (rv, xp', s')"
proof -
  define r where "r = (if xp_user_max xp \<noteq> 0 then xdma_user_isr_enable E h (probe_mask (xp_user_max xp)) s else (Inr (), s))"
  obtain rv1 s1 where r1: "r = (rv1, s1)" by fastforce
  have f: "settled s s1" "submit_check h' ch w s1 = submit_check h' ch w s" "rv1 = Inr ()" for h' ch w
    using r1 isr_enable_frame [of E h "probe_mask (xp_user_max xp)" s rv1 s1] assms(5-7)
    by (auto simp: r_def check_dev_def split: if_splits)
  have l: "xdev_list s1 = xdev_list s" using f(1) by (simp add: settled_def)
  have "xdev_find_by_pdev p s = Some h"
    using assms(5) by (auto simp: debug_check_dev_hndl_def split: if_splits option.splits)
  then have "xdev_find_by_pdev p s1 = Some h" by (simp add: xdev_find_by_pdev_def l)
  then have c: "xpdev_create_interfaces E (xp\<lparr>xp_xdev := h\<rparr>) s1 = (rv, xp', s')"
    using assms(1) [unfolded probe_check_def r_def [symmetric] r1 f(3) Let_def prod.case sum.case] assms(2-4) by simp
  then show "\<exists>xp0 s0. xpdev_create_interfaces E xp0 s0 = (rv, xp', s')" by blast
  have n: "board_id xp' = board_id (xp\<lparr>xp_xdev := h\<rparr>)" "only_trace s1 s'"
    using create_interfaces_only [of "xp\<lparr>xp_xdev := h\<rparr>" s1 E] by (simp_all add: c nodes_only_def)
  show "board_id xp' = board_id (xp\<lparr>xp_xdev := h\<rparr>)" by (rule n(1))
  show "settled s s'" using f(1) by (simp add: settled_def only_traceD [OF n(2)])
  show "submit_check h' ch w s' = submit_check h' ch w s" by (simp add: only_traceD [OF n(2)] f(2))
qed

text \<open>A device opened for a function that has no other is found by its handle.\<close>

lemma opened_found:
  assumes "p \<noteq> 0" and "\<forall>d\<in>set l. fst d \<noteq> p" and "xdev_list s = l @ [(p, h, i)]"
  shows "debug_check_dev_hndl p h s = Inr ()"
proof -
  have "find (\<lambda>d. fst d = p) l = None" using assms(2) by (simp add: find_None_iff)
  then show ?thesis using assms(1,3) by (simp add: debug_check_dev_hndl_def xdev_find_by_pdev_def find_append_None)
qed

text \<open>What a probe that opened the device goes on with.\<close>

definition probed_board :: "nat \<Rightarrow> world \<Rightarrow> xdma_pci_dev" where
  "probed_board p s = xpdev_zero\<lparr>xp_magic := MAGIC_DEVICE, xp_pdev := p, xp_user_max := user_max (xdev s),
     xp_h2c_channel_max := h2c_channel_max (xdev s), xp_c2h_channel_max := c2h_channel_max (xdev s)\<rparr>"

lemma probe_cases:
  assumes "probe_one E cpus p hndl (m, s) = (rv, m', s')"
  obtains (memory) "\<not> kzalloc E (trace s)" "rv = Inl ENOMEM" "m' = m" "s' = s"
  | (unopened) s1 where "xdma_device_open E cpus p hndl MAX_USER_IRQ XDMA_CHANNEL_NUM_MAX XDMA_CHANNEL_NUM_MAX
        (emit (KAlloc 1) s) = (None, s1)" "rv = Inl EINVAL" "m' = m" "xdev_list s' = xdev_list s1"
  | (refused) h s1 xp s2 r where "xdma_device_open E cpus p hndl MAX_USER_IRQ XDMA_CHANNEL_NUM_MAX XDMA_CHANNEL_NUM_MAX
        (emit (KAlloc 1) s) = (Some h, s1)" "probe_check E p h (probed_board p s1) s1 = (Inl r, xp, s2)" "rv = Inl r"
      "xpdev_free E xp (m\<lparr>xpdev_cnt := xpdev_cnt m + 1\<rparr>, s2) = (m', s')"
  | (bound) h s1 xp where "xdma_device_open E cpus p hndl MAX_USER_IRQ XDMA_CHANNEL_NUM_MAX XDMA_CHANNEL_NUM_MAX
        (emit (KAlloc 1) s) = (Some h, s1)" "probe_check E p h (probed_board p s1) s1 = (Inr (), xp, s')" "rv = Inr ()"
      "m' = m\<lparr>xpdev_cnt := xpdev_cnt m + 1, drvdata := (drvdata m)(p := Some xp)\<rparr>"
proof -
  let ?xp = "xpdev_zero\<lparr>xp_magic := MAGIC_DEVICE, xp_pdev := p, xp_user_max := MAX_USER_IRQ,
     xp_h2c_channel_max := XDMA_CHANNEL_NUM_MAX, xp_c2h_channel_max := XDMA_CHANNEL_NUM_MAX\<rparr>"
  let ?m = "m\<lparr>xpdev_cnt := xpdev_cnt m + 1\<rparr>" and ?s = "emit (KAlloc 1) s"
  obtain ho s1 where o: "xdma_device_open E cpus p hndl MAX_USER_IRQ XDMA_CHANNEL_NUM_MAX XDMA_CHANNEL_NUM_MAX ?s = (ho, s1)"
    by fastforce
  have def: "probe_one E cpus p hndl (m, s) = (if \<not> kzalloc E (trace s) then (Inl ENOMEM, m, s)
     else case ho of None \<Rightarrow> (Inl EINVAL, xpdev_free E ?xp (?m, s1))
       | Some h \<Rightarrow> (case probe_check E p h (probed_board p s1) s1 of
            (Inl rv, xp, s) \<Rightarrow> (Inl rv, xpdev_free E xp (?m, s))
          | (Inr _, xp, s) \<Rightarrow> (Inr (), ?m\<lparr>drvdata := (drvdata ?m)(p := Some xp)\<rparr>, s)))"
    by (simp add: probe_one_def xpdev_alloc_def o probed_board_def del: One_nat_def split: option.split)
  show thesis
  proof (cases "kzalloc E (trace s)")
    case False
    with def assms memory show ?thesis by simp
  next
    case a: True
    show ?thesis
    proof (cases ho)
      case None
      have "xpdev_free E ?xp (?m, s1) = (m', s')" "rv = Inl EINVAL" using def assms a None by simp_all
      with free_effect [OF this(1)] unopened [of s1] o None show ?thesis by (simp add: xpdev_zero_def)
    next
      case (Some h)
      obtain r xp s2 where c: "probe_check E p h (probed_board p s1) s1 = (r, xp, s2)" by (metis prod_cases3)
      show ?thesis
        using def assms a Some c refused [OF o [unfolded Some]] bound [OF o [unfolded Some]]
        by (cases r) (auto simp del: One_nat_def)
    qed
  qed
qed

lemma opened_probe:
  assumes "xdma_device_open E cpus p hndl MAX_USER_IRQ XDMA_CHANNEL_NUM_MAX XDMA_CHANNEL_NUM_MAX (emit (KAlloc 1) s) = (Some h, s1)"
    and "\<forall>d\<in>set (xdev_list s). fst d \<noteq> p" and "hndl \<noteq> 0"
    and "probe_check E p h (probed_board p s1) s1 = (rv, xp, s2)"
  shows "\<exists>i. h = hndl \<and> p \<noteq> 0 \<and> xdev_list s2 = xdev_list s @ [(p, hndl, i)] \<and> self (xdev s2) = hndl
    \<and> debug_check_dev_hndl p hndl s2 = Inr () \<and> board_id xp = (probed_board p s1)\<lparr>xp_xdev := hndl\<rparr>
    \<and> settled s1 s2 \<and> (\<forall>ch w. submit_check hndl ch w s2 = submit_check hndl ch w s1)
    \<and> user_max (xdev s1) \<le> MAX_USER_IRQ \<and> h2c_channel_max (xdev s1) \<le> XDMA_CHANNEL_NUM_MAX
    \<and> c2h_channel_max (xdev s1) \<le> XDMA_CHANNEL_NUM_MAX
    \<and> (list_ok (xdev_list s) \<and> hndl \<notin> (fst \<circ> snd) ` set (xdev_list s) \<longrightarrow> list_ok (xdev_list s2))
    \<and> (\<exists>xp0 s0. xpdev_create_interfaces E xp0 s0 = (rv, xp, s2))"
proof -
  obtain i s0 where o: "p \<noteq> 0" "h = hndl" "xdev_list s0 = xdev_list s @ [(p, hndl, i)]" "self (xdev s0) = hndl"
    "pdev (xdev s0) = p" "settled s0 s1" and lim: "user_max (xdev s1) \<le> MAX_USER_IRQ"
    "h2c_channel_max (xdev s1) \<le> XDMA_CHANNEL_NUM_MAX" "c2h_channel_max (xdev s1) \<le> XDMA_CHANNEL_NUM_MAX"
    and ok: "list_ok (xdev_list s) \<and> hndl \<notin> (fst \<circ> snd) ` set (xdev_list s) \<longrightarrow> list_ok (xdev_list s0)"
  proof -
    have "user_max (xdev s1) \<le> MAX_USER_IRQ" if "user_max (xdev s1) = clamp_max MAX_USER_IRQ MAX_USER_IRQ"
      using that by (simp add: clamp_max_def)
    moreover have "xdev_list (emit (KAlloc 1) s) = xdev_list s" by simp
    ultimately show thesis using opened_registered [OF assms(1)] that by metis
  qed
  note st = settled_engines [OF o(6)]
  have l1: "xdev_list s1 = xdev_list s @ [(p, hndl, i)]" by (simp add: st o)
  have f1: "debug_check_dev_hndl p hndl s1 = Inr ()" by (rule opened_found [OF o(1) assms(2) l1])
  have x: "xp_user_max (probed_board p s1) \<le> MAX_USER_IRQ" "xp_h2c_channel_max (probed_board p s1) \<le> XDMA_CHANNEL_NUM_MAX"
    "xp_c2h_channel_max (probed_board p s1) \<le> XDMA_CHANNEL_NUM_MAX" using lim by (simp_all add: probed_board_def)
  have f1': "debug_check_dev_hndl p h s1 = Inr ()" "h \<noteq> 0" "pdev (xdev s1) = p"
    using f1 assms(3) by (simp_all add: o st)
  note c = probe_check_effect [OF assms(4) x f1']
  have s2: "settled s0 s2" by (rule settled_trans [OF o(6) c(2)])
  have f2: "debug_check_dev_hndl p hndl s2 = Inr ()"
    by (rule opened_found [OF o(1) assms(2)]) (simp add: settled_engines [OF s2] o)
  have "board_id xp = (probed_board p s1)\<lparr>xp_xdev := hndl\<rparr>"
    using c(1) by (simp add: o board_id_def probed_board_def xpdev_zero_def)
  then show ?thesis
    using o s2 c(2,3,4) f2 lim ok by (auto simp: settled_engines [OF s2])
qed

lemma probe_failure:
  assumes "probe_one E cpus p hndl (m, s) = (Inl rv, m', s')"
    and "\<forall>d\<in>set (xdev_list s). fst d \<noteq> p \<and> fst (snd d) \<noteq> hndl" and "hndl \<noteq> 0"
  shows "xdev_list s' = xdev_list s \<and> xpdev_cnt m' = xpdev_cnt m \<and> drvdata m' = drvdata m"
  using assms(1)
proof (cases rule: probe_cases)
  case (unopened s1)
  have "hndl \<notin> (fst \<circ> snd) ` set (xdev_list (emit (KAlloc 1) s))" using assms(2) by auto
  from xdma_device_open_rollback [OF this unopened(1)] unopened show ?thesis by simp
next
  case (refused h s1 xp s2 r)
  have "\<forall>d\<in>set (xdev_list s). fst d \<noteq> p" using assms(2) by blast
  from opened_probe [OF refused(1) this assms(3) refused(2)] obtain i where
    o: "xdev_list s2 = xdev_list s @ [(p, hndl, i)]" "self (xdev s2) = hndl" "debug_check_dev_hndl p hndl s2 = Inr ()"
    and b: "board_id xp = (probed_board p s1)\<lparr>xp_xdev := hndl\<rparr>" by blast
  have "xp_xdev xp = hndl" "xp_pdev xp = p"
    using board_id_eq(1,2) [of xp "(probed_board p s1)\<lparr>xp_xdev := hndl\<rparr>"] b
    by (simp_all add: board_id_def probed_board_def xpdev_zero_def)
  with free_effect [OF refused(4)] o assms(2,3) show ?thesis
    by (force simp: filter_id_conv)
qed simp_all

text \<open>C18: a probe that fails, for whatever reason and at whatever step, leaves the list of devices, the count of
  boards and the driver data of every function as they were.\<close>

theorem probe_one_failure:
  assumes "probe_one E cpus p hndl (m, s) = (Inl rv, m', s')"
    and "\<forall>d\<in>set (xdev_list s). fst d \<noteq> p \<and> fst (snd d) \<noteq> hndl" and "hndl \<noteq> 0"
  shows "xdev_list s' = xdev_list s \<and> xpdev_cnt m' = xpdev_cnt m \<and> drvdata m' = drvdata m"
  by (rule probe_failure [OF assms])

text \<open>A probe that succeeds.\<close>

lemma probe_success:
  assumes "probe_one E cpus p hndl (m, s) = (Inr (), m', s')"
    and "\<forall>d\<in>set (xdev_list s). fst d \<noteq> p" and "hndl \<noteq> 0"
  obtains xp i s1 where "m' = m\<lparr>xpdev_cnt := xpdev_cnt m + 1, drvdata := (drvdata m)(p := Some xp)\<rparr>"
    "board_id xp = (probed_board p s1)\<lparr>xp_xdev := hndl\<rparr>" "p \<noteq> 0"
    "xdev_list s' = xdev_list s @ [(p, hndl, i)]" "self (xdev s') = hndl" "debug_check_dev_hndl p hndl s' = Inr ()"
    "xdma_device_open E cpus p hndl MAX_USER_IRQ XDMA_CHANNEL_NUM_MAX XDMA_CHANNEL_NUM_MAX (emit (KAlloc 1) s) = (Some hndl, s1)"
    "settled s1 s'" "\<And>ch w. submit_check hndl ch w s' = submit_check hndl ch w s1"
    "user_max (xdev s1) \<le> MAX_USER_IRQ" "h2c_channel_max (xdev s1) \<le> XDMA_CHANNEL_NUM_MAX"
    "c2h_channel_max (xdev s1) \<le> XDMA_CHANNEL_NUM_MAX"
    "list_ok (xdev_list s) \<Longrightarrow> hndl \<notin> (fst \<circ> snd) ` set (xdev_list s) \<Longrightarrow> list_ok (xdev_list s')"
  using assms(1)
proof (cases rule: probe_cases)
  case (bound h s1 xp)
  note o = opened_probe [OF bound(1) assms(2,3) bound(2)]
  then obtain i where "xdev_list s' = xdev_list s @ [(p, hndl, i)]" by blast
  with o bound show ?thesis by (intro that) auto
qed simp_all

lemma bound_board:
  assumes "board_id xp = (probed_board p s1)\<lparr>xp_xdev := hndl\<rparr>"
  shows "xp_xdev xp = hndl" "xp_pdev xp = p" "xp_magic xp = MAGIC_DEVICE" "xp_user_max xp = user_max (xdev s1)"
    "xp_h2c_channel_max xp = h2c_channel_max (xdev s1)" "xp_c2h_channel_max xp = c2h_channel_max (xdev s1)"
  using board_id_eq [of xp "(probed_board p s1)\<lparr>xp_xdev := hndl\<rparr>"] assms
  by (simp_all add: board_id_def probed_board_def xpdev_zero_def)

text \<open>C17: a board whose probe succeeded is ready for use: the driver data of its function names its device, the
  count of boards has grown by one, and the device accepts transfers on every channel that was found, in the
  direction of the channel, and on no other.\<close>

theorem probe_one_ready:
  assumes "probe_one E cpus p hndl (m, s) = (Inr (), m', s')"
    and "\<forall>d\<in>set (xdev_list s). fst d \<noteq> p" and "hndl \<noteq> 0"
  shows "xpdev_cnt m' = xpdev_cnt m + 1
    \<and> (\<exists>xp. drvdata m' = (drvdata m)(p := Some xp) \<and> xp_xdev xp = hndl \<and> xp_pdev xp = p
         \<and> (\<forall>ch. submit_check (xp_xdev xp) ch True s' = (if ch < xp_h2c_channel_max xp then Inr (H2C ch) else Inl EINVAL))
         \<and> (\<forall>ch. submit_check (xp_xdev xp) ch False s' = (if ch < xp_c2h_channel_max xp then Inr (C2H ch) else Inl EINVAL)))"
proof -
  obtain xp i s1 where m: "m' = m\<lparr>xpdev_cnt := xpdev_cnt m + 1, drvdata := (drvdata m)(p := Some xp)\<rparr>"
    and b: "board_id xp = (probed_board p s1)\<lparr>xp_xdev := hndl\<rparr>"
    and o: "xdma_device_open E cpus p hndl MAX_USER_IRQ XDMA_CHANNEL_NUM_MAX XDMA_CHANNEL_NUM_MAX (emit (KAlloc 1) s) = (Some hndl, s1)"
    and c: "\<And>ch w. submit_check hndl ch w s' = submit_check hndl ch w s1"
    using probe_success [OF assms] by metis
  have "\<forall>d\<in>set (xdev_list (emit (KAlloc 1) s)). fst d \<noteq> p" using assms(2) by simp
  from xdma_device_open_ready [OF this assms(3) o]
  show ?thesis by (intro conjI exI [of _ xp]) (simp_all add: m bound_board [OF b] c)
qed

text \<open>The mask is one bit too wide: for \<open>n\<close> user interrupts it enables the lines \<open>0\<close> to \<open>n\<close>.\<close>

lemma probe_mask_bits:
  assumes "n < 31"
  shows "bit (probe_mask n) i \<longleftrightarrow> i \<le> n"
proof -
  have "probe_mask n = mask (n + 1)" by (simp add: probe_mask_def mask_eq_exp_minus_1 push_bit_eq_mult)
  then show ?thesis using assms by (auto simp: bit_mask_iff)
qed

section \<open>Every board has its device\<close>

text \<open>
  The life of the module: boards are probed and removed, and in between the driver and the kernel do
  anything that keeps the device list.  The kernel probes a function only while it is unbound, and a new device
  lies at an address of its own; the device a removal is about is the one of the board.
\<close>

inductive mod_reach :: "xdma_mod \<times> world \<Rightarrow> bool" where
  reach_init: "xpdev_cnt m = 0 \<Longrightarrow> (\<forall>p. drvdata m p = None) \<Longrightarrow> xdev_list s = [] \<Longrightarrow> mod_reach (m, s)"
| reach_probe: "mod_reach (m, s) \<Longrightarrow> drvdata m p = None \<Longrightarrow> hndl \<noteq> 0 \<Longrightarrow> hndl \<notin> (fst \<circ> snd) ` set (xdev_list s) \<Longrightarrow>
    mod_reach (snd (probe_one E cpus p hndl (m, s)))"
| reach_remove: "mod_reach (m, s) \<Longrightarrow> drvdata m p = Some xp \<Longrightarrow> self (xdev s) = xp_xdev xp \<Longrightarrow>
    mod_reach (remove_one E p (m, s))"
| reach_other: "mod_reach (m, s) \<Longrightarrow> xdev_list s' = xdev_list s \<Longrightarrow> mod_reach (m, s')"

inductive_cases mod_reachE: "mod_reach (m, s)"

text \<open>The device of a board is in the list under the function of the board; its limits are those of the hardware.\<close>

definition board_ok :: "nat \<Rightarrow> xdma_pci_dev \<Rightarrow> (nat \<times> nat \<times> int) list \<Rightarrow> bool" where
  "board_ok p xp l \<longleftrightarrow> p \<noteq> 0 \<and> xp_pdev xp = p \<and> xp_magic xp = MAGIC_DEVICE \<and> xp_xdev xp \<noteq> 0
     \<and> (\<exists>i. (p, xp_xdev xp, i) \<in> set l) \<and> xp_user_max xp \<le> MAX_USER_IRQ
     \<and> xp_h2c_channel_max xp \<le> XDMA_CHANNEL_NUM_MAX \<and> xp_c2h_channel_max xp \<le> XDMA_CHANNEL_NUM_MAX"

definition mod_ok :: "xdma_mod \<times> world \<Rightarrow> bool" where
  "mod_ok = (\<lambda>(m, s). list_ok (xdev_list s) \<and> distinct (map fst (xdev_list s)) \<and> xpdev_cnt m = int (length (xdev_list s))
     \<and> (\<forall>p. drvdata m p \<noteq> None \<longleftrightarrow> p \<in> fst ` set (xdev_list s))
     \<and> (\<forall>p xp. drvdata m p = Some xp \<longrightarrow> board_ok p xp (xdev_list s)))"

lemma board_ok_mono: "board_ok p xp l \<Longrightarrow> set l \<subseteq> set l' \<Longrightarrow> board_ok p xp l'"
  unfolding board_ok_def by blast

lemma unbound_unlisted: "mod_ok (m, s) \<Longrightarrow> drvdata m p = None \<Longrightarrow> \<forall>d\<in>set (xdev_list s). fst d \<noteq> p"
  by (force simp: mod_ok_def)

lemma mod_ok_probe:
  assumes "mod_ok (m, s)" and "drvdata m p = None" and "hndl \<noteq> 0" and "hndl \<notin> (fst \<circ> snd) ` set (xdev_list s)"
  shows "mod_ok (snd (probe_one E cpus p hndl (m, s)))"
proof -
  note un = unbound_unlisted [OF assms(1,2)]
  obtain rv m' s' where pr: "probe_one E cpus p hndl (m, s) = (rv, m', s')" by (metis prod_cases3)
  show ?thesis
  proof (cases rv)
    case (Inl r)
    have "\<forall>d\<in>set (xdev_list s). fst d \<noteq> p \<and> fst (snd d) \<noteq> hndl" using un assms(4) by force
    from probe_failure [OF pr [unfolded Inl] this assms(3)] assms(1) show ?thesis by (simp add: pr mod_ok_def)
  next
    case (Inr u)
    then have ok: "probe_one E cpus p hndl (m, s) = (Inr (), m', s')" using pr by simp
    have lk: "list_ok (xdev_list s)" using assms(1) by (simp add: mod_ok_def)
    obtain xp i s1 where r: "m' = m\<lparr>xpdev_cnt := xpdev_cnt m + 1, drvdata := (drvdata m)(p := Some xp)\<rparr>"
      "board_id xp = (probed_board p s1)\<lparr>xp_xdev := hndl\<rparr>" "p \<noteq> 0" "xdev_list s' = xdev_list s @ [(p, hndl, i)]"
      "user_max (xdev s1) \<le> MAX_USER_IRQ" "h2c_channel_max (xdev s1) \<le> XDMA_CHANNEL_NUM_MAX"
      "c2h_channel_max (xdev s1) \<le> XDMA_CHANNEL_NUM_MAX" "list_ok (xdev_list s')"
      using probe_success [OF ok un assms(3)] lk assms(4) by metis
    have b: "board_ok p xp (xdev_list s')"
      using r assms(3) by (auto simp: board_ok_def bound_board [OF r(2)])
    have "board_ok q x (xdev_list s')" if "drvdata m q = Some x" for q x
      using assms(1) that board_ok_mono [of q x "xdev_list s" "xdev_list s'"] by (auto simp: mod_ok_def r(4))
    with b r assms(1) un show ?thesis by (force simp: pr mod_ok_def)
  qed
qed

lemma mod_ok_remove:
  assumes "mod_ok (m, s)" and "drvdata m p = Some xp" and "self (xdev s) = xp_xdev xp"
  shows "mod_ok (remove_one E p (m, s))"
    and "remove_one E p (m, s) = (m', s') \<Longrightarrow> xdev_list s = l1 @ (p, xp_xdev xp, i) # l2 \<Longrightarrow> xdev_list s' = l1 @ l2"
    and "remove_one E p (m, s) = (m', s') \<Longrightarrow> xpdev_cnt m' = xpdev_cnt m - 1 \<and> drvdata m' = (drvdata m)(p := None)"
proof -
  have b: "board_ok p xp (xdev_list s)" using assms(1,2) by (simp add: mod_ok_def)
  obtain m2 s2 where f: "xpdev_free E xp (m, s) = (m2, s2)" by fastforce
  have r: "remove_one E p (m, s) = (m2\<lparr>drvdata := (drvdata m)(p := None)\<rparr>, s2)"
    using b free_effect(2) [OF f] by (simp add: remove_one_def assms(2) f board_ok_def)
  have l: "xdev_list s2 = l1 @ l2" if e: "xdev_list s = l1 @ (p, xp_xdev xp, i) # l2" for l1 l2 i
  proof -
    have d: "p \<notin> fst ` set l1" "xp_xdev xp \<notin> (fst \<circ> snd) ` set (l1 @ l2)"
      using assms(1) by (auto simp: mod_ok_def list_ok_def e)
    then have "find (\<lambda>d. fst d = p) l1 = None" by (force simp: find_None_iff)
    then have "debug_check_dev_hndl p (xp_xdev xp) s = Inr ()"
      using b by (simp add: debug_check_dev_hndl_def xdev_find_by_pdev_def e find_append_None board_ok_def)
    then have "xdev_list s2 = filter (\<lambda>d. fst (snd d) \<noteq> xp_xdev xp) (xdev_list s)"
      using free_effect(3) [OF f] b assms(3) by (simp add: board_ok_def)
    moreover have "filter (\<lambda>d. fst (snd d) \<noteq> xp_xdev xp) l1 = l1" "filter (\<lambda>d. fst (snd d) \<noteq> xp_xdev xp) l2 = l2"
      using d(2) by (force simp: filter_id_conv)+
    ultimately show ?thesis by (simp add: e)
  qed
  obtain i where "(p, xp_xdev xp, i) \<in> set (xdev_list s)" using b by (auto simp: board_ok_def)
  then obtain l1 l2 where e: "xdev_list s = l1 @ (p, xp_xdev xp, i) # l2" by (meson split_list)
  have o: "board_ok q x (l1 @ l2)" if "drvdata m q = Some x" "q \<noteq> p" for q x
  proof -
    have "board_ok q x (xdev_list s)" using assms(1) that(1) by (simp add: mod_ok_def)
    with that(2) show ?thesis unfolding board_ok_def e by auto
  qed
  show "mod_ok (remove_one E p (m, s))"
    using assms(1) o free_effect(1) [OF f] unfolding r
    by (auto simp: mod_ok_def l [OF e] e list_ok_def sorted_wrt_append)
  show "remove_one E p (m, s) = (m', s') \<Longrightarrow> xdev_list s = l1 @ (p, xp_xdev xp, i) # l2 \<Longrightarrow> xdev_list s' = l1 @ l2" for l1 l2 i
    using r l by simp
  show "remove_one E p (m, s) = (m', s') \<Longrightarrow> xpdev_cnt m' = xpdev_cnt m - 1 \<and> drvdata m' = (drvdata m)(p := None)"
    using r free_effect(1) [OF f] by auto
qed

text \<open>C4: in every state the module can reach, the devices in the list have increasing indices and addresses and
  functions of their own, every bound function has exactly one of them, which its driver data names, within
  the limits of the hardware, and the count of boards is their number.\<close>

theorem mod_reach_ok: "mod_reach ms \<Longrightarrow> mod_ok ms"
proof (induction rule: mod_reach.induct)
  case (reach_init m s)
  then show ?case by (simp add: mod_ok_def list_ok_def)
next
  case (reach_other m s s')
  then show ?case by (simp add: mod_ok_def)
qed (simp_all add: mod_ok_probe mod_ok_remove(1))

text \<open>C19: removing a board right after it was probed puts everything back: the list of devices, the count of
  boards and the driver data are as they were before the probe.\<close>

theorem probe_remove_roundtrip:
  assumes "mod_ok (m, s)" and "drvdata m p = None" and "hndl \<noteq> 0" and "hndl \<notin> (fst \<circ> snd) ` set (xdev_list s)"
    and "probe_one E cpus p hndl (m, s) = (Inr (), m1, s1)" and "remove_one E p (m1, s1) = (m2, s2)"
  shows "m2 = m \<and> xdev_list s2 = xdev_list s"
proof -
  obtain xp i t where r: "m1 = m\<lparr>xpdev_cnt := xpdev_cnt m + 1, drvdata := (drvdata m)(p := Some xp)\<rparr>"
    "board_id xp = (probed_board p t)\<lparr>xp_xdev := hndl\<rparr>" "xdev_list s1 = xdev_list s @ [(p, hndl, i)]"
    "self (xdev s1) = hndl"
    using probe_success [OF assms(5) unbound_unlisted [OF assms(1,2)] assms(3)] by metis
  have b: "drvdata m1 p = Some xp" "self (xdev s1) = xp_xdev xp" by (simp_all add: r bound_board [OF r(2)])
  have ok: "mod_ok (m1, s1)" using mod_ok_probe [OF assms(1-4), of E cpus] by (simp add: assms(5))
  have "xdev_list s2 = xdev_list s"
    using mod_ok_remove(2) [OF ok b assms(6), of "xdev_list s" i "[]"] r(3) by (simp add: bound_board [OF r(2)])
  moreover have "m2 = m"
    using mod_ok_remove(3) [OF ok b assms(6)] assms(2) by (cases m; cases m2) (simp add: r(1) fun_upd_idem)
  ultimately show ?thesis by simp
qed

section \<open>Recovery from an error\<close>

text \<open>C16: a frozen channel and the reset of the slot.  After the error the driver asks for a reset and refuses
  every submission; after a reset in which the function could be enabled again it reports recovery, and
  every engine found is open again, idle, with the transfers queued before; if the function could not be
  enabled it asks to be disconnected and stays closed.\<close>

theorem frozen_slot_reset:
  assumes "drvdata m p = Some xp" and "xp_xdev xp \<noteq> 0" and "debug_check_dev_hndl p (xp_xdev xp) s = Inr ()"
    and "xdma_error_detected E p Pci_channel_io_frozen m s = Some (r1, s1)"
    and "xdma_slot_reset E p m s1 = Some (r2, s2)"
  shows "r1 = Pci_ers_need_reset \<and> (\<forall>h ch w. \<exists>rv. submit_check h ch w s1 = Inl rv)
    \<and> (if kernel E (trace s1) ''pci_enable_device_mem'' [int p] = 0
        then r2 = Pci_ers_recovered
          \<and> (\<forall>e \<in> set (h2c_engines s @ c2h_engines s). emagic (get_eng s e) = MAGIC_ENGINE \<longrightarrow>
               queue_open s2 e \<and> \<not> running (get_eng s2 e) \<and> transfer_list (get_eng s2 e) = transfer_list (get_eng s e))
        else r2 = Pci_ers_disconnect \<and> (\<forall>h ch w. \<exists>rv. submit_check h ch w s2 = Inl rv))"
proof -
  let ?off = "xdma_device_offline E p (xp_xdev xp) s" and ?rv = "kernel E (trace s1) ''pci_enable_device_mem'' [int p]"
  have d: "r1 = Pci_ers_need_reset" "s1 = emit (Kernel ''pci_disable_device'' [int p] 0) ?off"
    using assms(1,4) by (simp_all add: xdma_error_detected_def)
  have f: "\<exists>rv. submit_check h ch w t = Inl rv" if "xdev t = xdev s1" for h ch w t
    by (rule offline_refuses)
       (use offline_flag [OF assms(2,3), of E] that in \<open>simp add: d(2) xdma_device_flag_check_def\<close>)
  have c1: "\<forall>h ch w. \<exists>rv. submit_check h ch w s1 = Inl rv" using f by blast
  show ?thesis
  proof (cases "?rv = 0")
    case True
    define t where "t = fold emit [Kernel ''pci_enable_device_mem'' [int p] 0, Kernel ''pci_set_master'' [int p] 0,
      Kernel ''pci_restore_state'' [int p] 0, Kernel ''pci_save_state'' [int p] 0] s1"
    have t: "xdev t = xdev ?off" "xdev_list t = xdev_list ?off" by (simp_all add: t_def d(2))
    have r: "r2 = Pci_ers_recovered" "s2 = xdma_device_online E p (xp_xdev xp) t"
      using assms(1,5) True by (simp_all add: xdma_slot_reset_def kcall_def Let_def t_def)
    show ?thesis
      using offline_online_reopens [OF assms(2,3) _ _ t] c1 True by (simp add: d(1) r)
  next
    case False
    then have "r2 = Pci_ers_disconnect" "xdev s2 = xdev s1"
      using assms(5) by (auto simp: xdma_slot_reset_def kcall_def Let_def)
    then show ?thesis using c1 f False by (simp add: d(1))
  qed
qed

section \<open>Examples\<close>

definition mod0 :: xdma_mod where
  "mod0 = \<lparr>xpdev_cnt = 0, drvdata = (\<lambda>_. None)\<rparr>"

text \<open>A kernel that grants every node.\<close>

lemma grants_node:
  assumes "type \<in> {CHAR_XDMA_H2C, CHAR_XDMA_C2H, CHAR_BYPASS_H2C, CHAR_BYPASS_C2H} \<longrightarrow> eo \<noteq> None"
  shows "fst (create_xcdev open_env r b eo type st) = Inr ()"
proof -
  obtain xp s where st: "st = (xp, s)" by fastforce
  obtain xp1 s1 where a: "alloc_region open_env xp s = (Inr (), xp1, s1)"
    by (cases "xp_major xp = 0") (auto simp: alloc_region_def kcall_def Let_def)
  obtain s2 where c: "config_kobject open_env ((xp_cdevs xp1 r)\<lparr>cd_magic := MAGIC_CHAR, cd_xdev := (xp_xdev xp1 \<noteq> 0),
      cd_engine := eo, cd_bar := b\<rparr>) type s1 = (Inr (), s2)"
    using assms by (auto simp: config_kobject_def kcall_def Let_def)
  show ?thesis
    unfolding create_xcdev_def st prod.case a sum.case Let_def c
    by (simp add: kcall_def create_sys_device_def Let_def)
qed

lemma grants_each:
  assumes "\<forall>(r, b, eo, type) \<in> set l. type \<in> {CHAR_XDMA_H2C, CHAR_XDMA_C2H, CHAR_BYPASS_H2C, CHAR_BYPASS_C2H} \<longrightarrow> eo \<noteq> None"
  shows "fst (create_each open_env l st) = Inr ()"
  using assms
proof (induction open_env l st rule: create_each.induct)
  case (2 r b eo type l st)
  then show ?case using grants_node [of type eo r b st] by (auto split: sum.split prod.split)
qed simp

lemma grants_interfaces: "fst (xpdev_create_interfaces open_env xp s) = Inr ()"
proof -
  have c: "fst (create_stages open_env gs st) = Inr ()"
    if "\<forall>g \<in> set gs. \<forall>(r, b, eo, type) \<in> set (fst g).
      type \<in> {CHAR_XDMA_H2C, CHAR_XDMA_C2H, CHAR_BYPASS_H2C, CHAR_BYPASS_C2H} \<longrightarrow> eo \<noteq> None" for gs st
    using that
  proof (induction open_env gs st rule: create_stages.induct)
    case (2 l b gs st)
    then show ?case using grants_each [of l st] by (auto split: sum.split prod.split)
  qed simp
  have "fst (create_stages open_env (cdev_groups xp s) (xp, s)) = Inr ()"
    by (rule c) (auto simp: cdev_groups_def h2c_specs_def c2h_specs_def)
  then show ?thesis by (auto simp: xpdev_create_interfaces_def split: sum.split prod.split)
qed

lemma mod0_ok: "mod_reach (mod0, world0)" "mod_ok (mod0, world0)"
  by (auto intro: reach_init simp: mod0_def world0_def mod_ok_def list_ok_def)

text \<open>On it the probe of the only board succeeds.\<close>

lemma open_env_probe:
  obtains m' s' where "probe_one open_env [] 5 7 (mod0, world0) = (Inr (), m', s')"
proof -
  let ?w = "emit (KAlloc 1) world0"
  have w: "xdev_list ?w = []" by (simp add: world0_list)
  obtain s1 where o: "xdma_device_open open_env [] 5 7 MAX_USER_IRQ XDMA_CHANNEL_NUM_MAX XDMA_CHANNEL_NUM_MAX ?w = (Some 7, s1)"
    using open_env_opens [OF w] by (metis prod.collapse)
  obtain rv m' s' where p: "probe_one open_env [] 5 7 (mod0, world0) = (rv, m', s')" by (metis prod_cases3)
  have "rv = Inr ()"
    using p
  proof (cases rule: probe_cases)
    case (refused h s2 xp s3 r)
    from opened_probe [OF refused(1) _ _ refused(2)]
    obtain xp0 s0 where "xpdev_create_interfaces open_env xp0 s0 = (Inl r, xp, s3)" by (auto simp: world0_list)
    with grants_interfaces [of xp0 s0] show ?thesis by simp
  qed (use o in simp_all)
  with p that show thesis by blast
qed

theorem probe_one_failure_witness:
  "xdev_list (snd (snd (probe_one env0 [] 5 7 (mod0, world0\<lparr>xdev_list := [(9, 9, 4)]\<rparr>)))) = [(9, 9, 4)]"
proof -
  let ?s = "world0\<lparr>xdev_list := [(9, 9, 4)]\<rparr>"
  have c: "config_bar_idx (xdev s) = - 1 \<Longrightarrow> fst (map_bars env0 s) = Inl EINVAL" for s
    by (simp add: map_bars_def XDMA_BAR_NUM_def upt_rec map_single_bar_def bar_length_def Let_def env0_def)
  have "fst (xdma_device_open env0 [] 5 7 MAX_USER_IRQ XDMA_CHANNEL_NUM_MAX XDMA_CHANNEL_NUM_MAX (emit (KAlloc 1) ?s)) = None"
    using c by (simp add: xdma_device_open_def alloc_dev_instance_def Let_def xdev_list_add_def world0_def env0_def
        xdma_device_flag_set_def dev_zero_def open_pci_def request_regions_def case_res_Inl
        pci_check_intr_pend_def pci_enable_capability_def split_beta)
  then have "fst (probe_one env0 [] 5 7 (mod0, ?s)) = Inl EINVAL"
    by (simp add: probe_one_def xpdev_alloc_def xpdev_zero_def split_beta split: option.split)
       (simp add: env0_def)
  then have "probe_one env0 [] 5 7 (mod0, ?s) = (Inl EINVAL, fst (snd (probe_one env0 [] 5 7 (mod0, ?s))),
      snd (snd (probe_one env0 [] 5 7 (mod0, ?s))))"
    by (simp add: prod_eq_iff)
  from probe_one_failure [OF this] show ?thesis by simp
qed

theorem probe_one_ready_witness:
  "\<exists>m' s'. probe_one open_env [] 5 7 (mod0, world0) = (Inr (), m', s') \<and> xpdev_cnt m' = 1"
proof -
  obtain m' s' where p: "probe_one open_env [] 5 7 (mod0, world0) = (Inr (), m', s')" by (rule open_env_probe)
  from probe_one_ready [OF p] p show ?thesis by (auto simp: world0_list) (simp add: mod0_def)
qed

theorem mod_reach_ok_witness: "mod_ok (snd (probe_one open_env [] 5 7 (mod0, world0)))"
  by (rule mod_reach_ok) (rule reach_probe [OF mod0_ok(1)], simp_all add: mod0_def world0_list)

theorem probe_remove_roundtrip_witness:
  "\<exists>m1 s1. probe_one open_env [] 5 7 (mod0, world0) = (Inr (), m1, s1) \<and> fst (remove_one open_env 5 (m1, s1)) = mod0"
proof -
  obtain m1 s1 where p: "probe_one open_env [] 5 7 (mod0, world0) = (Inr (), m1, s1)" by (rule open_env_probe)
  from probe_remove_roundtrip [OF mod0_ok(2) _ _ _ p prod.collapse [symmetric]] p
  show ?thesis by (auto simp: world0_list mod0_def)
qed

definition bound_mod :: xdma_mod where
  "bound_mod = mod0\<lparr>drvdata := (\<lambda>_. None)(1 := Some (xpdev_zero\<lparr>xp_pdev := 1, xp_xdev := 1\<rparr>))\<rparr>"

theorem frozen_slot_reset_witness:
  "\<exists>s1 s2. xdma_error_detected env0 1 Pci_channel_io_frozen bound_mod idle_world = Some (Pci_ers_need_reset, s1)
     \<and> xdma_slot_reset env0 1 bound_mod s1 = Some (Pci_ers_recovered, s2) \<and> queue_open s2 (H2C 0)"
proof -
  let ?xp = "xpdev_zero\<lparr>xp_pdev := 1, xp_xdev := 1\<rparr>"
  have b: "drvdata bound_mod 1 = Some ?xp" "xp_xdev ?xp \<noteq> 0" "debug_check_dev_hndl 1 (xp_xdev ?xp) idle_world = Inr ()"
    by (simp_all add: bound_mod_def debug_check_dev_hndl_def xdev_find_by_pdev_def idle_world_def)
  obtain r1 s1 where 1: "xdma_error_detected env0 1 Pci_channel_io_frozen bound_mod idle_world = Some (r1, s1)"
    using b(1) by (simp add: xdma_error_detected_def)
  obtain r2 s2 where 2: "xdma_slot_reset env0 1 bound_mod s1 = Some (r2, s2)"
    using b(1) by (simp add: xdma_slot_reset_def kcall_def Let_def env0_def)
  have e: "H2C 0 \<in> set (h2c_engines idle_world @ c2h_engines idle_world)" "emagic (get_eng idle_world (H2C 0)) = MAGIC_ENGINE"
    "kernel env0 (trace s1) ''pci_enable_device_mem'' [int 1] = 0"
    by (simp_all add: idle_world_def h2c_engines_def xdev0_def env0_def)
  from frozen_slot_reset [OF b 1 2] e 1 2 show ?thesis by auto
qed

end
