(* ===== verification/Matrix_Ref.thy ===== *)
theory Matrix_Ref
  imports Prelude
begin

text \<open>
  The arithmetic of the matrix programs (\<open>Final/compare2.c\<close>, \<open>Final/matrix_top2.c\<close>): matrix multiplication in
  software, which the accelerator is compared with, the flattening of a matrix, and the conversion of the
  bytes read from the device.  A two-dimensional array is a list of rows; the loops write one element at a
  time, as in C.
\<close>

section \<open>Arrays written in a loop\<close>

lemma length_fold_upd: "length (fold (\<lambda>x r. r[g x := f x r]) xs r) = length r"
  by (induction xs arbitrary: r) simp_all

lemma fold_upd_other: "\<forall>x \<in> set xs. g x \<noteq> i \<Longrightarrow> fold (\<lambda>x r. r[g x := f x]) xs r ! i = r ! i"
  by (induction xs arbitrary: r) simp_all

lemma fold_upd_nth:
  "inj_on g (set xs) \<Longrightarrow> distinct xs \<Longrightarrow> x \<in> set xs \<Longrightarrow> g x < length r \<Longrightarrow> fold (\<lambda>x r. r[g x := f x]) xs r ! g x = f x"
proof (induction xs arbitrary: r)
  case (Cons y ys)
  show ?case
  proof (cases "x = y")
    case True
    have "g z \<noteq> g x" if "z \<in> set ys" for z using Cons.prems that True by (auto simp: inj_on_def)
    then show ?thesis using Cons.prems(4) True by (simp add: fold_upd_other)
  next
    case False
    then show ?thesis using Cons by (simp add: inj_on_def)
  qed
qed simp

text \<open>A loop over the positions of an array, and a loop within a loop.\<close>

lemma fold_upd_map: "length r = n \<Longrightarrow> fold (\<lambda>i r. r[i := f i]) [0..<n] r = map f [0..<n]"
  by (rule nth_equalityI) (simp_all add: length_fold_upd fold_upd_nth [where g = "\<lambda>x. x"])

lemma fold_nested:
  "fold (\<lambda>i r. fold (\<lambda>j r. r[g i j := f i j]) ys r) xs r = fold (\<lambda>p r. r[case_prod g p := case_prod f p]) (List.product xs ys) r"
proof -
  have "fold (\<lambda>j r. r[g i j := f i j]) ys r = fold (\<lambda>p r. r[case_prod g p := case_prod f p]) (map (Pair i) ys) r" for i r
    by (simp add: fold_map comp_def)
  then show ?thesis by (induction xs arbitrary: r) simp_all
qed

lemma nested_nth:
  assumes "inj_on (case_prod g) ({..<m} \<times> {..<n})" and "i < m" and "j < n" and "g i j < length r"
  shows "fold (\<lambda>i r. fold (\<lambda>j r. r[g i j := f i j]) [0..<n] r) [0..<m] r ! g i j = f i j"
proof -
  have s: "set (List.product [0..<m] [0..<n]) = {..<m} \<times> {..<n}" by (auto simp: atLeast0LessThan)
  show ?thesis unfolding fold_nested
    using fold_upd_nth [of "case_prod g" "List.product [0..<m] [0..<n]" "(i, j)" r "case_prod f"] assms
    by (simp add: s distinct_product del: set_product)
qed

lemma length_nested: "length (fold (\<lambda>i r. fold (\<lambda>j r. r[g i j := f i j]) ys r) xs r) = length r"
  unfolding fold_nested by (rule length_fold_upd)

section \<open>The operations\<close>

definition MATRIX_SIZE :: nat where "MATRIX_SIZE = 64"

definition flatten_matrix_row_major :: "u8 list list \<Rightarrow> u8 list \<Rightarrow> u8 list" where
  "flatten_matrix_row_major matrix flattened =
     fold (\<lambda>i fl. fold (\<lambda>j fl. fl[i * MATRIX_SIZE + j := matrix ! i ! j]) [0..<MATRIX_SIZE] fl) [0..<MATRIX_SIZE] flattened"

definition flatten_matrix_col_major :: "u8 list list \<Rightarrow> u8 list \<Rightarrow> u8 list" where
  "flatten_matrix_col_major matrix flattened =
     fold (\<lambda>j fl. fold (\<lambda>i fl. fl[j * MATRIX_SIZE + i := matrix ! i ! j]) [0..<MATRIX_SIZE] fl) [0..<MATRIX_SIZE] flattened"

text \<open>The operands are promoted to \<open>int\<close>; the shift and the disjunction are done in 32 bits.\<close>

definition convert_to_int16_array :: "u8 list \<Rightarrow> u16 list \<Rightarrow> u16 list" where
  "convert_to_int16_array input output =
     fold (\<lambda>i output. let index = i * 2 in
         output[i := ucast (push_bit 8 (word_of_int (sint (input ! (index + 1))) :: u32)
                            OR (word_of_int (sint (input ! index)) AND 0xFF))])
       [0..<MATRIX_SIZE * MATRIX_SIZE] output"

text \<open>
  One element of a two-dimensional array.  The compound assignment adds in \<open>int\<close> and stores 16 bits of the sum.
\<close>

definition upd2 :: "nat \<Rightarrow> nat \<Rightarrow> ('a \<Rightarrow> 'a) \<Rightarrow> 'a list list \<Rightarrow> 'a list list" where
  "upd2 i j f C = C[i := (C ! i)[j := f (C ! i ! j)]]"

definition matrix_multiply :: "u8 list list \<Rightarrow> u8 list list \<Rightarrow> u16 list list \<Rightarrow> u16 list list" where
  "matrix_multiply A B C =
     fold (\<lambda>i C. fold (\<lambda>j C.
         fold (\<lambda>k C. upd2 i j (\<lambda>c. word_of_int (sint c + sint (A ! i ! k) * sint (B ! k ! j))) C)
           [0..<MATRIX_SIZE] (upd2 i j (\<lambda>_. 0) C))
       [0..<MATRIX_SIZE] C) [0..<MATRIX_SIZE] C"

text \<open>
  \<open>main\<close> of \<open>compare2.c\<close>; the arrays start with what was on the stack.  Printing and the clock are left out.
\<close>

definition compare2_main :: "u8 list list \<Rightarrow> u8 list list \<Rightarrow> u16 list list \<Rightarrow> u16 list list" where
  "compare2_main A0 B0 C0 =
     (let (A, B) = fold (\<lambda>i AB. fold (\<lambda>j (A, B).
              (upd2 i j (\<lambda>_. word_of_int (int (i div 2) - 32)) A, upd2 i j (\<lambda>_. word_of_int (int (i div 2) - 32)) B))
            [0..<MATRIX_SIZE] AB) [0..<MATRIX_SIZE] (A0, B0)
      in matrix_multiply A B C0)"

text \<open>A square array of the program, and the product of two matrices in the integers.\<close>

definition square :: "'a list list \<Rightarrow> bool" where
  "square M \<longleftrightarrow> length M = MATRIX_SIZE \<and> (\<forall>r \<in> set M. length r = MATRIX_SIZE)"

definition exact_product :: "u8 list list \<Rightarrow> u8 list list \<Rightarrow> nat \<Rightarrow> nat \<Rightarrow> int" where
  "exact_product A B i j = (\<Sum>k < MATRIX_SIZE. sint (A ! i ! k) * sint (B ! k ! j))"

section \<open>Flattening\<close>

lemma flat_index: "inj_on (\<lambda>(i, j). i * 64 + j) ({..<64} \<times> {..<64 :: nat})"
proof (rule inj_onI)
  fix p q :: "nat \<times> nat"
  assume "p \<in> {..<64} \<times> {..<64}" and "q \<in> {..<64} \<times> {..<64}" and "(case p of (i, j) \<Rightarrow> i * 64 + j) = (case q of (i, j) \<Rightarrow> i * 64 + j)"
  then have a: "snd p < 64" "snd q < 64" and e: "fst p * 64 + snd p = fst q * 64 + snd q" by auto
  from arg_cong [OF e, of "\<lambda>x. x div 64"] a have "fst p = fst q" by simp
  then show "p = q" using e by (simp add: prod_eq_iff)
qed

lemma flat_bound: "i < 64 \<Longrightarrow> j < 64 \<Longrightarrow> i * 64 + j < (4096 :: nat)"
  by linarith

lemma flat_split: "n < 4096 \<Longrightarrow> n = n div 64 * 64 + n mod 64 \<and> n div 64 < 64 \<and> n mod 64 < (64 :: nat)"
  by (simp add: less_mult_imp_div_less)

lemma flatten_row_nth:
  assumes "length fl = 4096" and "i < 64" and "j < 64"
  shows "flatten_matrix_row_major m fl ! (i * 64 + j) = m ! i ! j"
  using nested_nth [of "\<lambda>i j. i * 64 + j" 64 64 i j fl "\<lambda>i j. m ! i ! j"] flat_index assms flat_bound
  by (simp add: flatten_matrix_row_major_def MATRIX_SIZE_def)

lemma flatten_col_nth:
  assumes "length fl = 4096" and "i < 64" and "j < 64"
  shows "flatten_matrix_col_major m fl ! (j * 64 + i) = m ! i ! j"
  using nested_nth [of "\<lambda>j i. j * 64 + i" 64 64 j i fl "\<lambda>j i. m ! i ! j"] flat_index assms flat_bound
  by (simp add: flatten_matrix_col_major_def MATRIX_SIZE_def)

lemma length_flatten:
  "length (flatten_matrix_row_major m fl) = length fl" "length (flatten_matrix_col_major m fl) = length fl"
  by (simp_all add: flatten_matrix_row_major_def flatten_matrix_col_major_def length_nested)

text \<open>The array in row order is the concatenation of the rows, the one in column order that of the transpose.\<close>

lemma concat_rows_nth:
  "\<forall>r \<in> set m. length r = 64 \<Longrightarrow> i < length m \<Longrightarrow> j < 64 \<Longrightarrow> concat m ! (i * 64 + j) = m ! i ! j"
proof (induction m arbitrary: i)
  case (Cons r m)
  then show ?case by (cases i) (simp_all add: nth_append)
qed simp

lemma flatten_row_concat:
  assumes "square m" and "length fl = 4096"
  shows "flatten_matrix_row_major m fl = concat m"
proof -
  have rows: "\<forall>r \<in> set m. length r = 64" "length m = 64" using assms(1) by (simp_all add: square_def MATRIX_SIZE_def)
  have "length (concat m) = 64 * length m" using rows(1) by (induction m) simp_all
  then have l: "length (concat m) = 4096" using rows(2) by simp
  have n: "concat m ! (i * 64 + j) = m ! i ! j" if "i < 64" "j < 64" for i j
    using concat_rows_nth [OF rows(1)] rows(2) that by simp
  show ?thesis
  proof (rule nth_equalityI)
    fix x assume "x < length (flatten_matrix_row_major m fl)"
    then have "x < 4096" by (simp add: length_flatten assms(2))
    from flat_split [OF this] show "flatten_matrix_row_major m fl ! x = concat m ! x"
      using flatten_row_nth [OF assms(2)] n by metis
  qed (simp add: length_flatten assms(2) l)
qed

section \<open>Conversion\<close>

text \<open>The bytes of a 16-bit value in the order the device stores them, the low one first.\<close>

definition le16 :: "u16 \<Rightarrow> u8 list" where
  "le16 w = [ucast w, ucast (drop_bit 8 w)]"

lemma le16_join: "ucast (push_bit 8 (word_of_int (sint (ucast (drop_bit 8 w) :: u8)) :: u32) OR
    (word_of_int (sint (ucast w :: u8)) AND 0xFF)) = (w :: u16)"
proof (rule bit_word_eqI)
  fix n assume n: "n < LENGTH(16)"
  have m: "(0xFF :: u32) = mask 8" by (rule mask8_num)
  show "bit (ucast (push_bit 8 (word_of_int (sint (ucast (drop_bit 8 w) :: u8)) :: u32) OR
      (word_of_int (sint (ucast w :: u8)) AND 0xFF)) :: u16) n = bit w n"
  proof (cases "n < 8")
    case True
    then have "n < 7 \<or> n = 7" by linarith
    then show ?thesis using True by (auto simp: m bit_simps)
  next
    case False
    then obtain k where k: "n = 8 + k" using le_Suc_ex not_less by blast
    then have "k < 7 \<or> k = 7" using n by simp linarith
    then show ?thesis using k by (auto simp: m bit_simps)
  qed
qed

lemma concat_le16: "i < length ws \<Longrightarrow>
    concat (map le16 ws) ! (i * 2) = ucast (ws ! i) \<and> concat (map le16 ws) ! Suc (i * 2) = ucast (drop_bit 8 (ws ! i))"
proof (induction ws arbitrary: i)
  case (Cons w ws)
  then show ?case by (cases i) (simp_all add: le16_def)
qed simp

text \<open>The conversion is the inverse of storing the values low byte first.\<close>

lemma convert_le16:
  assumes "length ws = 4096" and "length out = 4096"
  shows "convert_to_int16_array (concat (map le16 ws)) out = ws"
proof -
  let ?f = "\<lambda>i. ucast (push_bit 8 (word_of_int (sint (concat (map le16 ws) ! (i * 2 + 1))) :: u32)
                            OR (word_of_int (sint (concat (map le16 ws) ! (i * 2))) AND 0xFF)) :: u16"
  have "convert_to_int16_array (concat (map le16 ws)) out = map ?f [0..<4096]"
    using fold_upd_map [of out 4096 ?f] assms(2)
    by (simp add: convert_to_int16_array_def MATRIX_SIZE_def Let_def)
  also have "\<dots> = ws"
    by (rule nth_equalityI) (simp_all add: assms(1) concat_le16 le16_join [simplified])
  finally show ?thesis .
qed

section \<open>Multiplication\<close>

lemma upd2_upd2: "i < length C \<Longrightarrow> j < length (C ! i) \<Longrightarrow> upd2 i j f (upd2 i j g C) = upd2 i j (f \<circ> g) C"
  by (simp add: upd2_def)

lemma upd2_shape: "length (upd2 i j f C) = length C" "length (upd2 i j f C ! i') = length (C ! i')"
  by (simp_all add: upd2_def) (metis length_list_update list_update_beyond not_le nth_list_update_eq nth_list_update_neq)

text \<open>The inner loop computes the sum modulo \<open>2^16\<close>.\<close>

lemma dot_loop: "fold (\<lambda>k c. word_of_int (sint c + t k)) [0..<n] (0 :: u16) = word_of_int (\<Sum>k < n. t k)"
  by (induction n) (simp_all add: scast_id)

lemma cell_loop:
  assumes "i < length C" and "j < length (C ! i)"
  shows "fold (\<lambda>k C. upd2 i j (\<lambda>c. word_of_int (sint c + t k)) C) ks (upd2 i j (\<lambda>_. c) C) =
    upd2 i j (\<lambda>_. fold (\<lambda>k c. word_of_int (sint c + t k)) ks c) C"
proof (induction ks arbitrary: c)
  case (Cons k ks)
  then show ?case by (simp add: upd2_upd2 assms comp_def)
qed simp

text \<open>A loop that gives every element of a two-dimensional array its value.\<close>

lemma row_loop:
  assumes "i < length C" and "length (C ! i) = n" and "m \<le> n"
  shows "fold (\<lambda>j C. upd2 i j (\<lambda>_. v j) C) [0..<m] C = C[i := map v [0..<m] @ drop m (C ! i)]"
  using assms(3)
proof (induction m)
  case (Suc m)
  have "(map v [0..<m] @ drop m (C ! i))[m := v m] = map v [0..<Suc m] @ drop (Suc m) (C ! i)"
    using Suc.prems assms(2) by (simp add: list_update_append Cons_nth_drop_Suc [symmetric])
  then show ?case using Suc assms(1) by (simp add: upd2_def)
qed simp

lemma rows_loop:
  assumes "length C = n" and "m \<le> n"
  shows "fold (\<lambda>i C. C[i := w i]) [0..<m] C = map w [0..<m] @ drop m C"
  using assms(2)
proof (induction m)
  case (Suc m)
  have "(map w [0..<m] @ drop m C)[m := w m] = map w [0..<Suc m] @ drop (Suc m) C"
    using Suc.prems assms(1) by (simp add: list_update_append Cons_nth_drop_Suc [symmetric])
  then show ?case using Suc by simp
qed simp

lemma fold_cong_inv:
  assumes "\<And>x r. x \<in> set xs \<Longrightarrow> P r \<Longrightarrow> f x r = g x r \<and> P (f x r)" and "P r"
  shows "fold f xs r = fold g xs r \<and> P (fold f xs r)"
  using assms
proof (induction xs arbitrary: r)
  case (Cons x xs)
  have s: "f x r = g x r \<and> P (f x r)" by (rule Cons.prems(1) [OF _ Cons.prems(2)]) simp
  have "fold f xs (f x r) = fold g xs (f x r) \<and> P (fold f xs (f x r))"
    by (rule Cons.IH [OF _ conjunct2 [OF s]]) (rule Cons.prems(1), simp_all)
  then show ?case using s by (metis fold_simps(2))
qed simp

definition shaped :: "nat \<Rightarrow> nat \<Rightarrow> 'a list list \<Rightarrow> bool" where
  "shaped m n M \<longleftrightarrow> length M = m \<and> (\<forall>i < m. length (M ! i) = n)"

lemma square_shaped: "square M \<longleftrightarrow> shaped 64 64 M"
  by (auto simp: square_def shaped_def MATRIX_SIZE_def all_set_conv_all_nth)

lemma shaped_upd2: "shaped m n (upd2 i j f M) \<longleftrightarrow> shaped m n M"
  by (simp add: shaped_def upd2_shape)

text \<open>The two outer loops, for a body that sets one element to a value of its own.\<close>

lemma table_loop:
  assumes "\<And>i j C. i < m \<Longrightarrow> j < n \<Longrightarrow> shaped m n C \<Longrightarrow> body i j C = upd2 i j (\<lambda>_. v i j) C" and "shaped m n C"
  shows "fold (\<lambda>i C. fold (body i) [0..<n] C) [0..<m] C = map (\<lambda>i. map (v i) [0..<n]) [0..<m]"
proof -
  have row: "fold (body i) [0..<n] C = C[i := map (v i) [0..<n]] \<and> shaped m n (fold (body i) [0..<n] C)"
    if i: "i < m" and C: "shaped m n C" for i C
  proof -
    have "fold (body i) [0..<n] C = fold (\<lambda>j C. upd2 i j (\<lambda>_. v i j) C) [0..<n] C \<and> shaped m n (fold (body i) [0..<n] C)"
      by (rule fold_cong_inv [where P = "shaped m n"]) (simp_all add: assms(1) i C shaped_upd2)
    then show ?thesis using row_loop [of i C n n "v i"] i C by (auto simp: shaped_def)
  qed
  have "fold (\<lambda>i C. fold (body i) [0..<n] C) [0..<m] C = fold (\<lambda>i C. C[i := map (v i) [0..<n]]) [0..<m] C
      \<and> shaped m n (fold (\<lambda>i C. fold (body i) [0..<n] C) [0..<m] C)"
    by (rule fold_cong_inv [where P = "shaped m n"]) (rule row, use assms(2) in simp_all)
  then show ?thesis using rows_loop [of C m m] assms(2) by (simp add: shaped_def)
qed

lemma matrix_multiply_table:
  assumes "square C"
  shows "matrix_multiply A B C = map (\<lambda>i. map (\<lambda>j. word_of_int (exact_product A B i j)) [0..<64]) [0..<64]"
  unfolding matrix_multiply_def MATRIX_SIZE_def
proof (rule table_loop)
  fix i j :: nat and C :: "u16 list list"
  assume "i < 64" "j < 64" "shaped 64 64 C"
  then show "fold (\<lambda>k C. upd2 i j (\<lambda>c. word_of_int (sint c + sint (A ! i ! k) * sint (B ! k ! j))) C) [0..<64]
      (upd2 i j (\<lambda>_. 0) C) = upd2 i j (\<lambda>_. word_of_int (exact_product A B i j)) C"
    by (subst cell_loop) (simp_all only: shaped_def dot_loop exact_product_def MATRIX_SIZE_def)
qed (use assms in \<open>simp add: square_shaped\<close>)

text \<open>C11: the software multiplication is the matrix product.  Whatever the result array held before, every
  element is the exact product of the row and the column, reduced to 16 bits: none is off by an
  initialisation, an index or a sign.\<close>

theorem matrix_multiply_spec:
  assumes "square C" and "i < MATRIX_SIZE" and "j < MATRIX_SIZE"
  shows "matrix_multiply A B C ! i ! j = word_of_int (exact_product A B i j) \<and> square (matrix_multiply A B C)"
  using assms by (simp_all add: matrix_multiply_table [OF assms(1)] square_shaped shaped_def MATRIX_SIZE_def del: upt_conv_Cons)

text \<open>The example matrices of \<open>compare2.c\<close>: row \<open>i\<close> consists of the value \<open>i / 2 - 32\<close>.\<close>

definition half_matrix :: "u8 list list" where
  "half_matrix = map (\<lambda>i. map (\<lambda>_. word_of_int (int (i div 2) - 32)) [0..<64]) [0..<64]"

lemma fold_pair: "fold (\<lambda>x (a, b). (f x a, g x b)) xs (a, b) = (fold f xs a, fold g xs b)"
  by (induction xs arbitrary: a b) simp_all

lemma half_matrix_loop:
  assumes "square M"
  shows "fold (\<lambda>i M. fold (\<lambda>j. upd2 i j (\<lambda>_. word_of_int (int (i div 2) - 32))) [0..<64] M) [0..<64] M = half_matrix"
  unfolding half_matrix_def by (rule table_loop) (use assms in \<open>simp_all add: square_shaped\<close>)

lemma compare2_product:
  assumes "square A0" and "square B0"
  shows "compare2_main A0 B0 C0 = matrix_multiply half_matrix half_matrix C0"
proof -
  let ?f = "\<lambda>i j M. upd2 i j (\<lambda>_. word_of_int (int (i div 2) - 32) :: u8) M"
  have "fold (\<lambda>i AB. fold (\<lambda>j (A, B). (?f i j A, ?f i j B)) [0..<64] AB) [0..<64] (A0, B0)
      = fold (\<lambda>i (A, B). (fold (?f i) [0..<64] A, fold (?f i) [0..<64] B)) [0..<64] (A0, B0)"
    by (intro arg_cong2 [where f = "\<lambda>f. fold f [0..<64]"] ext refl) (auto simp: fold_pair split: prod.splits)
  also have "\<dots> = (half_matrix, half_matrix)"
    using half_matrix_loop [OF assms(1)] half_matrix_loop [OF assms(2)] by (simp add: fold_pair del: upt_conv_Cons)
  finally show ?thesis by (simp add: compare2_main_def MATRIX_SIZE_def)
qed

lemma sint_small:
  "- 128 \<le> x \<Longrightarrow> x < 128 \<Longrightarrow> sint (word_of_int x :: u8) = x"
  "- 32768 \<le> y \<Longrightarrow> y < 32768 \<Longrightarrow> sint (word_of_int y :: u16) = y"
  unfolding sint_sbintrunc' by (rule signed_take_bit_int_eq_self; simp)+

lemma half_matrix_nth:
  assumes "i < 64" and "k < 64"
  shows "sint (half_matrix ! i ! k) = int (i div 2) - 32"
proof -
  have "half_matrix ! i ! k = word_of_int (int (i div 2) - 32)"
    using assms by (simp add: half_matrix_def del: upt_conv_Cons)
  moreover have "i div 2 < 32" using assms(1) by linarith
  ultimately show ?thesis by (simp only: sint_small(1))
qed

lemma half_matrix_product:
  assumes "i < 64" and "j < 64"
  shows "exact_product half_matrix half_matrix i j = -1056 * (int (i div 2) - 32)"
proof -
  have "exact_product half_matrix half_matrix i j = (\<Sum>k < 64. (int (i div 2) - 32) * (int (k div 2) - 32))"
    unfolding exact_product_def MATRIX_SIZE_def by (rule sum.cong) (simp_all add: half_matrix_nth assms)
  also have "\<dots> = (int (i div 2) - 32) * (\<Sum>k < 64. int (k div 2) - 32)" by (simp add: sum_distrib_left)
  also have "(\<Sum>k < 64. int (k div 2) - 32) = -1056" by code_simp
  finally show ?thesis by simp
qed

text \<open>C38: the comparison program overflows.  For its example matrices the exact product of the first two rows
  with any column is 33792, which a 16-bit element cannot hold: the program prints -31744 there; every
  other element is exact.\<close>

theorem compare2_overflows:
  assumes "square A0" and "square B0" and "square C0" and "i < 64" and "j < 64"
  shows "(i < 2 \<longrightarrow> exact_product half_matrix half_matrix i j = 33792)
    \<and> sint (compare2_main A0 B0 C0 ! i ! j) = (if i < 2 then -31744 else exact_product half_matrix half_matrix i j)"
proof -
  have e: "compare2_main A0 B0 C0 ! i ! j = word_of_int (-1056 * (int (i div 2) - 32))"
    using assms(3-5)
    by (simp only: compare2_product [OF assms(1,2)] matrix_multiply_table half_matrix_product nth_map length_upt nth_upt)
      (simp add: half_matrix_product)
  show ?thesis
  proof (cases "i < 2")
    case True
    then have z: "int (i div 2) = 0" by simp
    have "sint (word_of_int 33792 :: u16) = -31744" by code_simp
    then show ?thesis using True unfolding e half_matrix_product [OF assms(4,5)] z by simp
  next
    case False
    then have b: "1 \<le> int (i div 2)" "int (i div 2) < 32" using assms(4) by linarith+
    have "sint (word_of_int (-1056 * (int (i div 2) - 32)) :: u16) = -1056 * (int (i div 2) - 32)"
      using b by (intro sint_small(2)) auto
    then show ?thesis using False by (simp only: e half_matrix_product [OF assms(4,5)]) simp
  qed
qed

text \<open>Arrays of zeroes.\<close>

definition zeroes :: "'a::zero list list" where
  "zeroes = replicate 64 (replicate 64 0)"

lemma square_zeroes: "square zeroes"
  by (simp add: square_def zeroes_def MATRIX_SIZE_def)

theorem compare2_overflows_witness:
  "sint (compare2_main zeroes zeroes zeroes ! 1 ! 5) = -31744 \<and> sint (compare2_main zeroes zeroes zeroes ! 2 ! 5) = 32736"
  using compare2_overflows [OF square_zeroes square_zeroes square_zeroes, of 1 5]
    compare2_overflows [OF square_zeroes square_zeroes square_zeroes, of 2 5]
  by (simp add: half_matrix_product)

text \<open>A product of two matrices computed by the theorem: the last row of one with every column.\<close>

theorem matrix_multiply_spec_witness:
  "matrix_multiply half_matrix half_matrix zeroes ! 63 ! 0 = 1056"
  using matrix_multiply_spec [OF square_zeroes, of 63 0 half_matrix half_matrix]
  by (simp add: MATRIX_SIZE_def half_matrix_product)

end
