(* ===== verification/Matrix_App.thy ===== *)
theory Matrix_App
  imports Matrix_Ref
begin

text \<open>
  The program that multiplies two matrices on the accelerator (\<open>Final/matrix_top2.c\<close>,
  \<open>Final/xdma_rw_matrix.c\<close>) and the memory tests (\<open>debugging\<close>).  The system calls on the
  device nodes are parameters; what the programs rely on is stated as laws of a view of the system.
\<close>

section \<open>System calls\<close>

text \<open>
  The calls on open files, over a state \<open>'d\<close> of kernel and board.  Results that the program compares with a
  \<open>uint64_t\<close> are 64-bit words (an error is all ones).  \<open>s_map\<close> is \<open>mmap\<close> of a length at an offset of a file,
  \<open>s_load\<close> reads bytes of the mapped file at an offset.
\<close>

record 'd sys =
  s_open :: "string \<Rightarrow> 'd \<Rightarrow> int \<times> 'd"
  s_close :: "int \<Rightarrow> 'd \<Rightarrow> 'd"
  s_lseek :: "int \<Rightarrow> u64 \<Rightarrow> 'd \<Rightarrow> u64 \<times> 'd"
  s_write :: "int \<Rightarrow> u8 list \<Rightarrow> 'd \<Rightarrow> u64 \<times> 'd"
  s_read :: "int \<Rightarrow> u64 \<Rightarrow> 'd \<Rightarrow> u64 \<times> u8 list \<times> 'd"
  s_map :: "int \<Rightarrow> u64 \<Rightarrow> u64 \<Rightarrow> 'd \<Rightarrow> bool \<times> 'd"
  s_load :: "int \<Rightarrow> u64 \<Rightarrow> u64 \<Rightarrow> 'd \<Rightarrow> u8 list \<times> 'd"
  s_unmap :: "u64 \<Rightarrow> 'd \<Rightarrow> bool \<times> 'd"
  s_usleep :: "nat \<Rightarrow> 'd \<Rightarrow> 'd"

section \<open>The operations\<close>

definition dev_read :: "'d sys \<Rightarrow> int \<Rightarrow> u64 \<Rightarrow> u8 list \<Rightarrow> u64 \<Rightarrow> 'd \<Rightarrow> int \<times> u8 list \<times> 'd" where
  "dev_read S dev_fd addr buffer sz d =
     (let (off, d) = s_lseek S dev_fd addr d in
      if addr \<noteq> off then (-1, buffer, d)
      else let (n, bs, d) = s_read S dev_fd sz d; buffer = bs @ drop (length bs) buffer in
           if sz \<noteq> n then (-1, buffer, d) else (0, buffer, d))"

definition dev_write :: "'d sys \<Rightarrow> int \<Rightarrow> u64 \<Rightarrow> u8 list \<Rightarrow> u64 \<Rightarrow> 'd \<Rightarrow> int \<times> 'd" where
  "dev_write S dev_fd addr buffer sz d =
     (let (off, d) = s_lseek S dev_fd addr d in
      if addr \<noteq> off then (-1, d)
      else let (n, d) = s_write S dev_fd (take (unat sz) buffer) d in
           if sz \<noteq> n then (-1, d) else (0, d))"

definition write_to_fpga :: "'d sys \<Rightarrow> string \<Rightarrow> u64 \<Rightarrow> u8 list \<Rightarrow> 'd \<Rightarrow> int \<times> 'd" where
  "write_to_fpga S dev_name address matrix d =
     (let (dev_fd, d) = s_open S dev_name d in
      if dev_fd < 0 then (-1, d)
      else let (rv, d) = dev_write S dev_fd address matrix (of_nat (MATRIX_SIZE * MATRIX_SIZE)) d in
           if rv \<noteq> 0 then (-1, s_close S dev_fd d) else (0, s_close S dev_fd d))"

text \<open>
  The number of bytes is \<open>2 * MATRIX_SIZE * MATRIX_SIZE\<close> in \<open>xdma_rw_matrix.c\<close> and half of that in
  \<open>test_bram0.c\<close>, whose text is the same otherwise.
\<close>

definition read_from_fpga :: "'d sys \<Rightarrow> u64 \<Rightarrow> string \<Rightarrow> u64 \<Rightarrow> u8 list \<Rightarrow> 'd \<Rightarrow> int \<times> u8 list \<times> 'd" where
  "read_from_fpga S sz dev_name address buffer d =
     (let (dev_fd, d) = s_open S dev_name d in
      if dev_fd < 0 then (-1, buffer, d)
      else let (rv, buffer, d) = dev_read S dev_fd address buffer sz d in
           if rv \<noteq> 0 then (-1, buffer, s_close S dev_fd d) else (0, buffer, s_close S dev_fd d))"

text \<open>The page size that \<open>sysconf\<close> reports.\<close>

definition PGSZ :: u64 where "PGSZ = 4096"

definition FLAG_ADDR :: u64 where "FLAG_ADDR = 0x00002000"
definition START_ADDR :: u64 where "START_ADDR = 0x00001000"

definition dev_read_mapped :: "'d sys \<Rightarrow> int \<Rightarrow> u64 \<Rightarrow> u8 list \<Rightarrow> u64 \<Rightarrow> 'd \<Rightarrow> int \<times> u8 list \<times> 'd" where
  "dev_read_mapped S dev_fd addr buffer sz d =
     (let offset = addr AND (PGSZ - 1);
          target_aligned = addr AND NOT (PGSZ - 1);
          (ok, d) = s_map S dev_fd (offset + sz) target_aligned d in
      if \<not> ok then (-1, buffer, d)
      else let (bs, d) = s_load S dev_fd (target_aligned + offset) sz d;
               buffer = bs @ drop (length bs) buffer;
               (ok, d) = s_unmap S (offset + sz) d
           in if \<not> ok then (-1, buffer, d) else (0, buffer, d))"

text \<open>The waiting loop of \<open>main\<close>; it has no way out but a flag that is set.\<close>

partial_function (option) flag_loop :: "'d sys \<Rightarrow> int \<Rightarrow> u8 \<Rightarrow> 'd \<Rightarrow> 'd option" where
  "flag_loop S dev_fd flag d =
     (if flag \<noteq> 0 then Some d
      else let (rv, buf, d) = dev_read_mapped S dev_fd FLAG_ADDR [flag] 1 d
           in flag_loop S dev_fd (hd buf) (s_usleep S 10 d))"

definition H2C_NODE :: string where "H2C_NODE = ''/dev/xdma0_h2c_0''"
definition C2H_NODE :: string where "C2H_NODE = ''/dev/xdma0_c2h_0''"
definition USER_NODE :: string where "USER_NODE = ''/dev/xdma0_user''"

text \<open>The example data: element \<open>i\<close> of both arrays is \<open>i / 64 - 32\<close>.\<close>

definition example_flat :: "u8 list" where
  "example_flat = map (\<lambda>i. word_of_int (sint (word_of_int (int (i div 64)) :: u8) - 32)) [0..<MATRIX_SIZE * MATRIX_SIZE]"

text \<open>
  \<open>main\<close>, in three parts: sending the operands, starting and waiting, fetching the result.  The arrays
  \<open>result\<close> and \<open>final_result\<close> start with what was on the stack.  The result is the exit code and, where it
  gets that far, the array that is printed.
\<close>

definition send_operands :: "'d sys \<Rightarrow> 'd \<Rightarrow> int \<times> 'd" where
  "send_operands S d =
     (let (dev_fd, d) = s_open S H2C_NODE d in
      if dev_fd < 0 then (-1, d)
      else let (rv, d) = write_to_fpga S H2C_NODE 0x00000000 example_flat d in
           if rv \<noteq> 0 then (-1, s_close S dev_fd d)
           else let (rv, d) = write_to_fpga S H2C_NODE 0x00002000 example_flat d in
                if rv \<noteq> 0 then (-1, s_close S dev_fd d)
                else (0, s_close S dev_fd d))"

definition compute_and_wait :: "'d sys \<Rightarrow> 'd \<Rightarrow> (int \<times> 'd) option" where
  "compute_and_wait S d =
     (let (dev_fd, d) = s_open S USER_NODE d in
      if dev_fd < 0 then Some (-1, s_close S dev_fd d)
      else let (rv, buf, d) = dev_read_mapped S dev_fd START_ADDR [0] 1 d in
           do {
             d \<leftarrow> flag_loop S dev_fd 0 d;
             Some (0, s_close S dev_fd d)
           })"

definition fetch_result :: "'d sys \<Rightarrow> u8 list \<Rightarrow> u16 list \<Rightarrow> 'd \<Rightarrow> int \<times> u16 list option \<times> 'd" where
  "fetch_result S result final_result d =
     (let (dev_fd, d) = s_open S C2H_NODE d in
      if dev_fd < 0 then (-1, None, s_close S dev_fd d)
      else let (rv, result, d) = read_from_fpga S (of_nat (2 * MATRIX_SIZE * MATRIX_SIZE)) C2H_NODE 0x00006000 result d in
           if rv \<noteq> 0 then (-1, None, s_close S dev_fd d)
           else (0, Some (convert_to_int16_array result final_result), s_close S dev_fd d))"

definition matrix_top_main :: "'d sys \<Rightarrow> u8 list \<Rightarrow> u16 list \<Rightarrow> 'd \<Rightarrow> (int \<times> u16 list option \<times> 'd) option" where
  "matrix_top_main S result final_result d =
     (case send_operands S d of
        (rv, d) \<Rightarrow>
          if rv \<noteq> 0 then Some (rv, None, d)
          else do {
            (rv, d) \<leftarrow> compute_and_wait S d;
            if rv \<noteq> 0 then Some (rv, None, d) else Some (fetch_result S result final_result d)
          })"

text \<open>
  What the \<open>main\<close> functions of the memory tests have in common, with the address and the data as arguments.
\<close>

definition test_bram_main :: "'d sys \<Rightarrow> u64 \<Rightarrow> u8 list \<Rightarrow> u8 list \<Rightarrow> 'd \<Rightarrow> int \<times> u8 list option \<times> 'd" where
  "test_bram_main S address write_buffer read_buffer d =
     (let (rv, d) = write_to_fpga S H2C_NODE address write_buffer d;
          (rv, read_buffer, d) = read_from_fpga S (of_nat (MATRIX_SIZE * MATRIX_SIZE)) C2H_NODE address read_buffer d
      in (0, if rv \<noteq> 0 then None else Some read_buffer, d))"

text \<open>The four programs: what they write where, and the one that only reads the result of the accelerator.\<close>

definition test_bram0 :: "'d sys \<Rightarrow> u8 list \<Rightarrow> 'd \<Rightarrow> int \<times> u8 list option \<times> 'd" where
  "test_bram0 S = test_bram_main S 0x00000000 (map (\<lambda>i. 1) [0..<MATRIX_SIZE * MATRIX_SIZE])"

definition test_bram1 :: "'d sys \<Rightarrow> u8 list \<Rightarrow> 'd \<Rightarrow> int \<times> u8 list option \<times> 'd" where
  "test_bram1 S = test_bram_main S 0x00002000 (map (\<lambda>i. word_of_int (int (i div 64))) [0..<MATRIX_SIZE * MATRIX_SIZE])"

definition test_bram2 :: "'d sys \<Rightarrow> u8 list \<Rightarrow> 'd \<Rightarrow> int \<times> u8 list option \<times> 'd" where
  "test_bram2 S = test_bram_main S 0x00006000 (map (\<lambda>i. word_of_int (int (i div 64))) [0..<MATRIX_SIZE * MATRIX_SIZE])"

definition test_bram2_readonly :: "'d sys \<Rightarrow> u8 list \<Rightarrow> u16 list \<Rightarrow> 'd \<Rightarrow> int \<times> u16 list option \<times> 'd" where
  "test_bram2_readonly S read_buffer final d =
     (let (rv, read_buffer, d) = read_from_fpga S (of_nat (2 * MATRIX_SIZE * MATRIX_SIZE)) C2H_NODE 0x00006000 read_buffer d
      in (0, if rv \<noteq> 0 then None else Some (convert_to_int16_array read_buffer final), d))"

section \<open>What the programs rely on\<close>

text \<open>
  A view of the system: the open files with their nodes and positions, the memory of the board as the DMA
  nodes reach it, and the accelerator: \<open>None\<close> before it is started, then the number of naps until it is done.
\<close>

record 'd view =
  v_file :: "'d \<Rightarrow> int \<Rightarrow> (string \<times> u64) option"
  v_mem :: "'d \<Rightarrow> nat \<Rightarrow> u8"
  v_left :: "'d \<Rightarrow> nat option"

definition same_board :: "'d view \<Rightarrow> 'd \<Rightarrow> 'd \<Rightarrow> bool" where
  "same_board V d d' \<longleftrightarrow> v_mem V d' = v_mem V d \<and> v_left V d' = v_left V d"

definition same_view :: "'d view \<Rightarrow> 'd \<Rightarrow> 'd \<Rightarrow> bool" where
  "same_view V d d' \<longleftrightarrow> same_board V d d' \<and> v_file V d' = v_file V d"

text \<open>
  The nodes of a memory-mapped DMA channel: they can be opened, seek to every address, and transfer a
  request of moderate size whole, a write as long as the accelerator has not been started; where the position
  is afterwards is left open.
\<close>

definition memory_nodes :: "'d sys \<Rightarrow> 'd view \<Rightarrow> bool" where
  "memory_nodes S V \<longleftrightarrow>
     (\<forall>name d fd d'. name \<in> {H2C_NODE, C2H_NODE, USER_NODE} \<longrightarrow> s_open S name d = (fd, d') \<longrightarrow>
        0 \<le> fd \<and> same_board V d d' \<and> v_file V d' = (v_file V d)(fd \<mapsto> (name, 0)))
     \<and> (\<forall>fd d. same_board V d (s_close S fd d) \<and> v_file V (s_close S fd d) = (v_file V d)(fd := None))
     \<and> (\<forall>fd a d n p r d'. v_file V d fd = Some (n, p) \<longrightarrow> s_lseek S fd a d = (r, d') \<longrightarrow>
        r = a \<and> same_board V d d' \<and> v_file V d' = (v_file V d)(fd \<mapsto> (n, a)))
     \<and> (\<forall>fd bs d p r d'. v_file V d fd = Some (H2C_NODE, p) \<longrightarrow> v_left V d = None \<longrightarrow> length bs \<le> 8192 \<longrightarrow> s_write S fd bs d = (r, d') \<longrightarrow>
        r = of_nat (length bs) \<and> v_left V d' = v_left V d \<and> v_mem V d' = put_bytes (unat p) bs (v_mem V d))
     \<and> (\<forall>fd sz d p r bs d'. v_file V d fd = Some (C2H_NODE, p) \<longrightarrow> sz \<le> 8192 \<longrightarrow> s_read S fd sz d = (r, bs, d') \<longrightarrow>
        r = sz \<and> same_board V d d' \<and> bs = map (v_mem V d) [unat p..<unat p + unat sz])"

text \<open>The product of two matrices in the memory, row by row, element \<open>(i, j)\<close> at \<open>0x6000 + 2 * (64 * i + j)\<close>.\<close>

definition memory_product :: "(nat \<Rightarrow> u8) \<Rightarrow> nat \<Rightarrow> nat \<Rightarrow> u16" where
  "memory_product m i j = word_of_int (\<Sum>k < 64. sint (m (64 * i + k)) * sint (m (0x2000 + 64 * k + j)))"

text \<open>
  The accelerator behind the user node.  Its registers can be mapped; reading the start register starts it;
  it works while the program naps and leaves the operands alone; the flag reads zero until it is done, and
  then the product is in the memory, low byte first.
\<close>

definition accelerator :: "'d sys \<Rightarrow> 'd view \<Rightarrow> bool" where
  "accelerator S V \<longleftrightarrow>
     (\<forall>fd len a d p ok d'. v_file V d fd = Some (USER_NODE, p) \<longrightarrow> s_map S fd len a d = (ok, d') \<longrightarrow> ok \<and> same_view V d d')
     \<and> (\<forall>len d ok d'. s_unmap S len d = (ok, d') \<longrightarrow> ok \<and> same_view V d d')
     \<and> (\<forall>fd d p bs d'. v_file V d fd = Some (USER_NODE, p) \<longrightarrow> v_left V d = None \<longrightarrow> s_load S fd START_ADDR 1 d = (bs, d') \<longrightarrow>
        v_left V d' \<noteq> None \<and> v_file V d' = v_file V d \<and> (\<forall>a < 0x6000. v_mem V d' a = v_mem V d a))
     \<and> (\<forall>fd d p bs d'. v_file V d fd = Some (USER_NODE, p) \<longrightarrow> s_load S fd FLAG_ADDR 1 d = (bs, d') \<longrightarrow>
        bs = [if v_left V d = Some 0 then 2 else 0] \<and> same_view V d d')
     \<and> (\<forall>us d. v_file V (s_usleep S us d) = v_file V d \<and> (\<forall>a < 0x6000. v_mem V (s_usleep S us d) a = v_mem V d a)
        \<and> v_left V (s_usleep S us d) = map_option (\<lambda>n. n - 1) (v_left V d))
     \<and> (\<forall>d i j. v_left V d = Some 0 \<longrightarrow> i < 64 \<longrightarrow> j < 64 \<longrightarrow>
        [v_mem V d (0x6000 + 2 * (64 * i + j)), v_mem V d (0x6001 + 2 * (64 * i + j))] = le16 (memory_product (v_mem V d) i j))"

section \<open>Transfers\<close>

lemma nodes_open:
  assumes "memory_nodes S V" and "s_open S name d = (fd, d')" and "name \<in> {H2C_NODE, C2H_NODE, USER_NODE}"
  shows "0 \<le> fd" "same_board V d d'" "v_file V d' fd = Some (name, 0)"
proof -
  from assms(1) have "name \<in> {H2C_NODE, C2H_NODE, USER_NODE} \<longrightarrow> s_open S name d = (fd, d') \<longrightarrow>
      0 \<le> fd \<and> same_board V d d' \<and> v_file V d' = (v_file V d)(fd \<mapsto> (name, 0))"
    unfolding memory_nodes_def by (elim conjE allE)
  then have "0 \<le> fd \<and> same_board V d d' \<and> v_file V d' = (v_file V d)(fd \<mapsto> (name, 0))" using assms(2,3) by blast
  then show "0 \<le> fd" "same_board V d d'" "v_file V d' fd = Some (name, 0)" by simp_all
qed

lemma nodes_close: "memory_nodes S V \<Longrightarrow> same_board V d (s_close S fd d)"
  by (simp add: memory_nodes_def)

lemma nodes_lseek:
  assumes "memory_nodes S V" and "s_lseek S fd a d = (r, d')" and "v_file V d fd = Some (n, p)"
  shows "r = a" "same_board V d d'" "v_file V d' fd = Some (n, a)"
proof -
  from assms(1) have "v_file V d fd = Some (n, p) \<longrightarrow> s_lseek S fd a d = (r, d') \<longrightarrow>
      r = a \<and> same_board V d d' \<and> v_file V d' = (v_file V d)(fd \<mapsto> (n, a))"
    unfolding memory_nodes_def by (elim conjE allE)
  then show "r = a" "same_board V d d'" "v_file V d' fd = Some (n, a)" using assms(2,3) by simp_all
qed

lemma nodes_write:
  assumes "memory_nodes S V" and "s_write S fd bs d = (r, d')" and "v_file V d fd = Some (H2C_NODE, p)" and "v_left V d = None"
    and "length bs \<le> 8192"
  shows "r = of_nat (length bs) \<and> v_left V d' = v_left V d \<and> v_mem V d' = put_bytes (unat p) bs (v_mem V d)"
proof -
  from assms(1) have "v_file V d fd = Some (H2C_NODE, p) \<longrightarrow> v_left V d = None \<longrightarrow> length bs \<le> 8192 \<longrightarrow> s_write S fd bs d = (r, d') \<longrightarrow>
      r = of_nat (length bs) \<and> v_left V d' = v_left V d \<and> v_mem V d' = put_bytes (unat p) bs (v_mem V d)"
    unfolding memory_nodes_def by (elim conjE allE)
  then show ?thesis using assms(2-5) by blast
qed

lemma nodes_read:
  assumes "memory_nodes S V" and "s_read S fd sz d = (r, bs, d')" and "v_file V d fd = Some (C2H_NODE, p)" and "sz \<le> 8192"
  shows "r = sz \<and> same_board V d d' \<and> bs = map (v_mem V d) [unat p..<unat p + unat sz]"
proof -
  from assms(1) have "v_file V d fd = Some (C2H_NODE, p) \<longrightarrow> sz \<le> 8192 \<longrightarrow> s_read S fd sz d = (r, bs, d') \<longrightarrow>
      r = sz \<and> same_board V d d' \<and> bs = map (v_mem V d) [unat p..<unat p + unat sz]"
    unfolding memory_nodes_def by (elim conjE allE)
  then show ?thesis using assms(2-4) by blast
qed

lemma write_to_fpga_effect:
  assumes "memory_nodes S V" and "length matrix = 4096" and "v_left V d = None" and "write_to_fpga S H2C_NODE a matrix d = (rv, d')"
  shows "rv = 0 \<and> v_left V d' = v_left V d \<and> v_mem V d' = put_bytes (unat a) matrix (v_mem V d)"
proof -
  obtain fd d1 where o: "s_open S H2C_NODE d = (fd, d1)" by fastforce
  obtain r d2 where l: "s_lseek S fd a d1 = (r, d2)" by fastforce
  obtain n d3 where w: "s_write S fd matrix d2 = (n, d3)" by fastforce
  note 1 = nodes_open [OF assms(1) o]
  note 2 = nodes_lseek [OF assms(1) l 1(3)]
  have "v_left V d2 = None" using assms(3) 1(2) 2(2) by (simp add: same_board_def)
  note 3 = nodes_write [OF assms(1) w 2(3) this]
  have "write_to_fpga S H2C_NODE a matrix d = (0, s_close S fd d3)"
    using o l w 1(1) 2(1) 3 assms(2) by (simp add: write_to_fpga_def dev_write_def MATRIX_SIZE_def)
  then show ?thesis
    using assms(2,4) 1(2) 2(2) 3 nodes_close [OF assms(1), of d3 fd] by (simp add: same_board_def)
qed

lemma read_from_fpga_effect:
  assumes "memory_nodes S V" and "sz \<le> 8192" and "length buf = unat sz" and "read_from_fpga S sz C2H_NODE a buf d = (rv, buf', d')"
  shows "rv = 0 \<and> same_board V d d' \<and> buf' = map (v_mem V d) [unat a..<unat a + unat sz]"
proof -
  obtain fd d1 where o: "s_open S C2H_NODE d = (fd, d1)" by fastforce
  obtain r d2 where l: "s_lseek S fd a d1 = (r, d2)" by fastforce
  obtain n bs d3 where w: "s_read S fd sz d2 = (n, bs, d3)" by (metis prod_cases3)
  note 1 = nodes_open [OF assms(1) o]
  note 2 = nodes_lseek [OF assms(1) l 1(3)]
  note 3 = nodes_read [OF assms(1) w 2(3) assms(2)]
  have "read_from_fpga S sz C2H_NODE a buf d = (0, bs, s_close S fd d3)"
    using o l w 1(1) 2(1) 3 assms(3) by (simp add: read_from_fpga_def dev_read_def)
  then show ?thesis
    using assms(4) 1(2) 2(2) 3 nodes_close [OF assms(1), of d3 fd] by (simp add: same_board_def)
qed

text \<open>A memory test finds what it wrote.  On a channel that transfers whole requests the test of a block of
  the memory reads back, byte for byte, the data it wrote there, wherever the block lies and whatever the
  memory and the buffer held before.\<close>

theorem test_bram_readback:
  assumes "memory_nodes S V" and "v_left V d = None" and "length data = 4096" and "length buf = 4096"
  shows "\<exists>d'. test_bram_main S a data buf d = (0, Some data, d') \<and> v_mem V d' = put_bytes (unat a) data (v_mem V d)"
proof -
  obtain rv d1 where w: "write_to_fpga S H2C_NODE a data d = (rv, d1)" by fastforce
  obtain rv' buf' d2 where r: "read_from_fpga S 4096 C2H_NODE a buf d1 = (rv', buf', d2)" by (metis prod_cases3)
  note 1 = write_to_fpga_effect [OF assms(1,3,2) w]
  have 2: "rv' = 0 \<and> same_board V d1 d2 \<and> buf' = map (v_mem V d1) [unat a..<unat a + 4096]"
    using read_from_fpga_effect [OF assms(1) _ _ r] assms(4) by simp
  show ?thesis
    using 1 2 put_bytes_read [of "unat a" data "v_mem V d"] assms(3)
    by (simp add: test_bram_main_def MATRIX_SIZE_def w r same_board_def)
qed

section \<open>Start and wait\<close>

lemma accel_map:
  assumes "accelerator S V" and "s_map S fd len a d = (ok, d')" and "v_file V d fd = Some (USER_NODE, p)"
  shows "ok \<and> same_view V d d'"
proof -
  from assms(1) have "v_file V d fd = Some (USER_NODE, p) \<longrightarrow> s_map S fd len a d = (ok, d') \<longrightarrow> ok \<and> same_view V d d'"
    unfolding accelerator_def by (elim conjE allE)
  then show ?thesis using assms(2,3) by blast
qed

lemma accel_unmap:
  assumes "accelerator S V" and "s_unmap S len d = (ok, d')"
  shows "ok \<and> same_view V d d'"
proof -
  from assms(1) have "s_unmap S len d = (ok, d') \<longrightarrow> ok \<and> same_view V d d'"
    unfolding accelerator_def by (elim conjE allE)
  then show ?thesis using assms(2) by blast
qed

lemma accel_start:
  assumes "accelerator S V" and "s_load S fd START_ADDR 1 d = (bs, d')" and "v_file V d fd = Some (USER_NODE, p)" and "v_left V d = None"
  shows "v_left V d' \<noteq> None \<and> v_file V d' = v_file V d \<and> (\<forall>a < 0x6000. v_mem V d' a = v_mem V d a)"
proof -
  from assms(1) have "v_file V d fd = Some (USER_NODE, p) \<longrightarrow> v_left V d = None \<longrightarrow> s_load S fd START_ADDR 1 d = (bs, d') \<longrightarrow>
      v_left V d' \<noteq> None \<and> v_file V d' = v_file V d \<and> (\<forall>a < 0x6000. v_mem V d' a = v_mem V d a)"
    unfolding accelerator_def by (elim conjE allE)
  then show ?thesis using assms(2-4) by blast
qed

lemma accel_flag:
  assumes "accelerator S V" and "s_load S fd FLAG_ADDR 1 d = (bs, d')" and "v_file V d fd = Some (USER_NODE, p)"
  shows "bs = [if v_left V d = Some 0 then 2 else 0] \<and> same_view V d d'"
proof -
  from assms(1) have "v_file V d fd = Some (USER_NODE, p) \<longrightarrow> s_load S fd FLAG_ADDR 1 d = (bs, d') \<longrightarrow>
      bs = [if v_left V d = Some 0 then 2 else 0] \<and> same_view V d d'"
    unfolding accelerator_def by (elim conjE allE)
  then show ?thesis using assms(2,3) by blast
qed

lemma accel_nap:
  assumes "accelerator S V"
  shows "v_file V (s_usleep S us d) = v_file V d" "\<forall>a < 0x6000. v_mem V (s_usleep S us d) a = v_mem V d a"
    "v_left V (s_usleep S us d) = map_option (\<lambda>n. n - 1) (v_left V d)"
  using assms unfolding accelerator_def by blast+

lemma accel_product:
  assumes "accelerator S V" and "v_left V d = Some 0" and "i < 64" and "j < 64"
  shows "[v_mem V d (0x6000 + 2 * (64 * i + j)), v_mem V d (0x6001 + 2 * (64 * i + j))] = le16 (memory_product (v_mem V d) i j)"
  using assms unfolding accelerator_def by blast

lemma register_pages:
  "START_ADDR AND (PGSZ - 1) = 0" "START_ADDR AND NOT (PGSZ - 1) = START_ADDR"
  "FLAG_ADDR AND (PGSZ - 1) = 0" "FLAG_ADDR AND NOT (PGSZ - 1) = FLAG_ADDR"
  by (simp_all add: START_ADDR_def FLAG_ADDR_def PGSZ_def)

text \<open>Reading the two registers.\<close>

lemma read_flag:
  assumes "accelerator S V" and "v_file V d fd = Some (USER_NODE, p)"
  shows "\<exists>d'. dev_read_mapped S fd FLAG_ADDR [flag] 1 d = (0, [if v_left V d = Some 0 then 2 else 0], d') \<and> same_view V d d'"
proof -
  obtain ok d1 where m: "s_map S fd 1 FLAG_ADDR d = (ok, d1)" by fastforce
  obtain bs d2 where l: "s_load S fd FLAG_ADDR 1 d1 = (bs, d2)" by fastforce
  obtain ok' d3 where u: "s_unmap S 1 d2 = (ok', d3)" by fastforce
  note 1 = accel_map [OF assms(1) m assms(2)]
  then have f: "v_file V d1 fd = Some (USER_NODE, p)" "v_left V d1 = v_left V d"
    using assms(2) by (simp_all add: same_view_def same_board_def)
  note 2 = accel_flag [OF assms(1) l f(1)]
  note 3 = accel_unmap [OF assms(1) u]
  show ?thesis using m l u 1 2 3 f(2)
    by (simp add: dev_read_mapped_def register_pages same_view_def same_board_def)
qed

lemma read_start:
  assumes "accelerator S V" and "v_file V d fd = Some (USER_NODE, p)" and "v_left V d = None"
    and "dev_read_mapped S fd START_ADDR buf 1 d = (rv, buf', d')"
  shows "v_left V d' \<noteq> None \<and> v_file V d' = v_file V d \<and> (\<forall>a < 0x6000. v_mem V d' a = v_mem V d a)"
proof -
  obtain ok d1 where m: "s_map S fd 1 START_ADDR d = (ok, d1)" by fastforce
  obtain bs d2 where l: "s_load S fd START_ADDR 1 d1 = (bs, d2)" by fastforce
  obtain ok' d3 where u: "s_unmap S 1 d2 = (ok', d3)" by fastforce
  note 1 = accel_map [OF assms(1) m assms(2)]
  then have f: "v_file V d1 fd = Some (USER_NODE, p)" "v_left V d1 = None"
    using assms(2,3) by (simp_all add: same_view_def same_board_def)
  note 2 = accel_start [OF assms(1) l f]
  note 3 = accel_unmap [OF assms(1) u]
  have "d' = d3" using assms(4) m l u 1 3 by (simp add: dev_read_mapped_def register_pages)
  then show ?thesis using 1 2 3 by (simp add: same_view_def same_board_def)
qed

text \<open>The loop ends when the accelerator is done, after one nap more than it needs.\<close>

lemma flag_loop_ends:
  assumes "accelerator S V" and "v_file V d fd = Some (USER_NODE, p)" and "v_left V d = Some n"
  shows "\<exists>d'. flag_loop S fd 0 d = Some d' \<and> v_left V d' = Some 0 \<and> (\<forall>a < 0x6000. v_mem V d' a = v_mem V d a)"
  using assms(2,3)
proof (induction n arbitrary: d)
  case 0
  obtain d1 where r: "dev_read_mapped S fd FLAG_ADDR [0] 1 d = (0, [2], d1)" "same_view V d d1"
    using read_flag [OF assms(1) 0(1), of 0] 0(2) by auto
  have "flag_loop S fd 0 d = Some (s_usleep S 10 d1)"
    by (subst flag_loop.simps) (simp add: r(1) flag_loop.simps [of S fd 2])
  then show ?case using r(2) 0 accel_nap [OF assms(1), of 10 d1] by (auto simp: same_view_def same_board_def)
next
  case (Suc n)
  obtain d1 where r: "dev_read_mapped S fd FLAG_ADDR [0] 1 d = (0, [0], d1)" "same_view V d d1"
    using read_flag [OF assms(1) Suc.prems(1), of 0] Suc.prems(2) by auto
  let ?d2 = "s_usleep S 10 d1"
  have s: "flag_loop S fd 0 d = flag_loop S fd 0 ?d2" by (subst flag_loop.simps) (simp add: r(1))
  have "v_file V ?d2 fd = Some (USER_NODE, p)" "v_left V ?d2 = Some n" "\<forall>a < 0x6000. v_mem V ?d2 a = v_mem V d a"
    using Suc.prems r(2) accel_nap [OF assms(1), of 10 d1] by (auto simp: same_view_def same_board_def)
  then show ?case using Suc.IH [of ?d2] s by auto
qed

lemma compute_and_wait_effect:
  assumes "memory_nodes S V" and "accelerator S V" and "v_left V d = None"
  shows "\<exists>d'. compute_and_wait S d = Some (0, d') \<and> v_left V d' = Some 0 \<and> (\<forall>a < 0x6000. v_mem V d' a = v_mem V d a)"
proof -
  obtain fd d1 where o: "s_open S USER_NODE d = (fd, d1)" by fastforce
  obtain rv buf d2 where r: "dev_read_mapped S fd START_ADDR [0] 1 d1 = (rv, buf, d2)" by (metis prod_cases3)
  have 1: "0 \<le> fd" "same_board V d d1" "v_file V d1 fd = Some (USER_NODE, 0)"
    using nodes_open [OF assms(1) o] by simp_all
  have l: "v_left V d1 = None" using 1(2) assms(3) by (simp add: same_board_def)
  note 2 = read_start [OF assms(2) 1(3) l r]
  then obtain n where n: "v_left V d2 = Some n" by blast
  have "v_file V d2 fd = Some (USER_NODE, 0)" using 1(3) 2 by simp
  from flag_loop_ends [OF assms(2) this n] obtain d3 where
    f: "flag_loop S fd 0 d2 = Some d3" "v_left V d3 = Some 0" "\<forall>a < 0x6000. v_mem V d3 a = v_mem V d2 a" by blast
  have "compute_and_wait S d = Some (0, s_close S fd d3)"
    using o r f(1) 1(1) by (simp add: compute_and_wait_def)
  then show ?thesis using f 2 1(2) nodes_close [OF assms(1), of d3 fd] by (simp add: same_board_def)
qed

section \<open>The result\<close>

text \<open>The example matrix: every element of row \<open>i\<close> is \<open>i - 32\<close>; the program's array lists it row by row.\<close>

definition example_matrix :: "u8 list list" where
  "example_matrix = map (\<lambda>i. replicate 64 (word_of_int (int i - 32))) [0..<64]"

lemma example_square: "square example_matrix"
  by (auto simp: square_def example_matrix_def MATRIX_SIZE_def)

lemma length_example: "length example_flat = 4096"
  by (simp add: example_flat_def MATRIX_SIZE_def)

lemma example_flat_nth:
  assumes "i < 64" and "j < 64"
  shows "example_flat ! (64 * i + j) = example_matrix ! i ! j"
proof -
  have "64 * i + j < 4096" using assms by linarith
  moreover have "(64 * i + j) div 64 = i" using assms(2) by simp
  ultimately show ?thesis using assms
    by (simp add: example_flat_def example_matrix_def MATRIX_SIZE_def del: upt_conv_Cons)
qed

lemma send_operands_effect:
  assumes "memory_nodes S V" and "v_left V d = None"
  shows "\<exists>d'. send_operands S d = (0, d') \<and> v_left V d' = v_left V d
    \<and> v_mem V d' = put_bytes 0x2000 example_flat (put_bytes 0 example_flat (v_mem V d))"
proof -
  obtain fd d1 where o: "s_open S H2C_NODE d = (fd, d1)" by fastforce
  obtain r2 d2 where a: "write_to_fpga S H2C_NODE 0x00000000 example_flat d1 = (r2, d2)" by fastforce
  obtain r3 d3 where b: "write_to_fpga S H2C_NODE 0x00002000 example_flat d2 = (r3, d3)" by fastforce
  have 1: "0 \<le> fd" "same_board V d d1" using nodes_open [OF assms(1) o] by simp_all
  have l: "v_left V d1 = None" using 1(2) assms(2) by (simp add: same_board_def)
  note 2 = write_to_fpga_effect [OF assms(1) length_example l a]
  then have l: "v_left V d2 = None" using l by simp
  note 3 = write_to_fpga_effect [OF assms(1) length_example l b]
  have "send_operands S d = (0, s_close S fd d3)" using o a b 1(1) 2 3 by (simp add: send_operands_def)
  then show ?thesis using 1(2) 2 3 nodes_close [OF assms(1), of d3 fd] by (simp add: same_board_def)
qed

lemma product_of_operands:
  assumes "\<forall>a < 0x6000. m a = put_bytes 0x2000 example_flat (put_bytes 0 example_flat m0) a" and "i < 64" and "j < 64"
  shows "memory_product m i j = word_of_int (exact_product example_matrix example_matrix i j)"
proof -
  have "m (64 * i + k) = example_matrix ! i ! k" "m (0x2000 + 64 * k + j) = example_matrix ! k ! j" if "k < 64" for k
    using assms that by (simp_all add: put_bytes_def length_example example_flat_nth)
  then show ?thesis
    unfolding memory_product_def exact_product_def MATRIX_SIZE_def by (intro arg_cong [where f = word_of_int] sum.cong) auto
qed

lemma product_list:
  "map (\<lambda>n. f (n div 64) (n mod 64)) [0..<4096] = concat (map (\<lambda>i. map (f i) [0..<64]) [0..<64])"
proof -
  have "map (\<lambda>n. f (n div 64) (n mod 64)) [0..<64 * m] = concat (map (\<lambda>i. map (f i) [0..<64]) [0..<m])" for m
  proof (induction m)
    case (Suc m)
    have "map (\<lambda>n. f (n div 64) (n mod 64)) [64 * m..<64 * m + 64] = map (f m) [0..<64]"
      by (rule nth_equalityI) (simp_all del: upt_conv_Cons)
    moreover have "[0..<64 * Suc m] = [0..<64 * m] @ [64 * m..<64 * m + 64]"
      using upt_add_eq_append [of 0 "64 * m" 64] by (simp add: add.commute)
    ultimately show ?case using Suc by simp
  qed simp
  from this [of 64] show ?thesis by simp
qed

lemma nth_le16_join:
  assumes "\<And>k. k < n \<Longrightarrow> [m (p + 2 * k), m (p + 1 + 2 * k)] = le16 (w k)"
  shows "map m [p..<p + 2 * n] = concat (map le16 (map w [0..<n]))"
  using assms
proof (induction n)
  case (Suc n)
  have "map m [p..<p + 2 * Suc n] = map m [p..<p + 2 * n] @ [m (p + 2 * n), m (p + 1 + 2 * n)]" by simp
  then show ?case using Suc.IH [OF Suc.prems] Suc.prems [of n] by (simp del: upt_Suc_append add: upt_rec [of 0])
qed simp

lemma unat_result: "unat (0x6000 :: u64) = 0x6000" "unat (8192 :: u64) = 2 * 4096"
  by simp_all


section \<open>A program that never returns\<close>

text \<open>C40: the waiting loop ignores the result of \<open>dev_read_mapped\<close>.  If the operands can be sent and the user
  node opened, but its registers cannot be mapped, the program neither reports an error nor ends.\<close>

theorem matrix_top_spins:
  assumes "send_operands S d = (0, d1)" and "s_open S USER_NODE d1 = (fd, d2)" and "0 \<le> fd"
    and "\<And>fd len a d. \<not> fst (s_map S fd len a d)"
  shows "matrix_top_main S result final_result d = None"
proof -
  have m: "\<exists>d'. dev_read_mapped S fd a [flag] 1 d = (-1, [flag], d')" for fd a flag d
  proof -
    obtain ok d' where e: "s_map S fd ((a AND (PGSZ - 1)) + 1) (a AND NOT (PGSZ - 1)) d = (ok, d')" by fastforce
    moreover have "\<not> ok" using assms(4) [of fd _ _ d] e by (metis fst_conv)
    ultimately show ?thesis by (simp add: dev_read_mapped_def)
  qed
  have "S' = S \<longrightarrow> flag = 0 \<longrightarrow> False" if "flag_loop S' fd flag d = Some d'" for S' fd flag d d'
  proof (rule flag_loop.raw_induct [OF _ that])
    fix loop S' fd flag d d'
    assume ih: "\<And>S' fd flag d d'. loop S' fd flag d = Some d' \<Longrightarrow> S' = S \<longrightarrow> flag = 0 \<longrightarrow> False"
      and l: "(if flag \<noteq> 0 then Some d else let (rv, buf, d) = dev_read_mapped S' fd FLAG_ADDR [flag] 1 d
           in loop S' fd (hd buf) (s_usleep S' 10 d)) = Some d'"
    obtain d2 where "dev_read_mapped S fd FLAG_ADDR [flag] 1 d = (-1, [flag], d2)" using m by blast
    then show "S' = S \<longrightarrow> flag = 0 \<longrightarrow> False" using l ih [of S fd 0 "s_usleep S 10 d2" d'] by (auto split: if_splits)
  qed
  then have "flag_loop S fd 0 d = None" for fd d by (metis option.exhaust)
  then have "compute_and_wait S d1 = None"
    using assms(2,3) m [of fd START_ADDR 0 d2] by (auto simp: compute_and_wait_def)
  then show ?thesis by (simp add: matrix_top_main_def assms(1))
qed

section \<open>A board\<close>

text \<open>
  A board with a block memory and an accelerator that needs three naps: opened files are numbered from 3, the
  start register starts an idle accelerator, and when it is done the product is seen in the memory.
\<close>

record board =
  b_files :: "int \<Rightarrow> (string \<times> u64) option"
  b_mem :: "nat \<Rightarrow> u8"
  b_left :: "nat option"
  b_next :: nat

definition put_product :: "(nat \<Rightarrow> u8) \<Rightarrow> nat \<Rightarrow> u8" where
  "put_product m a = (if 0x6000 \<le> a \<and> a < 0x8000
     then le16 (memory_product m ((a - 0x6000) div 128) ((a - 0x6000) div 2 mod 64)) ! (a mod 2) else m a)"

definition seen :: "board \<Rightarrow> nat \<Rightarrow> u8" where
  "seen b = (if b_left b = Some 0 then put_product (b_mem b) else b_mem b)"

definition board_sys :: "board sys" where
  "board_sys = \<lparr>
     s_open = (\<lambda>name b. (int (b_next b), b\<lparr>b_files := (b_files b)(int (b_next b) \<mapsto> (name, 0)), b_next := Suc (b_next b)\<rparr>)),
     s_close = (\<lambda>fd b. b\<lparr>b_files := (b_files b)(fd := None)\<rparr>),
     s_lseek = (\<lambda>fd a b. (a, b\<lparr>b_files := (b_files b)(fd := map_option (\<lambda>(n, p). (n, a)) (b_files b fd))\<rparr>)),
     s_write = (\<lambda>fd bs b. case b_files b fd of None \<Rightarrow> (- 1, b)
        | Some (n, p) \<Rightarrow> (of_nat (length bs), b\<lparr>b_mem := put_bytes (unat p) bs (b_mem b)\<rparr>)),
     s_read = (\<lambda>fd sz b. case b_files b fd of None \<Rightarrow> (- 1, [], b)
        | Some (n, p) \<Rightarrow> (sz, map (seen b) [unat p..<unat p + unat sz], b)),
     s_map = (\<lambda>fd len a b. (b_files b fd \<noteq> None, b)),
     s_load = (\<lambda>fd a sz b. if a = START_ADDR then ([1], if b_left b = None then b\<lparr>b_left := Some 3\<rparr> else b)
        else ([if b_left b = Some 0 then 2 else 0], b)),
     s_unmap = (\<lambda>len b. (True, b)),
     s_usleep = (\<lambda>us b. b\<lparr>b_left := map_option (\<lambda>n. n - 1) (b_left b)\<rparr>)\<rparr>"

definition board_view :: "board view" where
  "board_view = \<lparr>v_file = b_files, v_mem = seen, v_left = b_left\<rparr>"

definition board0 :: board where
  "board0 = \<lparr>b_files = (\<lambda>_. None), b_mem = (\<lambda>_. 0), b_left = None, b_next = 3\<rparr>"

lemma board_memory: "memory_nodes board_sys board_view"
  by (auto simp: memory_nodes_def board_sys_def board_view_def same_board_def seen_def)

lemma put_product_low: "a < 0x6000 \<Longrightarrow> put_product m a = m a"
  by (simp add: put_product_def)

lemma memory_product_cong:
  assumes "\<forall>a < 0x6000. m a = m' a" and "i < 64" and "j < 64"
  shows "memory_product m i j = memory_product m' i j"
proof -
  have "m (64 * i + k) = m' (64 * i + k)" "m (0x2000 + 64 * k + j) = m' (0x2000 + 64 * k + j)" if "k < 64" for k
    using assms that by simp_all
  then show ?thesis unfolding memory_product_def by (intro arg_cong [where f = word_of_int] sum.cong) auto
qed

lemma put_product_value:
  assumes "i < 64" and "j < 64"
  shows "[put_product m (0x6000 + 2 * (64 * i + j)), put_product m (0x6001 + 2 * (64 * i + j))] = le16 (memory_product (put_product m) i j)"
proof -
  have p: "memory_product (put_product m) i j = memory_product m i j"
    by (rule memory_product_cong) (simp_all add: put_product_low assms)
  have d: "2 * (64 * i + j) div 128 = i" "(2 * (64 * i + j) + 1) div 128 = i"
    by (rule div_nat_eqI; use assms(2) in simp)+
  have e: "2 * (64 * i + j) div 2 mod 64 = j" "(2 * (64 * i + j) + 1) div 2 mod 64 = j" using assms(2) by simp_all
  have b: "2 * (64 * i + j) + 1 < 0x2000" using assms by simp
  have m: "(24577 + (128 * i + 2 * j)) mod 2 = 1" by presburger
  show ?thesis using d e b m unfolding p by (simp add: put_product_def le16_def)
qed

lemma board_accelerator: "accelerator board_sys board_view"
  using put_product_value
  by (auto simp: accelerator_def board_sys_def board_view_def same_view_def same_board_def seen_def put_product_low
      START_ADDR_def FLAG_ADDR_def)

section \<open>The programs on the board\<close>

lemma example_product:
  assumes "i < 64" and "j < 64"
  shows "exact_product example_matrix example_matrix i j = -32 * (int i - 32)"
proof -
  have e: "sint (example_matrix ! i ! k) = int i - 32" if "i < 64" "k < 64" for i k
  proof -
    have "example_matrix ! i ! k = word_of_int (int i - 32)" using that by (simp add: example_matrix_def del: upt_conv_Cons)
    then show ?thesis using sint_small(1) [of "int i - 32"] that(1) by simp
  qed
  have "exact_product example_matrix example_matrix i j = (\<Sum>k < 64. (int i - 32) * (int k - 32))"
    unfolding exact_product_def MATRIX_SIZE_def by (rule sum.cong) (simp_all add: e assms)
  also have "\<dots> = (int i - 32) * (\<Sum>k < 64. int k - 32)" by (simp add: sum_distrib_left)
  also have "(\<Sum>k < 64. int k - 32) = -32" by code_simp
  finally show ?thesis by simp
qed


theorem test_bram_readback_witness:
  "\<exists>b'. test_bram_main board_sys 0x2000 (replicate 4096 7) (replicate 4096 0) board0 = (0, Some (replicate 4096 7), b')
     \<and> v_mem board_view b' 0x2FFF = 7 \<and> v_mem board_view b' 0x3000 = 0"
  using test_bram_readback [OF board_memory _ length_replicate length_replicate, of board0 "0x2000" 7 0]
  by (auto simp: board_view_def board0_def put_bytes_def seen_def)

text \<open>The board with a user node that cannot be mapped.\<close>

theorem matrix_top_spins_witness:
  "matrix_top_main (board_sys\<lparr>s_map := (\<lambda>_ _ _ b. (False, b))\<rparr>) [] [] board0 = None"
proof -
  let ?S = "board_sys\<lparr>s_map := (\<lambda>_ _ _ b. (False, b))\<rparr>"
  have m: "memory_nodes ?S board_view" using board_memory by (simp add: memory_nodes_def)
  obtain b1 where s: "send_operands ?S board0 = (0, b1)"
    using send_operands_effect [OF m, of board0] by (auto simp: board_view_def board0_def)
  obtain fd b2 where o: "s_open ?S USER_NODE b1 = (fd, b2)" by fastforce
  show ?thesis by (rule matrix_top_spins [OF s o nodes_open(1) [OF m o]]) simp_all
qed

end
