(* ===== verification/Dma_Tools.thy ===== *)
theory Dma_Tools
  imports Prelude
begin

text \<open>
  The command line tools that move a buffer to and from a DMA node (\<open>tools/dma_utils.c\<close>,
  \<open>tools/dma_to_device.c\<close>, \<open>tools/dma_from_device.c\<close>): the loops that split a long transfer into system calls,
  the difference of two times, and the transfer loops with their exit codes.  The system calls are
  parameters; what is proved of the loops is proved for every store of bytes that obeys the laws of writing
  at a position.
\<close>

section \<open>System calls\<close>

record timespec =
  tv_sec :: int
  tv_nsec :: int

text \<open>
  The calls over a state \<open>'d\<close> of the kernel.  \<open>c_open\<close> gets the name and whether the file is created and
  truncated; \<open>c_alloc\<close> is \<open>posix_memalign\<close>, whose buffer holds what was in the memory; \<open>c_aperture\<close> is the
  aperture \<open>ioctl\<close> with the direction, the buffer and its length, the address and the window, and returns
  the result, the error field, the bytes done and the buffer.
\<close>

record 'd calls =
  c_open :: "string \<Rightarrow> bool \<Rightarrow> 'd \<Rightarrow> int \<times> 'd"
  c_close :: "int \<Rightarrow> 'd \<Rightarrow> 'd"
  c_lseek :: "int \<Rightarrow> int \<Rightarrow> 'd \<Rightarrow> int \<times> 'd"
  c_read :: "int \<Rightarrow> nat \<Rightarrow> 'd \<Rightarrow> int \<times> u8 list \<times> 'd"
  c_write :: "int \<Rightarrow> u8 list \<Rightarrow> 'd \<Rightarrow> int \<times> 'd"
  c_alloc :: "u64 \<Rightarrow> 'd \<Rightarrow> u8 list option \<times> 'd"
  c_free :: "'d \<Rightarrow> 'd"
  c_aperture :: "bool \<Rightarrow> int \<Rightarrow> u8 list \<Rightarrow> u64 \<Rightarrow> u64 \<Rightarrow> u64 \<Rightarrow> 'd \<Rightarrow> int \<times> int \<times> u64 \<times> u8 list \<times> 'd"
  c_gettime :: "'d \<Rightarrow> int \<times> timespec \<times> 'd"

text \<open>Storing bytes in a buffer from an index on.\<close>

definition put_at :: "nat \<Rightarrow> u8 list \<Rightarrow> u8 list \<Rightarrow> u8 list" where
  "put_at p bs buf = take p buf @ bs @ drop (p + length bs) buf"

section \<open>The loops of dma_utils.c\<close>

definition RW_MAX_SIZE :: u64 where "RW_MAX_SIZE = 0x7ffff000"

definition chunk :: "u64 \<Rightarrow> u64 \<Rightarrow> u64" where
  "chunk sz count = (let bytes = sz - count in if RW_MAX_SIZE < bytes then RW_MAX_SIZE else bytes)"

lemma chunk_bounds:
  assumes "count < sz"
  shows "unat (sz - count) = unat sz - unat count" "0 < unat (chunk sz count)" "unat (chunk sz count) \<le> unat sz - unat count"
    "unat (chunk sz count) \<le> 0x7ffff000" "unat (count + chunk sz count) = unat count + unat (chunk sz count)"
proof -
  show d: "unat (sz - count) = unat sz - unat count" using assms by (simp add: unat_sub word_less_nat_alt word_le_nat_alt)
  show c: "0 < unat (chunk sz count)" "unat (chunk sz count) \<le> unat sz - unat count" "unat (chunk sz count) \<le> 0x7ffff000"
    using assms by (auto simp: chunk_def RW_MAX_SIZE_def Let_def word_less_nat_alt not_less d)
  have "unat count + unat (chunk sz count) < 2 ^ 64" using c(2) unsigned_less [where ?'a = nat, of sz] assms by (simp add: word_less_nat_alt)
  then show "unat (count + chunk sz count) = unat count + unat (chunk sz count)"
    by (simp add: unat_word_ariths)
qed

lemma chunk_less: "count < sz \<Longrightarrow> unat sz - unat (count + chunk sz count) < unat sz - unat count"
  using chunk_bounds [of count sz] by (simp add: word_less_nat_alt)

text \<open>
  The seek at the head of a round: none when the offset is zero.  The offset is a signed 64-bit value.
\<close>

definition seek_to :: "'d calls \<Rightarrow> int \<Rightarrow> u64 \<Rightarrow> 'd \<Rightarrow> bool \<times> 'd" where
  "seek_to S fd offset d =
     (if offset \<noteq> 0 then let (rc, d) = c_lseek S fd (sint offset) d in (rc = sint offset, d) else (True, d))"

text \<open>
  The loop variables are \<open>count\<close>, the index \<open>buf\<close> into the buffer, and \<open>offset\<close>; the result is the byte count
  or minus the error.
\<close>

function read_loop :: "'d calls \<Rightarrow> int \<Rightarrow> u64 \<Rightarrow> u64 \<Rightarrow> nat \<Rightarrow> u64 \<Rightarrow> u8 list \<times> 'd \<Rightarrow> int \<times> u8 list \<times> 'd" where
  "read_loop S fd sz count buf offset (buffer, d) =
     (if count < sz
      then let bytes = chunk sz count; (ok, d) = seek_to S fd offset d in
           if \<not> ok then (- errno_code EIO, buffer, d)
           else let (rc, bs, d) = c_read S fd (unat bytes) d; buffer = put_at buf bs buffer in
                if rc < 0 then (- errno_code EIO, buffer, d)
                else if word_of_int rc \<noteq> bytes then (sint (count + word_of_int rc), buffer, d)
                else read_loop S fd sz (count + bytes) (buf + unat bytes) (offset + bytes) (buffer, d)
      else (sint count, buffer, d))"
  by pat_completeness auto
termination
  by (relation "measure (\<lambda>(S, fd, sz, count, _). unat sz - unat count)")
    (auto dest: chunk_less simp: Let_def split: if_splits)

declare read_loop.simps [simp del]

function write_loop :: "'d calls \<Rightarrow> int \<Rightarrow> u64 \<Rightarrow> u64 \<Rightarrow> nat \<Rightarrow> u64 \<Rightarrow> u8 list \<Rightarrow> 'd \<Rightarrow> int \<times> 'd" where
  "write_loop S fd sz count buf offset buffer d =
     (if count < sz
      then let bytes = chunk sz count; (ok, d) = seek_to S fd offset d in
           if \<not> ok then (- errno_code EIO, d)
           else let (rc, d) = c_write S fd (take (unat bytes) (drop buf buffer)) d in
                if rc < 0 then (- errno_code EIO, d)
                else if word_of_int rc \<noteq> bytes then (sint (count + word_of_int rc), d)
                else write_loop S fd sz (count + bytes) (buf + unat bytes) (offset + bytes) buffer d
      else (sint count, d))"
  by pat_completeness auto
termination
  by (relation "measure (\<lambda>(S, fd, sz, count, _). unat sz - unat count)")
    (auto dest: chunk_less simp: Let_def split: if_splits)

declare write_loop.simps [simp del]

definition read_to_buffer :: "'d calls \<Rightarrow> int \<Rightarrow> nat \<Rightarrow> u64 \<Rightarrow> u64 \<Rightarrow> u8 list \<times> 'd \<Rightarrow> int \<times> u8 list \<times> 'd" where
  "read_to_buffer S fd buf sz base = read_loop S fd sz 0 buf base"

definition write_from_buffer :: "'d calls \<Rightarrow> int \<Rightarrow> u8 list \<Rightarrow> nat \<Rightarrow> u64 \<Rightarrow> u64 \<Rightarrow> 'd \<Rightarrow> int \<times> 'd" where
  "write_from_buffer S fd buffer buf sz base = write_loop S fd sz 0 buf base buffer"

definition timespec_check :: "timespec \<Rightarrow> int" where
  "timespec_check t = (if tv_nsec t < 0 \<or> 1000000000 \<le> tv_nsec t then -1 else 0)"

definition timespec_sub :: "timespec \<Rightarrow> timespec \<Rightarrow> timespec" where
  "timespec_sub t1 t2 =
     (if timespec_check t1 < 0 then t1
      else if timespec_check t2 < 0 then t1
      else let t = \<lparr>tv_sec = tv_sec t1 - tv_sec t2, tv_nsec = tv_nsec t1 - tv_nsec t2\<rparr> in
           if 1000000000 \<le> tv_nsec t then \<lparr>tv_sec = tv_sec t + 1, tv_nsec = tv_nsec t - 1000000000\<rparr>
           else if tv_nsec t < 0 then \<lparr>tv_sec = tv_sec t - 1, tv_nsec = tv_nsec t + 1000000000\<rparr>
           else t)"

section \<open>Transfers\<close>

text \<open>
  One pass of the loop of \<open>dma_to_device.c\<close>.  What it keeps: \<open>rc\<close>, the bytes done, the offset in the output
  file, the underflow flag and the time; \<open>Inl\<close> means \<open>goto out\<close>.
\<close>

record pass =
  p_rc :: int
  bytes_done :: u64
  out_offset :: u64
  underflow :: bool
  total_time :: int

definition copy_out :: "'d calls \<Rightarrow> int \<Rightarrow> u8 list \<Rightarrow> nat \<Rightarrow> pass \<Rightarrow> 'd \<Rightarrow> (pass + pass) \<times> 'd" where
  "copy_out S out_fd buffer buf p d =
     (if 0 \<le> out_fd
      then let (rc, d) = write_from_buffer S out_fd buffer buf (bytes_done p) (out_offset p) d;
               p = p\<lparr>p_rc := rc\<rparr> in
           if rc < 0 \<or> word_of_int rc < bytes_done p then (Inl p, d)
           else (Inr (p\<lparr>out_offset := out_offset p + bytes_done p\<rparr>), d)
      else (Inr p, d))"

definition take_times :: "timespec \<Rightarrow> timespec \<Rightarrow> u64 \<Rightarrow> pass \<Rightarrow> pass" where
  "take_times ts_start ts_end sz p =
     (let p = (if bytes_done p < sz then p\<lparr>underflow := True\<rparr> else p)
      in p\<lparr>total_time := total_time p + tv_nsec (timespec_sub ts_end ts_start)\<rparr>)"

definition to_device_pass ::
  "'d calls \<Rightarrow> int \<Rightarrow> int \<Rightarrow> u64 \<Rightarrow> u64 \<Rightarrow> u64 \<Rightarrow> nat \<Rightarrow> u8 list \<times> pass \<times> 'd \<Rightarrow> (pass + pass) \<times> u8 list \<times> 'd" where
  "to_device_pass S fpga_fd outfile_fd addr aperture sz buf = (\<lambda>(buffer, p, d).
     let (rc, ts_start, d) = c_gettime S d;
         (stop, p, buffer, d) =
           (if aperture \<noteq> 0
            then let (rc, err, dn, bs, d) = c_aperture S True fpga_fd (take (unat sz) (drop buf buffer)) sz addr aperture d in
                 (rc < 0 \<or> err \<noteq> 0, p\<lparr>p_rc := rc\<rparr>\<lparr>bytes_done := (if rc < 0 \<or> err \<noteq> 0 then bytes_done p else dn)\<rparr>, buffer, d)
            else let (rc, d) = write_from_buffer S fpga_fd buffer buf sz addr d in
                 (rc < 0, p\<lparr>p_rc := rc\<rparr>\<lparr>bytes_done := (if rc < 0 then bytes_done p else word_of_int rc)\<rparr>, buffer, d))
     in if stop then (Inl p, buffer, d)
        else let (rc, ts_end, d) = c_gettime S d;
                 p = take_times ts_start ts_end sz (p\<lparr>p_rc := rc\<rparr>);
                 (r, d) = copy_out S outfile_fd buffer buf p d
             in (r, buffer, d))"

text \<open>The pass of \<open>dma_from_device.c\<close>; the second reading of the clock does not touch \<open>rc\<close>.\<close>

definition from_device_pass ::
  "'d calls \<Rightarrow> int \<Rightarrow> int \<Rightarrow> u64 \<Rightarrow> u64 \<Rightarrow> u64 \<Rightarrow> nat \<Rightarrow> u8 list \<times> pass \<times> 'd \<Rightarrow> (pass + pass) \<times> u8 list \<times> 'd" where
  "from_device_pass S fpga_fd out_fd addr aperture sz buf = (\<lambda>(buffer, p, d).
     let (rc, ts_start, d) = c_gettime S d;
         (stop, p, buffer, d) =
           (if aperture \<noteq> 0
            then let (rc, err, dn, bs, d) = c_aperture S False fpga_fd (take (unat sz) (drop buf buffer)) sz addr aperture d in
                 (rc < 0 \<or> err \<noteq> 0, p\<lparr>p_rc := rc\<rparr>\<lparr>bytes_done := (if rc < 0 \<or> err \<noteq> 0 then bytes_done p else dn)\<rparr>,
                  put_at buf bs buffer, d)
            else let (rc, buffer, d) = read_to_buffer S fpga_fd buf sz addr (buffer, d) in
                 (rc < 0, p\<lparr>p_rc := rc\<rparr>\<lparr>bytes_done := (if rc < 0 then bytes_done p else word_of_int rc)\<rparr>, buffer, d))
     in if stop then (Inl p, buffer, d)
        else let (rc, ts_end, d) = c_gettime S d;
                 (r, d) = copy_out S out_fd buffer buf (take_times ts_start ts_end sz p) d
             in (r, buffer, d))"

primrec passes :: "(u8 list \<times> pass \<times> 'd \<Rightarrow> (pass + pass) \<times> u8 list \<times> 'd) \<Rightarrow> nat \<Rightarrow> u8 list \<times> pass \<times> 'd \<Rightarrow> (pass + pass) \<times> u8 list \<times> 'd" where
  "passes body 0 = (\<lambda>(buffer, p, d). (Inr p, buffer, d))"
| "passes body (Suc n) = (\<lambda>st. case body st of
      (Inl p, buffer, d) \<Rightarrow> (Inl p, buffer, d) | (Inr p, buffer, d) \<Rightarrow> passes body n (buffer, p, d))"

text \<open>
  The exit of \<open>test_dma\<close>: the files are closed, the buffer is freed, and the code is chosen.  \<open>rc0\<close> is what the
  uninitialised \<open>rc\<close> of \<open>dma_to_device.c\<close> holds.  The printing and the averages are left out.
\<close>

definition close_if :: "'d calls \<Rightarrow> int \<Rightarrow> 'd \<Rightarrow> 'd" where
  "close_if S fd d = (if 0 \<le> fd then c_close S fd d else d)"

definition open_if :: "'d calls \<Rightarrow> string option \<Rightarrow> bool \<Rightarrow> 'd \<Rightarrow> int \<times> 'd" where
  "open_if S name create d = (case name of None \<Rightarrow> (-1, d) | Some f \<Rightarrow> c_open S f create d)"

definition to_device_run ::
  "'d calls \<Rightarrow> int \<Rightarrow> int \<Rightarrow> int \<Rightarrow> int \<Rightarrow> u64 \<Rightarrow> u64 \<Rightarrow> u64 \<Rightarrow> nat \<Rightarrow> u64 \<Rightarrow> u8 list \<times> 'd \<Rightarrow> int \<times> bool \<times> 'd" where
  "to_device_run S rc0 fpga_fd infile_fd outfile_fd addr aperture sz buf count = (\<lambda>(buffer, d).
     let (rc, buffer, d) = (if 0 \<le> infile_fd then read_to_buffer S infile_fd buf sz 0 (buffer, d) else (rc0, buffer, d))
     in if 0 \<le> infile_fd \<and> (rc < 0 \<or> word_of_int rc < sz) then (rc, False, d)
        else let (r, buffer, d) = passes (to_device_pass S fpga_fd outfile_fd addr aperture sz buf) (unat count)
                   (buffer, \<lparr>p_rc = rc, bytes_done = 0, out_offset = 0, underflow = False, total_time = 0\<rparr>, d);
                 p = (case r of Inl p \<Rightarrow> p | Inr p \<Rightarrow> p)
             in (p_rc p, underflow p, d))"

definition to_device ::
  "'d calls \<Rightarrow> int \<Rightarrow> string \<Rightarrow> u64 \<Rightarrow> u64 \<Rightarrow> u64 \<Rightarrow> u64 \<Rightarrow> u64 \<Rightarrow> string option \<Rightarrow> string option \<Rightarrow> 'd \<Rightarrow> int \<times> 'd" where
  "to_device S rc0 devname addr aperture sz offset count infname ofname d =
     (let (fpga_fd, d) = c_open S devname False d in
      if fpga_fd < 0 then (- errno_code EINVAL, d)
      else let (infile_fd, d) = open_if S infname False d in
      if infname \<noteq> None \<and> infile_fd < 0 then (- errno_code EINVAL, c_free S (c_close S fpga_fd d))
      else let (outfile_fd, d) = open_if S ofname True d in
      if ofname \<noteq> None \<and> outfile_fd < 0
      then (- errno_code EINVAL, c_free S (close_if S infile_fd (c_close S fpga_fd d)))
      else let (mem, d) = c_alloc S (sz + 4096) d;
               (rc, under, d) =
                 (case mem of
                    None \<Rightarrow> (- errno_code ENOMEM, False, d)
                  | Some buffer \<Rightarrow>
                      to_device_run S rc0 fpga_fd infile_fd outfile_fd addr aperture sz (unat offset) count (buffer, d))
           in (if rc < 0 then rc else if under then - errno_code EIO else 0,
               c_free S (close_if S outfile_fd (close_if S infile_fd (c_close S fpga_fd d)))))"

definition from_device ::
  "'d calls \<Rightarrow> bool \<Rightarrow> string \<Rightarrow> u64 \<Rightarrow> u64 \<Rightarrow> u64 \<Rightarrow> u64 \<Rightarrow> u64 \<Rightarrow> string option \<Rightarrow> 'd \<Rightarrow> int \<times> 'd" where
  "from_device S eop_flush devname addr aperture sz offset count ofname d =
     (let (fpga_fd, d) = c_open S devname eop_flush d in
      if fpga_fd < 0 then (- errno_code EINVAL, d)
      else let (out_fd, d) = open_if S ofname True d in
      if ofname \<noteq> None \<and> out_fd < 0 then (- errno_code EINVAL, c_free S (c_close S fpga_fd d))
      else let out = (\<lambda>rc d. (rc, c_free S (close_if S out_fd (c_close S fpga_fd d))));
               (mem, d) = c_alloc S (sz + 4096) d
      in case mem of
           None \<Rightarrow> out (- errno_code ENOMEM) d
         | Some buffer \<Rightarrow>
             (case passes (from_device_pass S fpga_fd out_fd addr aperture sz (unat offset)) (unat count)
                 (buffer, \<lparr>p_rc = 0, bytes_done = 0, out_offset = 0, underflow = False, total_time = 0\<rparr>, d) of
                (Inl p, buffer, d) \<Rightarrow> out (p_rc p) d
              | (Inr p, buffer, d) \<Rightarrow> out (if \<not> underflow p then 0 else if eop_flush then 0 else - errno_code EIO) d))"

section \<open>Times\<close>

text \<open>The difference of two times is exact and normalised.\<close>

lemma timespec_sub_exact:
  assumes "timespec_check t1 = 0" and "timespec_check t2 = 0"
  shows "1000000000 * tv_sec (timespec_sub t1 t2) + tv_nsec (timespec_sub t1 t2) =
      (1000000000 * tv_sec t1 + tv_nsec t1) - (1000000000 * tv_sec t2 + tv_nsec t2)"
    and "timespec_check (timespec_sub t1 t2) = 0"
  using assms by (auto simp: timespec_check_def timespec_sub_def Let_def split: if_splits)

text \<open>The sum that the average is computed from takes the nanoseconds only: whole seconds of a pass are lost.\<close>

lemma take_times_drops_seconds:
  assumes "timespec_check t1 = 0"
  shows "total_time (take_times t1 (t1\<lparr>tv_sec := tv_sec t1 + s\<rparr>) sz p) = total_time p"
  using assms by (auto simp: take_times_def timespec_check_def timespec_sub_def Let_def split: if_splits)

section \<open>Stores of bytes\<close>

text \<open>
  Writing bytes at a position, whatever is written to: nothing is written by the empty list, and two adjacent
  writes are one.  The memory of a board is such a store, and so is a regular file.
\<close>

locale byte_store =
  fixes wr :: "nat \<Rightarrow> u8 list \<Rightarrow> 'c \<Rightarrow> 'c"
  assumes wr_nil: "wr p [] c = c"
    and wr_wr: "wr (p + length a) b (wr p a c) = wr p (a @ b) c"

text \<open>A file is extended with zeroes by a write behind its end.\<close>

definition overwrite :: "nat \<Rightarrow> u8 list \<Rightarrow> u8 list \<Rightarrow> u8 list" where
  "overwrite p bs data = (if bs = [] then data else take p (data @ replicate (p - length data) 0) @ bs @ drop (p + length bs) data)"

interpretation board_memory: byte_store put_bytes
  by unfold_locales (simp_all add: put_bytes_nil put_bytes_append)

interpretation regular_file: byte_store overwrite
proof
  fix p a b and c :: "u8 list"
  have "length (take p (c @ replicate (p - length c) 0)) = p" by simp
  then show "overwrite (p + length a) b (overwrite p a c) = overwrite p (a @ b) c"
    by (auto simp: overwrite_def ac_simps)
qed (simp add: overwrite_def)

text \<open>
  An open file for writing: \<open>fview\<close> shows its position and the store behind it, \<open>adv\<close> the position after a
  write.  Requests of up to \<open>RW_MAX_SIZE\<close> bytes are carried out whole.
\<close>

definition seeks :: "'d calls \<Rightarrow> int \<Rightarrow> ('d \<Rightarrow> (nat \<times> 'c) option) \<Rightarrow> bool" where
  "seeks S fd fview \<longleftrightarrow> (\<forall>off d r d' p c. fview d = Some (p, c) \<longrightarrow> 0 \<le> off \<longrightarrow> c_lseek S fd off d = (r, d') \<longrightarrow>
     r = off \<and> fview d' = Some (nat off, c))"

definition writes_at :: "'d calls \<Rightarrow> int \<Rightarrow> (nat \<Rightarrow> nat \<Rightarrow> nat) \<Rightarrow> (nat \<Rightarrow> u8 list \<Rightarrow> 'c \<Rightarrow> 'c) \<Rightarrow> ('d \<Rightarrow> (nat \<times> 'c) option) \<Rightarrow> bool" where
  "writes_at S fd adv wr fview \<longleftrightarrow> seeks S fd fview \<and>
     (\<forall>bs d r d' p c. fview d = Some (p, c) \<longrightarrow> length bs \<le> 0x7ffff000 \<longrightarrow> c_write S fd bs d = (r, d') \<longrightarrow>
        r = int (length bs) \<and> fview d' = Some (adv p (length bs), wr p bs c))"

text \<open>An open file for reading, whose bytes are \<open>data\<close>; a read returns fewer bytes at the end only.\<close>

definition reads_at :: "'d calls \<Rightarrow> int \<Rightarrow> ('c \<Rightarrow> u8 list) \<Rightarrow> ('d \<Rightarrow> (nat \<times> 'c) option) \<Rightarrow> bool" where
  "reads_at S fd data fview \<longleftrightarrow> seeks S fd fview \<and>
     (\<forall>n d r bs d' p c. fview d = Some (p, c) \<longrightarrow> n \<le> 0x7ffff000 \<longrightarrow> c_read S fd n d = (r, bs, d') \<longrightarrow>
        bs = take n (drop p (data c)) \<and> r = int (length bs) \<and> fview d' = Some (p + length bs, c))"

lemma seek_to_effect:
  assumes "seeks S fd fview" and "fview d = Some (p, c)" and "offset \<noteq> 0 \<or> p = 0" and "unat offset < 2 ^ 63"
  shows "\<exists>d'. seek_to S fd offset d = (True, d') \<and> fview d' = Some (unat offset, c) \<and> (offset = 0 \<longrightarrow> d' = d)"
proof (cases "offset = 0")
  case False
  obtain r d' where l: "c_lseek S fd (sint offset) d = (r, d')" by fastforce
  have s: "sint offset = int (unat offset)" by (rule sint_unat [OF assms(4)])
  then have "r = sint offset \<and> fview d' = Some (unat offset, c)"
    using assms(1,2) l unfolding seeks_def by (metis nat_int of_nat_0_le_iff)
  then show ?thesis using False by (simp add: seek_to_def l)
qed (use assms in \<open>simp add: seek_to_def\<close>)

section \<open>What the loops do\<close>

text \<open>The arithmetic of a round that transfers its chunk whole.\<close>

lemma chunk_round:
  assumes "count < sz" and "unat offset + (unat sz - unat count) < 2 ^ 63"
  shows "unat (offset + chunk sz count) = unat offset + unat (chunk sz count)" "offset + chunk sz count \<noteq> 0"
    "unat sz - unat (count + chunk sz count) = unat sz - unat count - unat (chunk sz count)" "count + chunk sz count \<le> sz"
    "unat (offset + chunk sz count) + (unat sz - unat (count + chunk sz count)) < 2 ^ 63"
proof -
  note cb = chunk_bounds [OF assms(1)]
  show o: "unat (offset + chunk sz count) = unat offset + unat (chunk sz count)"
    using assms(2) cb(3) by (simp add: unat_word_ariths)
  show "offset + chunk sz count \<noteq> 0" using o cb(2) by (metis add_is_0 less_irrefl unat_0)
  show rest: "unat sz - unat (count + chunk sz count) = unat sz - unat count - unat (chunk sz count)" using cb(5) by simp
  show "count + chunk sz count \<le> sz" using cb(3,5) assms(1) by (simp add: word_le_nat_alt word_less_nat_alt)
  show "unat (offset + chunk sz count) + (unat sz - unat (count + chunk sz count)) < 2 ^ 63"
    using assms(2) cb(3) o rest by linarith
qed

lemma take_split: "n \<le> m \<Longrightarrow> take n xs @ take (m - n) (drop n xs) = take m xs"
  by (metis le_add_diff_inverse take_add)

context byte_store
begin

lemma write_loop_exact:
  assumes "writes_at S fd adv wr fview" and "fview d = Some (p, c)" and "count \<le> sz" and "offset \<noteq> 0 \<or> p = 0"
    and "unat offset + (unat sz - unat count) < 2 ^ 63" and "unat sz < 2 ^ 63" and "buf + (unat sz - unat count) \<le> length buffer"
  shows "\<exists>d' p'. write_loop S fd sz count buf offset buffer d = (int (unat sz), d')
    \<and> fview d' = Some (p', wr (unat offset) (take (unat sz - unat count) (drop buf buffer)) c)
    \<and> (offset = 0 \<and> unat sz \<le> 0x7ffff000 \<and> count = 0 \<longrightarrow> p' = (if sz = 0 then 0 else adv 0 (unat sz)))"
  using assms(2-7)
proof (induction "unat sz - unat count" arbitrary: count buf offset p c d rule: less_induct)
  case less
  show ?case
  proof (cases "count < sz")
    case False
    then have "count = sz" using less.prems(2) by simp
    then show ?thesis using less.prems
      by (subst write_loop.simps) (auto simp: sint_unat wr_nil)
  next
    case True
    let ?b = "chunk sz count" and ?n = "unat (chunk sz count)"
    note cb = chunk_bounds [OF True]
    obtain d1 where k: "seek_to S fd offset d = (True, d1)" "fview d1 = Some (unat offset, c)"
      using seek_to_effect [where fview = fview and d = d and p = p and c = c and offset = offset and S = S and fd = fd]
        assms(1) less.prems(1,3,4) by (auto simp: writes_at_def)
    let ?bs = "take ?n (drop buf buffer)"
    have lb: "length ?bs = ?n" using cb(3) less.prems(6) by simp
    obtain r d2 where w: "c_write S fd ?bs d1 = (r, d2)" by fastforce
    have "length ?bs \<le> 0x7ffff000" using lb cb(4) by simp
    then have 2: "r = int ?n" "fview d2 = Some (adv (unat offset) ?n, wr (unat offset) ?bs c)"
      using assms(1) k(2) w lb unfolding writes_at_def by metis+
    have step: "write_loop S fd sz count buf offset buffer d = write_loop S fd sz (count + ?b) (buf + ?n) (offset + ?b) buffer d2"
      by (subst write_loop.simps) (simp add: True k(1) w 2(1) Let_def)
    note cr = chunk_round [OF True less.prems(4)]
    have "\<exists>d' p'. write_loop S fd sz (count + ?b) (buf + ?n) (offset + ?b) buffer d2 = (int (unat sz), d')
      \<and> fview d' = Some (p', wr (unat (offset + ?b)) (take (unat sz - unat (count + ?b)) (drop (buf + ?n) buffer)) (wr (unat offset) ?bs c))
      \<and> (count + ?b = sz \<longrightarrow> p' = adv (unat offset) ?n)"
    proof (cases "count + ?b = sz")
      case True
      then show ?thesis using 2(2) less.prems(5) by (subst write_loop.simps) (simp add: sint_unat wr_nil)
    next
      case False
      have "buf + ?n + (unat sz - unat (count + ?b)) \<le> length buffer" using less.prems(6) cb(3) cr(3) by linarith
      then show ?thesis
        using less.hyps [OF chunk_less [OF \<open>count < sz\<close>] 2(2) cr(4) disjI1 [OF cr(2)] cr(5) less.prems(5)] False by blast
    qed
    then obtain d' p' where f: "write_loop S fd sz count buf offset buffer d = (int (unat sz), d')"
      "fview d' = Some (p', wr (unat offset + ?n) (take (unat sz - unat count - ?n) (drop (buf + ?n) buffer)) (wr (unat offset) ?bs c))"
      "count + ?b = sz \<longrightarrow> p' = adv (unat offset) ?n"
      unfolding step cr(1,3) by blast
    have "?bs @ take (unat sz - unat count - ?n) (drop (buf + ?n) buffer) = take (unat sz - unat count) (drop buf buffer)"
      using take_split [OF cb(3), of "drop buf buffer"] by (simp only: drop_drop add.commute)
    then have "wr (unat offset + ?n) (take (unat sz - unat count - ?n) (drop (buf + ?n) buffer)) (wr (unat offset) ?bs c) =
        wr (unat offset) (take (unat sz - unat count) (drop buf buffer)) c"
      using wr_wr [of "unat offset" ?bs] lb by simp
    moreover have "count + ?b = sz" if "unat sz \<le> 0x7ffff000" "count = 0"
      using that by (simp add: chunk_def RW_MAX_SIZE_def Let_def word_less_nat_alt)
    ultimately show ?thesis using f True by auto
  qed
qed

end

lemma put_at_put_at:
  assumes "p + length a \<le> length buf"
  shows "put_at (p + length a) b (put_at p a buf) = put_at p (a @ b) buf"
  using assms by (simp add: put_at_def ac_simps)

lemma length_put_at: "p + length a \<le> length buf \<Longrightarrow> length (put_at p a buf) = length buf"
  by (simp add: put_at_def)

lemma put_at_nil: "p \<le> length buf \<Longrightarrow> put_at p [] buf = buf"
  by (simp add: put_at_def)

lemma take_short: "length (take n xs) < n \<Longrightarrow> n \<le> m \<Longrightarrow> take m xs = take n xs"
  by simp

lemma count_sint:
  fixes count sz :: u64
  assumes "unat count + k \<le> unat sz" and "unat sz < 2 ^ 63"
  shows "sint (count + word_of_int (int k)) = int (unat count + k)" "unat (count + of_nat k) = unat count + k"
proof -
  have "unat (of_nat k :: u64) = k" using assms by (simp add: unat_of_nat take_bit_nat_eq_self)
  then show u: "unat (count + of_nat k) = unat count + k" using assms by (simp add: unat_word_ariths)
  then show "sint (count + word_of_int (int k)) = int (unat count + k)" using assms by (simp add: sint_unat)
qed

lemma read_loop_exact:
  assumes "reads_at S fd data fview" and "fview d = Some (p, c)" and "count \<le> sz" and "offset \<noteq> 0 \<or> p = 0"
    and "unat offset + (unat sz - unat count) < 2 ^ 63" and "unat sz < 2 ^ 63" and "buf + (unat sz - unat count) \<le> length buffer"
    and "got = take (unat sz - unat count) (drop (unat offset) (data c))"
  shows "\<exists>d' p'. read_loop S fd sz count buf offset (buffer, d) = (int (unat count + length got), put_at buf got buffer, d')
    \<and> fview d' = Some (p', c)"
  using assms(2-8)
proof (induction "unat sz - unat count" arbitrary: count buf offset p d buffer got rule: less_induct)
  case less
  show ?case
  proof (cases "count < sz")
    case False
    then have "count = sz" using less.prems(2) by simp
    then show ?thesis using less.prems
      by (subst read_loop.simps) (auto simp: sint_unat put_at_nil)
  next
    case True
    let ?b = "chunk sz count" and ?n = "unat (chunk sz count)"
    let ?bs = "take ?n (drop (unat offset) (data c))"
    note cb = chunk_bounds [OF True]
    obtain d1 where k: "seek_to S fd offset d = (True, d1)" "fview d1 = Some (unat offset, c)"
      using seek_to_effect [where fview = fview and d = d and p = p and c = c and offset = offset and S = S and fd = fd]
        assms(1) less.prems(1,3,4) by (auto simp: reads_at_def)
    obtain r bs d2 where w: "c_read S fd ?n d1 = (r, bs, d2)" by (metis prod_cases3)
    then have 2: "bs = ?bs" "r = int (length bs)" "fview d2 = Some (unat offset + length bs, c)"
      using assms(1) k(2) cb(4) unfolding reads_at_def by metis+
    have lb: "length bs \<le> ?n" by (simp add: 2(1))
    have fit: "unat count + length bs \<le> unat sz" "buf + length bs \<le> length buffer"
      using lb cb(3) True less.prems(6) by (simp_all add: word_less_nat_alt)
    note cs = count_sint [OF fit(1) less.prems(5)]
    show ?thesis
    proof (cases "length bs = ?n")
      case False
      then have "of_nat (length bs) \<noteq> ?b" using count_sint(2) [of 0 "length bs" sz] fit(1) less.prems(5) by auto
      moreover have "got = bs"
        using take_short [OF _ cb(3), of "drop (unat offset) (data c)"] False lb less.prems(7) 2(1) by (metis nat_less_le)
      ultimately show ?thesis
        using True k(1) w 2(2,3) cs(1) by (subst read_loop.simps) (simp add: Let_def)
    next
      case full: True
      have step: "read_loop S fd sz count buf offset (buffer, d) =
          read_loop S fd sz (count + ?b) (buf + ?n) (offset + ?b) (put_at buf bs buffer, d2)"
        by (subst read_loop.simps) (simp add: True k(1) w 2(2) full Let_def)
      note cr = chunk_round [OF True less.prems(4)]
      let ?got = "take (unat sz - unat (count + ?b)) (drop (unat (offset + ?b)) (data c))"
      have "buf + ?n + (unat sz - unat (count + ?b)) \<le> length (put_at buf bs buffer)"
        using less.prems(6) cb(3) cr(3) by (simp only: length_put_at [OF fit(2)])
      then obtain d' p' where f: "read_loop S fd sz count buf offset (buffer, d) =
          (int (unat (count + ?b) + length ?got), put_at (buf + ?n) ?got (put_at buf bs buffer), d')" "fview d' = Some (p', c)"
        using less.hyps [OF chunk_less [OF True] 2(3) cr(4) disjI1 [OF cr(2)] cr(5) less.prems(5) _ refl] unfolding step by blast
      have g: "bs @ ?got = got"
        using take_split [OF cb(3), of "drop (unat offset) (data c)"] unfolding 2(1) less.prems(7) cr(1,3)
        by (simp only: drop_drop add.commute)
      have "put_at (buf + ?n) ?got (put_at buf bs buffer) = put_at buf got buffer"
        using put_at_put_at [OF fit(2), of ?got] unfolding g full .
      moreover have "unat (count + ?b) + length ?got = unat count + length got"
        unfolding g [symmetric] length_append full cb(5) by simp
      ultimately show ?thesis using f by simp
    qed
  qed
qed

text \<open>What was written to a file is what is read from it.\<close>

lemma overwrite_read: "take (length bs) (drop p (overwrite p bs data)) = bs"
  by (cases "bs = []") (simp_all add: overwrite_def)

text \<open>C15: a buffer written to a file is read back whole.  On a regular file and at an offset that is not
  zero, the two loops transfer a buffer of any size below \<open>2^63\<close>, in as many system calls as it takes, to the
  place asked for and back; nothing of the second buffer outside the range changes.\<close>

theorem file_roundtrip:
  assumes "writes_at S fd (+) overwrite fview" and "reads_at S fd (\<lambda>c. c) fview" and "fview d = Some (p, c)" and "base \<noteq> 0"
    and "unat base + unat sz < 2 ^ 63" and "buf + unat sz \<le> length buffer" and "buf + unat sz \<le> length buffer2"
  shows "\<exists>d1 d2. write_from_buffer S fd buffer buf sz base d = (int (unat sz), d1)
    \<and> read_to_buffer S fd buf sz base (buffer2, d1) =
        (int (unat sz), put_at buf (take (unat sz) (drop buf buffer)) buffer2, d2)"
proof -
  let ?bs = "take (unat sz) (drop buf buffer)"
  have l: "length ?bs = unat sz" using assms(6) by simp
  obtain d1 p1 where w: "write_from_buffer S fd buffer buf sz base d = (int (unat sz), d1)"
    "fview d1 = Some (p1, overwrite (unat base) ?bs c)"
    using regular_file.write_loop_exact [OF assms(1,3) _ disjI1 [OF assms(4)], of 0 sz buf buffer] assms(5,6)
    by (auto simp: write_from_buffer_def)
  have got: "?bs = take (unat sz - unat (0 :: u64)) (drop (unat base) (overwrite (unat base) ?bs c))"
    using overwrite_read [of ?bs "unat base" c, unfolded l] by simp
  have "\<exists>d2 p2. read_loop S fd sz 0 buf base (buffer2, d1) = (int (unat (0 :: u64) + length ?bs), put_at buf ?bs buffer2, d2)
      \<and> fview d2 = Some (p2, overwrite (unat base) ?bs c)"
    by (rule read_loop_exact [OF assms(2) w(2) _ disjI1 [OF assms(4)] _ _ _ got]) (use assms(5,7) in simp_all)
  then show ?thesis using w(1) l by (auto simp: read_to_buffer_def)
qed

section \<open>Sending a file to the device\<close>

text \<open>
  What \<open>dma_to_device\<close> relies on.  A view of the system: the open files with name and position, and the memory
  of the device.  The input file is a regular file with the bytes \<open>data\<close>; the node of the channel transfers
  requests whole and, as the driver does, leaves the position of the file alone; memory is available and the
  clock works.
\<close>

record 'd tool_view =
  tv_file :: "'d \<Rightarrow> int \<Rightarrow> (string \<times> nat) option"
  tv_mem :: "'d \<Rightarrow> nat \<Rightarrow> u8"

definition tool_world :: "'d calls \<Rightarrow> 'd tool_view \<Rightarrow> string \<Rightarrow> string \<Rightarrow> u8 list \<Rightarrow> bool" where
  "tool_world S V node f data \<longleftrightarrow> node \<noteq> f
     \<and> (\<forall>name d fd d'. name \<in> {node, f} \<longrightarrow> c_open S name False d = (fd, d') \<longrightarrow>
        0 \<le> fd \<and> tv_file V d fd = None \<and> tv_file V d' = (tv_file V d)(fd \<mapsto> (name, 0)) \<and> tv_mem V d' = tv_mem V d)
     \<and> (\<forall>fd off d r d' n p. tv_file V d fd = Some (n, p) \<longrightarrow> 0 \<le> off \<longrightarrow> c_lseek S fd off d = (r, d') \<longrightarrow>
        r = off \<and> tv_file V d' = (tv_file V d)(fd \<mapsto> (n, nat off)) \<and> tv_mem V d' = tv_mem V d)
     \<and> (\<forall>fd n d r bs d' p. tv_file V d fd = Some (f, p) \<longrightarrow> n \<le> 0x7ffff000 \<longrightarrow> c_read S fd n d = (r, bs, d') \<longrightarrow>
        bs = take n (drop p data) \<and> r = int (length bs) \<and> tv_file V d' = (tv_file V d)(fd \<mapsto> (f, p + length bs))
          \<and> tv_mem V d' = tv_mem V d)
     \<and> (\<forall>fd bs d r d' p. tv_file V d fd = Some (node, p) \<longrightarrow> length bs \<le> 0x7ffff000 \<longrightarrow> c_write S fd bs d = (r, d') \<longrightarrow>
        r = int (length bs) \<and> tv_file V d' = tv_file V d \<and> tv_mem V d' = put_bytes p bs (tv_mem V d))
     \<and> (\<forall>n d m d'. c_alloc S n d = (m, d') \<longrightarrow>
        (\<exists>b. m = Some b \<and> length b = unat n) \<and> tv_file V d' = tv_file V d \<and> tv_mem V d' = tv_mem V d)
     \<and> (\<forall>fd d. tv_mem V (c_close S fd d) = tv_mem V d \<and> tv_mem V (c_free S d) = tv_mem V d)
     \<and> (\<forall>d rc ts d'. c_gettime S d = (rc, ts, d') \<longrightarrow> rc = 0 \<and> tv_file V d' = tv_file V d \<and> tv_mem V d' = tv_mem V d)"

text \<open>The node and the file, seen as a store that is written and a file that is read.\<close>

definition node_view :: "'d tool_view \<Rightarrow> string \<Rightarrow> int \<Rightarrow> 'd \<Rightarrow> (nat \<times> (nat \<Rightarrow> u8)) option" where
  "node_view V node fd d = (case tv_file V d fd of Some (n, p) \<Rightarrow> if n = node then Some (p, tv_mem V d) else None | None \<Rightarrow> None)"

definition file_view :: "'d tool_view \<Rightarrow> string \<Rightarrow> int \<Rightarrow> 'd \<Rightarrow> (nat \<times> (int \<Rightarrow> (string \<times> nat) option) \<times> (nat \<Rightarrow> u8)) option" where
  "file_view V f fd d = (case tv_file V d fd of
     Some (n, p) \<Rightarrow> if n = f then Some (p, (tv_file V d)(fd := None), tv_mem V d) else None | None \<Rightarrow> None)"

lemma world_lseek:
  assumes "tool_world S V node f data" and "c_lseek S fd off d = (r, d')" and "tv_file V d fd = Some (n, p)" and "0 \<le> off"
  shows "r = off \<and> tv_file V d' = (tv_file V d)(fd \<mapsto> (n, nat off)) \<and> tv_mem V d' = tv_mem V d"
proof -
  from assms(1) have "tv_file V d fd = Some (n, p) \<longrightarrow> 0 \<le> off \<longrightarrow> c_lseek S fd off d = (r, d') \<longrightarrow>
        r = off \<and> tv_file V d' = (tv_file V d)(fd \<mapsto> (n, nat off)) \<and> tv_mem V d' = tv_mem V d"
    unfolding tool_world_def by (elim conjE allE)
  then show ?thesis using assms(2-4) by blast
qed

lemma world_read:
  assumes "tool_world S V node f data" and "c_read S fd n d = (r, bs, d')" and "tv_file V d fd = Some (f, p)" and "n \<le> 0x7ffff000"
  shows "bs = take n (drop p data) \<and> r = int (length bs) \<and> tv_file V d' = (tv_file V d)(fd \<mapsto> (f, p + length bs))
      \<and> tv_mem V d' = tv_mem V d"
proof -
  from assms(1) have "tv_file V d fd = Some (f, p) \<longrightarrow> n \<le> 0x7ffff000 \<longrightarrow> c_read S fd n d = (r, bs, d') \<longrightarrow>
        bs = take n (drop p data) \<and> r = int (length bs) \<and> tv_file V d' = (tv_file V d)(fd \<mapsto> (f, p + length bs))
          \<and> tv_mem V d' = tv_mem V d"
    unfolding tool_world_def by (elim conjE allE)
  then show ?thesis using assms(2-4) by blast
qed

lemma world_write:
  assumes "tool_world S V node f data" and "c_write S fd bs d = (r, d')" and "tv_file V d fd = Some (node, p)" and "length bs \<le> 0x7ffff000"
  shows "r = int (length bs) \<and> tv_file V d' = tv_file V d \<and> tv_mem V d' = put_bytes p bs (tv_mem V d)"
proof -
  from assms(1) have "tv_file V d fd = Some (node, p) \<longrightarrow> length bs \<le> 0x7ffff000 \<longrightarrow> c_write S fd bs d = (r, d') \<longrightarrow>
        r = int (length bs) \<and> tv_file V d' = tv_file V d \<and> tv_mem V d' = put_bytes p bs (tv_mem V d)"
    unfolding tool_world_def by (elim conjE allE)
  then show ?thesis using assms(2-4) by blast
qed

lemma world_alloc:
  assumes "tool_world S V node f data" and "c_alloc S n d = (m, d')"
  shows "(\<exists>b. m = Some b \<and> length b = unat n) \<and> tv_file V d' = tv_file V d \<and> tv_mem V d' = tv_mem V d"
proof -
  from assms(1) have "c_alloc S n d = (m, d') \<longrightarrow>
        (\<exists>b. m = Some b \<and> length b = unat n) \<and> tv_file V d' = tv_file V d \<and> tv_mem V d' = tv_mem V d"
    unfolding tool_world_def by (elim conjE allE)
  then show ?thesis using assms(2) by blast
qed

lemma world_open:
  assumes "tool_world S V node f data" and "c_open S name False d = (fd, d')" and "name = node \<or> name = f"
  shows "0 \<le> fd \<and> tv_file V d fd = None \<and> tv_file V d' = (tv_file V d)(fd \<mapsto> (name, 0)) \<and> tv_mem V d' = tv_mem V d"
proof -
  from assms(1) have "name \<in> {node, f} \<longrightarrow> c_open S name False d = (fd, d') \<longrightarrow>
        0 \<le> fd \<and> tv_file V d fd = None \<and> tv_file V d' = (tv_file V d)(fd \<mapsto> (name, 0)) \<and> tv_mem V d' = tv_mem V d"
    unfolding tool_world_def by (elim conjE allE)
  then show ?thesis using assms(2,3) by blast
qed

lemma world_clock:
  assumes "tool_world S V node f data" and "c_gettime S d = (rc, ts, d')"
  shows "rc = 0 \<and> tv_file V d' = tv_file V d \<and> tv_mem V d' = tv_mem V d"
proof -
  from assms(1) have "c_gettime S d = (rc, ts, d') \<longrightarrow> rc = 0 \<and> tv_file V d' = tv_file V d \<and> tv_mem V d' = tv_mem V d"
    unfolding tool_world_def by (elim conjE allE)
  then show ?thesis using assms(2) by blast
qed

lemma world_close:
  assumes "tool_world S V node f data"
  shows "tv_mem V (c_close S fd d) = tv_mem V d" "tv_mem V (c_free S d) = tv_mem V d"
  using assms unfolding tool_world_def by blast+

lemma node_view_iff: "node_view V node fd d = Some (p, m) \<longleftrightarrow> tv_file V d fd = Some (node, p) \<and> m = tv_mem V d"
  by (auto simp: node_view_def split: option.splits if_splits)

lemma file_view_iff: "file_view V f fd d = Some (p, c) \<longleftrightarrow>
    tv_file V d fd = Some (f, p) \<and> c = ((tv_file V d)(fd := None), tv_mem V d)"
  by (auto simp: file_view_def split: option.splits if_splits)

lemma node_writes:
  assumes "tool_world S V node f data"
  shows "writes_at S fd (\<lambda>p n. p) put_bytes (node_view V node fd)"
  unfolding writes_at_def seeks_def node_view_iff
proof (intro conjI allI impI; elim conjE)
  fix off d r d' p m
  assume "tv_file V d fd = Some (node, p)" "m = tv_mem V d" "0 \<le> off" "c_lseek S fd off d = (r, d')"
  then show "r = off" "tv_file V d' fd = Some (node, nat off)" "m = tv_mem V d'"
    using world_lseek [OF assms] by simp_all
next
  fix bs d r d' p m
  assume "tv_file V d fd = Some (node, p)" "m = tv_mem V d" "length bs \<le> 0x7ffff000" "c_write S fd bs d = (r, d')"
  then show "r = int (length bs)" "tv_file V d' fd = Some (node, p)" "put_bytes p bs m = tv_mem V d'"
    using world_write [OF assms] by simp_all
qed

lemma file_reads:
  assumes "tool_world S V node f data"
  shows "reads_at S fd (\<lambda>_. data) (file_view V f fd)"
  unfolding reads_at_def seeks_def file_view_iff
proof (intro conjI allI impI; elim conjE)
  fix off d r d' p c
  assume "tv_file V d fd = Some (f, p)" "c = ((tv_file V d)(fd := None), tv_mem V d)" "0 \<le> off" "c_lseek S fd off d = (r, d')"
  then show "r = off" "tv_file V d' fd = Some (f, nat off)" "c = ((tv_file V d')(fd := None), tv_mem V d')"
    using world_lseek [OF assms] by simp_all
next
  fix n d r bs d' p c
  assume "tv_file V d fd = Some (f, p)" "c = ((tv_file V d)(fd := None), tv_mem V d)" "n \<le> 0x7ffff000" "c_read S fd n d = (r, bs, d')"
  then show "bs = take n (drop p data)" "r = int (length bs)" "tv_file V d' fd = Some (f, p + length bs)"
    "c = ((tv_file V d')(fd := None), tv_mem V d')"
    using world_read [OF assms] by (simp_all (no_asm_simp))
qed

lemma put_bytes_twice: "put_bytes p bs (put_bytes p bs m) = put_bytes p bs m"
  by (simp add: put_bytes_def fun_eq_iff)

text \<open>One pass, and all of them, without an output file.\<close>

lemma to_device_pass_effect:
  assumes "tool_world S V node f data" and "tv_file V d fd = Some (node, p)" and "addr \<noteq> 0 \<or> p = 0"
    and "unat addr + unat sz < 2 ^ 63" and "buf + unat sz \<le> length buffer"
  shows "\<exists>d' P' p'. to_device_pass S fd (-1) addr 0 sz buf (buffer, P, d) = (Inr P', buffer, d')
    \<and> p_rc P' = 0 \<and> underflow P' = underflow P \<and> tv_file V d' fd = Some (node, p')
    \<and> tv_mem V d' = put_bytes (unat addr) (take (unat sz) (drop buf buffer)) (tv_mem V d)
    \<and> (addr = 0 \<and> unat sz \<le> 0x7ffff000 \<longrightarrow> p' = 0)"
proof -
  obtain rc ts d1 where c: "c_gettime S d = (rc, ts, d1)" by (metis prod_cases3)
  note 1 = world_clock [OF assms(1) c]
  have n: "node_view V node fd d1 = Some (p, tv_mem V d)" using assms(2) 1 by (simp add: node_view_iff)
  obtain d2 p' where w: "write_from_buffer S fd buffer buf sz addr d1 = (int (unat sz), d2)"
    "node_view V node fd d2 = Some (p', put_bytes (unat addr) (take (unat sz) (drop buf buffer)) (tv_mem V d))"
    "addr = 0 \<and> unat sz \<le> 0x7ffff000 \<longrightarrow> p' = 0"
    using board_memory.write_loop_exact [OF node_writes [OF assms(1)] n _ assms(3), of 0 sz buf buffer] assms(4,5)
    by (auto simp: write_from_buffer_def)
  obtain rc' ts' d3 where c': "c_gettime S d2 = (rc', ts', d3)" by (metis prod_cases3)
  note 2 = world_clock [OF assms(1) c']
  show ?thesis using c w c' 1 2
    by (auto simp: to_device_pass_def Let_def copy_out_def take_times_def node_view_iff)
qed

lemma passes_effect:
  assumes "tool_world S V node f data" and "tv_file V d fd = Some (node, p)"
    and "addr \<noteq> 0 \<or> p = 0 \<and> (unat sz \<le> 0x7ffff000 \<or> n \<le> 1)"
    and "unat addr + unat sz < 2 ^ 63" and "buf + unat sz \<le> length buffer"
  shows "\<exists>d' P'. passes (to_device_pass S fd (-1) addr 0 sz buf) n (buffer, P, d) = (Inr P', buffer, d')
    \<and> (p_rc P' = p_rc P \<or> p_rc P' = 0) \<and> underflow P' = underflow P
    \<and> tv_mem V d' = (if n = 0 then tv_mem V d else put_bytes (unat addr) (take (unat sz) (drop buf buffer)) (tv_mem V d))"
  using assms(2,3)
proof (induction n arbitrary: d p P)
  case (Suc n)
  then have "addr \<noteq> 0 \<or> p = 0" by blast
  from to_device_pass_effect [OF assms(1) Suc.prems(1) this assms(4,5), of P] obtain d1 P1 p1 where
    1: "to_device_pass S fd (-1) addr 0 sz buf (buffer, P, d) = (Inr P1, buffer, d1)" "p_rc P1 = 0" "underflow P1 = underflow P"
      "tv_file V d1 fd = Some (node, p1)" "tv_mem V d1 = put_bytes (unat addr) (take (unat sz) (drop buf buffer)) (tv_mem V d)"
      "addr = 0 \<and> unat sz \<le> 0x7ffff000 \<longrightarrow> p1 = 0" by blast
  show ?case
  proof (cases n)
    case 0
    then show ?thesis using 1 by simp
  next
    case (Suc m)
    then have "addr \<noteq> 0 \<or> p1 = 0 \<and> (unat sz \<le> 0x7ffff000 \<or> n \<le> 1)" using Suc.prems(2) 1(6) by auto
    from Suc.IH [OF 1(4) this, of P1] show ?thesis using 1 \<open>n = Suc m\<close> by (auto simp: put_bytes_twice)
  qed
qed simp

text \<open>The node and the file are opened and the buffer is there.\<close>

lemma to_device_prologue:
  assumes "tool_world S V node f data" and "unat sz + 4096 < 2 ^ 63"
    and "to_device S rc0 node addr 0 sz offset count (Some f) None d = (rv, d')"
  obtains fd ffd buffer d3 rc under d4 where "0 \<le> ffd" "ffd \<noteq> fd" "tv_file V d3 fd = Some (node, 0)" "tv_file V d3 ffd = Some (f, 0)"
    "tv_mem V d3 = tv_mem V d" "length buffer = unat sz + 4096"
    "to_device_run S rc0 fd ffd (-1) addr 0 sz (unat offset) count (buffer, d3) = (rc, under, d4)"
    "rv = (if rc < 0 then rc else if under then - errno_code EIO else 0)" "tv_mem V d' = tv_mem V d4"
proof -
  obtain fd d1 where o: "c_open S node False d = (fd, d1)" by fastforce
  obtain ffd d2 where f: "c_open S f False d1 = (ffd, d2)" by fastforce
  obtain mm d3 where a: "c_alloc S (sz + 4096) d2 = (mm, d3)" by fastforce
  have 1: "0 \<le> fd" "tv_file V d1 fd = Some (node, 0)" "tv_mem V d1 = tv_mem V d" using world_open [OF assms(1) o] by simp_all
  have 2: "0 \<le> ffd" "tv_file V d1 ffd = None" "tv_file V d2 = (tv_file V d1)(ffd \<mapsto> (f, 0))" "tv_mem V d2 = tv_mem V d1"
    using world_open [OF assms(1) f] by simp_all
  have s: "unat (sz + 4096) = unat sz + 4096" using assms(2) by (simp add: unat_word_ariths)
  obtain buffer where 3: "mm = Some buffer" "length buffer = unat sz + 4096" "tv_file V d3 = tv_file V d2" "tv_mem V d3 = tv_mem V d2"
    using world_alloc [OF assms(1) a] s by auto
  obtain rc under d4 where r: "to_device_run S rc0 fd ffd (-1) addr 0 sz (unat offset) count (buffer, d3) = (rc, under, d4)"
    by (metis prod_cases3)
  have fresh: "ffd \<noteq> fd" using 1(2) 2(2) by auto
  have "to_device S rc0 node addr 0 sz offset count (Some f) None d =
      (if rc < 0 then rc else if under then - errno_code EIO else 0, c_free S (c_close S ffd (c_close S fd d4)))"
    using o f a r 1(1) 2(1) 3(1) by (simp add: to_device_def open_if_def close_if_def)
  then have e: "rv = (if rc < 0 then rc else if under then - errno_code EIO else 0)" "tv_mem V d' = tv_mem V d4"
    using assms(3) world_close [OF assms(1)] by simp_all
  show thesis
    by (rule that [OF 2(1) fresh _ _ _ 3(2) r e]) (use fresh 1 2 3 in simp_all)
qed

text \<open>The file is read into the buffer, as far as it goes.\<close>

lemma input_read:
  assumes "tool_world S V node f data" and "unat sz + 4096 < 2 ^ 63" and "unat offset \<le> 4096"
    and "tv_file V d ffd = Some (f, 0)" and "length buffer = unat sz + 4096"
  shows "\<exists>d'. read_to_buffer S ffd (unat offset) sz 0 (buffer, d) =
      (int (length (take (unat sz) data)), put_at (unat offset) (take (unat sz) data) buffer, d')
    \<and> tv_mem V d' = tv_mem V d \<and> (\<forall>fd. fd \<noteq> ffd \<longrightarrow> tv_file V d' fd = tv_file V d fd)"
proof -
  have v: "file_view V f ffd d = Some (0, (tv_file V d)(ffd := None), tv_mem V d)" using assms(4) by (simp add: file_view_iff)
  obtain d' p where r: "read_to_buffer S ffd (unat offset) sz 0 (buffer, d) =
      (int (length (take (unat sz) data)), put_at (unat offset) (take (unat sz) data) buffer, d')"
    "file_view V f ffd d' = Some (p, (tv_file V d)(ffd := None), tv_mem V d)"
    using read_loop_exact [OF file_reads [OF assms(1)] v, of 0 sz 0 "unat offset" buffer "take (unat sz) data"] assms(2,3,5)
    by (auto simp: read_to_buffer_def)
  have e: "(tv_file V d)(ffd := None) = (tv_file V d')(ffd := None)" "tv_mem V d = tv_mem V d'"
    using r(2) by (simp_all add: file_view_iff)
  have "tv_file V d' fd = tv_file V d fd" if "fd \<noteq> ffd" for fd using fun_cong [OF e(1), of fd] that by simp
  then show ?thesis using r(1) e(2) by auto
qed

text \<open>C7: \<open>dma_to_device\<close> delivers the file.  If the input file has the bytes asked for, the tool returns
  zero and exactly these bytes are in the memory of the device at the address asked for, whatever the size,
  the offset of the buffer in its page and the number of repetitions.  The exception is excluded: at address
  zero no seek is made, so that a repetition of a transfer of more than \<open>RW_MAX_SIZE\<close> bytes starts where the
  one before has left the position.\<close>

theorem dma_to_device_delivers:
  assumes "tool_world S V node f data" and "unat addr + unat sz + 4096 < 2 ^ 63" and "unat offset \<le> 4096"
    and "unat sz \<le> length data" and "0 < count" and "addr \<noteq> 0 \<or> unat sz \<le> 0x7ffff000 \<or> count = 1"
    and "to_device S rc0 node addr 0 sz offset count (Some f) None d = (rv, d')"
  shows "rv = 0 \<and> tv_mem V d' = put_bytes (unat addr) (take (unat sz) data) (tv_mem V d)"
proof -
  have b: "unat sz + 4096 < 2 ^ 63" "unat addr + unat sz < 2 ^ 63" using assms(2) by simp_all
  obtain fd ffd buffer d3 rc under d4 where p: "0 \<le> ffd" "ffd \<noteq> fd" "tv_file V d3 fd = Some (node, 0)" "tv_file V d3 ffd = Some (f, 0)"
    "tv_mem V d3 = tv_mem V d" "length buffer = unat sz + 4096"
    "to_device_run S rc0 fd ffd (-1) addr 0 sz (unat offset) count (buffer, d3) = (rc, under, d4)"
    "rv = (if rc < 0 then rc else if under then - errno_code EIO else 0)" "tv_mem V d' = tv_mem V d4"
    by (rule to_device_prologue [OF assms(1) b(1) assms(7)])
  let ?data = "take (unat sz) data"
  let ?buf = "put_at (unat offset) ?data buffer"
  let ?P = "\<lparr>p_rc = int (length ?data), bytes_done = 0, out_offset = 0, underflow = False, total_time = 0\<rparr>"
  have l: "length ?data = unat sz" using assms(4) by simp
  have fit: "unat offset + length ?data \<le> length buffer" using p(6) assms(3) l by linarith
  have got: "unat offset + unat sz \<le> length ?buf" "take (unat sz) (drop (unat offset) ?buf) = ?data"
    using fit l by (simp_all add: length_put_at) (simp add: put_at_def)
  obtain d5 where r: "read_to_buffer S ffd (unat offset) sz 0 (buffer, d3) = (int (length ?data), ?buf, d5)"
    "tv_mem V d5 = tv_mem V d3" "tv_file V d5 fd = Some (node, 0)"
    using input_read [OF assms(1) b(1) assms(3) p(4,6)] p(2,3) by metis
  have c: "addr \<noteq> 0 \<or> (0 :: nat) = 0 \<and> (unat sz \<le> 0x7ffff000 \<or> unat count \<le> 1)" using assms(6) by auto
  obtain d6 P' where e: "passes (to_device_pass S fd (-1) addr 0 sz (unat offset)) (unat count) (?buf, ?P, d5) = (Inr P', ?buf, d6)"
    "p_rc P' = p_rc ?P \<or> p_rc P' = 0" "underflow P' = underflow ?P"
    "tv_mem V d6 = (if unat count = 0 then tv_mem V d5 else put_bytes (unat addr) ?data (tv_mem V d5))"
    using passes_effect [OF assms(1) r(3) c b(2) got(1), of ?P] unfolding got(2) by blast
  have "to_device_run S rc0 fd ffd (-1) addr 0 sz (unat offset) count (buffer, d3) = (p_rc P', underflow P', d6)"
    using r(1) e(1) l p(1) by (simp add: to_device_run_def)
  moreover have "unat count \<noteq> 0" using assms(5) by (simp add: word_less_nat_alt)
  ultimately show ?thesis using p(5,7-9) r(2) e(2-4) l by auto
qed

text \<open>C39: a short input file is not an error.  If the file has fewer bytes than the size asked for, the tool
  returns zero, which its help calls success, although nothing has been sent to the device.\<close>

theorem dma_to_device_short_input:
  assumes "tool_world S V node f data" and "unat sz + 4096 < 2 ^ 63" and "unat offset \<le> 4096" and "length data < unat sz"
    and "to_device S rc0 node addr 0 sz offset count (Some f) None d = (rv, d')"
  shows "rv = 0 \<and> tv_mem V d' = tv_mem V d"
proof -
  obtain fd ffd buffer d3 rc under d4 where p: "0 \<le> ffd" "ffd \<noteq> fd" "tv_file V d3 fd = Some (node, 0)" "tv_file V d3 ffd = Some (f, 0)"
    "tv_mem V d3 = tv_mem V d" "length buffer = unat sz + 4096"
    "to_device_run S rc0 fd ffd (-1) addr 0 sz (unat offset) count (buffer, d3) = (rc, under, d4)"
    "rv = (if rc < 0 then rc else if under then - errno_code EIO else 0)" "tv_mem V d' = tv_mem V d4"
    by (rule to_device_prologue [OF assms(1,2,5)])
  obtain d5 where r: "read_to_buffer S ffd (unat offset) sz 0 (buffer, d3) =
      (int (length data), put_at (unat offset) data buffer, d5)" "tv_mem V d5 = tv_mem V d3"
    using input_read [OF assms(1-3) p(4,6)] assms(4) by auto
  have "unat (of_nat (length data) :: u64) = length data"
    using count_sint(2) [of 0 "length data" sz] assms(2,4) by simp
  then have "(of_nat (length data) :: u64) < sz" using assms(4) by (simp add: word_less_nat_alt)
  then have "to_device_run S rc0 fd ffd (-1) addr 0 sz (unat offset) count (buffer, d3) = (int (length data), False, d5)"
    using r(1) p(1) by (simp add: to_device_run_def)
  then show ?thesis using p(5,7-9) r(2) by simp
qed

section \<open>Concrete systems\<close>

text \<open>One open regular file: its position and its bytes.\<close>

definition disk_calls :: "(nat \<times> u8 list) calls" where
  "disk_calls = \<lparr>c_open = (\<lambda>_ _ d. (3, d)), c_close = (\<lambda>_ d. d),
     c_lseek = (\<lambda>_ off d. (off, nat off, snd d)),
     c_read = (\<lambda>_ n d. let bs = take n (drop (fst d) (snd d)) in (int (length bs), bs, fst d + length bs, snd d)),
     c_write = (\<lambda>_ bs d. (int (length bs), fst d + length bs, overwrite (fst d) bs (snd d))),
     c_alloc = (\<lambda>n d. (Some (replicate (unat n) 0), d)), c_free = (\<lambda>d. d),
     c_aperture = (\<lambda>_ _ bs _ _ _ d. (-1, 0, 0, bs, d)), c_gettime = (\<lambda>d. (0, \<lparr>tv_sec = 0, tv_nsec = 0\<rparr>, d))\<rparr>"

lemma disk_laws: "writes_at disk_calls fd (+) overwrite Some" "reads_at disk_calls fd (\<lambda>c. c) Some"
  by (auto simp: writes_at_def reads_at_def seeks_def disk_calls_def Let_def)

theorem file_roundtrip_witness:
  "\<exists>d1 d2. write_from_buffer disk_calls 3 [1, 2, 3, 4] 1 3 8 (0, [9]) = (3, d1)
     \<and> read_to_buffer disk_calls 3 1 3 8 ([7, 7, 7, 7, 7], d1) = (3, [7, 2, 3, 4, 7], d2)"
  using file_roundtrip [OF disk_laws, of "(0, [9])" 0 "[9]" 8 3 1 "[1, 2, 3, 4]" "[7, 7, 7, 7, 7]" 3]
  by (simp add: put_at_def)

text \<open>A desk: a file \<open>f\<close> with three bytes, and a node in front of an empty memory.\<close>

record desk =
  k_files :: "int \<Rightarrow> (string \<times> nat) option"
  k_mem :: "nat \<Rightarrow> u8"
  k_next :: nat

definition desk_data :: "u8 list" where
  "desk_data = [10, 20, 30]"

text \<open>Descriptors are numbered, and only \<open>k_next\<close> and below are ever open.\<close>

definition k_file :: "desk \<Rightarrow> int \<Rightarrow> (string \<times> nat) option" where
  "k_file d fd = (if fd < int (k_next d) then k_files d fd else None)"

definition desk_calls :: "desk calls" where
  "desk_calls = \<lparr>
     c_open = (\<lambda>name _ d. (int (k_next d), d\<lparr>k_files := (k_files d)(int (k_next d) \<mapsto> (name, 0)), k_next := Suc (k_next d)\<rparr>)),
     c_close = (\<lambda>fd d. d\<lparr>k_files := (k_files d)(fd := None)\<rparr>),
     c_lseek = (\<lambda>fd off d. (off, d\<lparr>k_files := (k_files d)(fd := map_option (\<lambda>(n, p). (n, nat off)) (k_files d fd))\<rparr>)),
     c_read = (\<lambda>fd n d. case k_files d fd of None \<Rightarrow> (-1, [], d)
        | Some (f, p) \<Rightarrow> let bs = take n (drop p desk_data) in (int (length bs), bs, d\<lparr>k_files := (k_files d)(fd \<mapsto> (f, p + length bs))\<rparr>)),
     c_write = (\<lambda>fd bs d. case k_files d fd of None \<Rightarrow> (-1, d) | Some (f, p) \<Rightarrow> (int (length bs), d\<lparr>k_mem := put_bytes p bs (k_mem d)\<rparr>)),
     c_alloc = (\<lambda>n d. (Some (replicate (unat n) 0), d)), c_free = (\<lambda>d. d),
     c_aperture = (\<lambda>_ _ bs _ _ _ d. (-1, 0, 0, bs, d)), c_gettime = (\<lambda>d. (0, \<lparr>tv_sec = 0, tv_nsec = 0\<rparr>, d))\<rparr>"

definition desk_view :: "desk tool_view" where
  "desk_view = \<lparr>tv_file = k_file, tv_mem = k_mem\<rparr>"

definition desk0 :: desk where
  "desk0 = \<lparr>k_files = (\<lambda>_. None), k_mem = (\<lambda>_. 0), k_next = 3\<rparr>"

lemma desk_world: "tool_world desk_calls desk_view ''h2c'' ''in'' desk_data"
  unfolding tool_world_def
  by (intro conjI allI impI; simp add: desk_calls_def desk_view_def k_file_def Let_def fun_eq_iff split: if_splits; fastforce)

theorem dma_to_device_delivers_witness:
  "\<exists>d'. to_device desk_calls 0 ''h2c'' 0x40 0 3 5 2 (Some ''in'') None desk0 = (0, d')
     \<and> tv_mem desk_view d' = put_bytes 0x40 [10, 20, 30] (\<lambda>_. 0)"
proof -
  obtain rv d' where t: "to_device desk_calls 0 ''h2c'' 0x40 0 3 5 2 (Some ''in'') None desk0 = (rv, d')" by fastforce
  show ?thesis using dma_to_device_delivers [OF desk_world _ _ _ _ _ t] t
    by (simp add: desk_data_def desk_view_def desk0_def)
qed

theorem dma_to_device_short_input_witness:
  "\<exists>d'. to_device desk_calls 0 ''h2c'' 0x40 0 4 5 2 (Some ''in'') None desk0 = (0, d') \<and> tv_mem desk_view d' = (\<lambda>_. 0)"
proof -
  obtain rv d' where t: "to_device desk_calls 0 ''h2c'' 0x40 0 4 5 2 (Some ''in'') None desk0 = (rv, d')" by fastforce
  show ?thesis using dma_to_device_short_input [OF desk_world _ _ _ t] t
    by (simp add: desk_data_def desk_view_def desk0_def)
qed

end
