(* ===== verification/Reg_Tool.thy ===== *)
theory Reg_Tool
  imports Prelude
begin

text \<open>
  The command line tool that reads or writes one register through a mapping of a device node
  (\<open>tools/reg_rw.c\<close>), and the one that opens and closes a node (\<open>tools/test_chrdev.c\<close>).  The host is little
  endian, so that the conversions between host and device order are the identity.
\<close>

section \<open>System calls\<close>

text \<open>
  The calls over a state \<open>'d\<close>: opening returns a descriptor and the error number; a mapping of a length at an
  offset of the file; loads and stores of a width in bytes at an address of the device.
\<close>

record 'd reg_calls =
  g_open :: "string \<Rightarrow> 'd \<Rightarrow> int \<times> int \<times> 'd"
  g_map :: "int \<Rightarrow> u64 \<Rightarrow> u64 \<Rightarrow> 'd \<Rightarrow> bool \<times> 'd"
  g_load :: "nat \<Rightarrow> u64 \<Rightarrow> 'd \<Rightarrow> u64 \<times> 'd"
  g_store :: "nat \<Rightarrow> u64 \<Rightarrow> u64 \<Rightarrow> 'd \<Rightarrow> 'd"
  g_unmap :: "u64 \<Rightarrow> 'd \<Rightarrow> 'd"
  g_close :: "int \<Rightarrow> 'd \<Rightarrow> int \<times> 'd"

section \<open>The operations\<close>

text \<open>The access width is the number of bytes; every other letter means a word.\<close>

definition access_width :: "char option \<Rightarrow> nat" where
  "access_width ty = (case ty of None \<Rightarrow> 4
     | Some ch \<Rightarrow> if ch = CHR ''b'' \<or> ch = CHR ''B'' then 1 else if ch = CHR ''h'' \<or> ch = CHR ''H'' then 2 else 4)"

text \<open>
  \<open>main\<close>, after the arguments have been converted: the device, the address, the type letter if there is a
  third argument, and the data if there is a fourth.  The result is the exit code and the value printed by a
  read.  The data is a 32-bit variable, cut to the width by the store.
\<close>

definition reg_rw_main :: "'d reg_calls \<Rightarrow> string \<Rightarrow> u64 \<Rightarrow> char option \<Rightarrow> u64 option \<Rightarrow> 'd \<Rightarrow> int \<times> u32 option \<times> 'd" where
  "reg_rw_main S device target ty data d =
     (let pgsz = 4096;
          offset = target AND (pgsz - 1);
          target_aligned = target AND NOT (pgsz - 1);
          width = access_width ty;
          (fd, errno, d) = g_open S device d
      in if fd = -1 then (- errno, None, d)
         else let (ok, d) = g_map S fd (offset + 4) target_aligned d in
              if \<not> ok then (1, None, snd (g_close S fd d))
              else let (read_result, d) =
                         (case data of
                            None \<Rightarrow> let (v, d) = g_load S width (target_aligned + offset) d in (Some (ucast v :: u32), d)
                          | Some w \<Rightarrow> (None, g_store S width (target_aligned + offset) (ucast (ucast w :: u32)) d));
                       d = g_unmap S (offset + 4) d
                   in (0, read_result, snd (g_close S fd d)))"

definition test_chrdev_main :: "'d reg_calls \<Rightarrow> string list \<Rightarrow> 'd \<Rightarrow> int \<times> 'd" where
  "test_chrdev_main S argv d =
     (if length argv < 2 \<or> 3 \<le> length argv then (-1, d)
      else let (fd, errno, d) = g_open S (argv ! 1) d in
           if fd < 0 then (fd, d)
           else let (rc, d) = g_close S fd d in if rc \<noteq> 0 then (-1, d) else (0, d))"

section \<open>Writing and reading back\<close>

text \<open>
  A device whose registers can be mapped and keep what is stored: \<open>val\<close> shows the value of a width at an
  address.
\<close>

definition register_file :: "'d reg_calls \<Rightarrow> ('d \<Rightarrow> nat \<Rightarrow> u64 \<Rightarrow> u64) \<Rightarrow> bool" where
  "register_file S val \<longleftrightarrow>
     (\<forall>dev d fd errno d'. g_open S dev d = (fd, errno, d') \<longrightarrow> 0 \<le> fd \<and> val d' = val d)
     \<and> (\<forall>fd len off d ok d'. g_map S fd len off d = (ok, d') \<longrightarrow> ok \<and> val d' = val d)
     \<and> (\<forall>w a d v d'. g_load S w a d = (v, d') \<longrightarrow> v = val d w a \<and> val d' = val d)
     \<and> (\<forall>w a v d. val (g_store S w a v d) w a = take_bit (8 * w) v)
     \<and> (\<forall>len d. val (g_unmap S len d) = val d)
     \<and> (\<forall>fd d. val (snd (g_close S fd d)) = val d)"

lemma access_width_cases: "access_width ty = 1 \<or> access_width ty = 2 \<or> access_width ty = 4"
  by (simp add: access_width_def split: option.splits)

text \<open>The register tool reads back what it wrote, cut to the access width.\<close>

theorem reg_rw_read_back:
  assumes "register_file S val" and "reg_rw_main S dev target ty (Some w) d = (rv, out, d1)"
    and "reg_rw_main S dev target ty None d1 = (rv', out', d2)"
  shows "rv = 0 \<and> rv' = 0 \<and> out' = Some (take_bit (8 * access_width ty) (ucast w))"
proof -
  let ?n = "access_width ty" and ?a = "(target AND NOT (4096 - 1)) + (target AND (4096 - 1))" and ?w = "ucast (ucast w :: u32) :: u64"
  have open_map: "\<exists>fd e d'. g_open S dev d = (fd, e, d') \<and> fd \<noteq> -1 \<and> val d' = val d" for d
    using assms(1) by (cases "g_open S dev d") (fastforce simp: register_file_def)
  have map: "\<exists>d'. g_map S fd len off d = (True, d') \<and> val d' = val d" for fd len off d
    using assms(1) by (cases "g_map S fd len off d") (fastforce simp: register_file_def)
  note laws = assms(1) [unfolded register_file_def]
  have 1: "rv = 0 \<and> val d1 ?n ?a = take_bit (8 * ?n) ?w"
  proof -
    obtain fd e d' where o: "g_open S dev d = (fd, e, d')" "fd \<noteq> -1" using open_map by blast
    obtain d'' where m: "g_map S fd ((target AND (4096 - 1)) + 4) (target AND NOT (4096 - 1)) d' = (True, d'')" using map by blast
    have "rv = 0" "d1 = snd (g_close S fd (g_unmap S ((target AND (4096 - 1)) + 4) (g_store S ?n ?a ?w d'')))"
      using assms(2) o m by (simp_all add: reg_rw_main_def Let_def)
    then show ?thesis using laws by simp
  qed
  obtain fd e d' where o: "g_open S dev d1 = (fd, e, d')" "fd \<noteq> -1" "val d' = val d1" using open_map by blast
  obtain d'' where m: "g_map S fd ((target AND (4096 - 1)) + 4) (target AND NOT (4096 - 1)) d' = (True, d'')" "val d'' = val d'"
    using map by blast
  obtain v d3 where l: "g_load S ?n ?a d'' = (v, d3)" by fastforce
  then have "v = val d1 ?n ?a" using laws o(3) m(2) by metis
  then have "rv' = 0" "out' = Some (ucast (take_bit (8 * ?n) ?w))"
    using assms(3) o(1,2) m(1) l 1 by (simp_all add: reg_rw_main_def Let_def)
  moreover have "(ucast (take_bit (8 * ?n) ?w) :: u32) = take_bit (8 * ?n) (ucast w)"
    by (rule bit_word_eqI) (auto simp: bit_simps)
  ultimately show ?thesis using 1 by simp
qed

end
